theory Spec2Isabelle
  imports Main "HOL-Library.Word"
begin

unbundle bit_operations_syntax

section \<open>The keystore codec of json-wallets (keystore.ts)\<close>

text \<open>
  A shallow embedding of \<^verbatim>\<open>packages/json-wallets/src.ts/keystore.ts\<close>: the two
  exported functions \<^verbatim>\<open>decrypt\<close> and \<^verbatim>\<open>encrypt\<close> with the closures
  \<^verbatim>\<open>decrypt\<close>, \<^verbatim>\<open>computeMAC\<close> and \<^verbatim>\<open>getAccount\<close> of the first.

  Conventions of the model.
  \<^item> A \<^verbatim>\<open>Uint8Array\<close> is a list of 8-bit words; \<^verbatim>\<open>slice(a, b)\<close> clamps as in JavaScript.
  \<^item> A JavaScript string is a \<open>string\<close>; case conversion is the ASCII one.
  \<^item> Every \<^verbatim>\<open>throw\<close> and every rejected promise is a value \<open>Inl e\<close>; the error kinds
    carry the names of the specification, the source's message is given beside each.
  \<^item> The cryptographic and wallet collaborators (scrypt, pbkdf2, AES-CTR, Keccak-256,
    address and HD-wallet derivation, UUID, JSON text, random bytes) are parameters,
    collected in the record \<open>prims\<close>. A collaborator that throws returns \<open>None\<close>.
  \<^item> Every invocation of a key-derivation function is logged, so that "the KDF is
    never invoked" is a statement about the log.
  \<^item> The progress callback has no effect on the result and is not modelled.
\<close>

subsection \<open>Bytes, characters and hexadecimal text\<close>

type_synonym byte = "8 word"
type_synonym bytes = "byte list"

text \<open>\<^verbatim>\<open>Uint8Array.prototype.slice(a, b)\<close> for \<open>0 \<le> a \<le> b\<close>.\<close>

definition slice_list :: "nat \<Rightarrow> nat \<Rightarrow> 'a list \<Rightarrow> 'a list" where
  "slice_list a b xs = take (b - a) (drop a xs)"

text \<open>\<^verbatim>\<open>String.prototype.toLowerCase\<close>, on ASCII.\<close>

definition lower_char :: "char \<Rightarrow> char" where
  "lower_char c =
     (case map_of (zip ''ABCDEFGHIJKLMNOPQRSTUVWXYZ'' ''abcdefghijklmnopqrstuvwxyz'') c of
        None \<Rightarrow> c
      | Some d \<Rightarrow> d)"

definition toLowerCase :: "string \<Rightarrow> string" where
  "toLowerCase s = map lower_char s"

definition hex_digit :: "nat \<Rightarrow> char" where
  "hex_digit n = ''0123456789abcdef'' ! (n mod 16)"

definition hex_val :: "char \<Rightarrow> nat option" where
  "hex_val c =
     map_of (zip ''0123456789abcdefABCDEF''
                 [0x00, 0x01, 0x02, 0x03, 0x04, 0x05, 0x06, 0x07, 0x08, 0x09, 0x0a, 0x0b, 0x0c, 0x0d, 0x0e, 0x0f, 0x0a, 0x0b, 0x0c, 0x0d, 0x0e, 0x0f]) c"

definition hex_of_byte :: "byte \<Rightarrow> string" where
  "hex_of_byte b = [hex_digit (unat b div 16), hex_digit (unat b mod 16)]"

text \<open>
  \<^verbatim>\<open>hexlify\<close> of @ethersproject/bytes on a byte array: \<^verbatim>\<open>0x\<close> and two lowercase
  digits for each byte.
\<close>

definition hexlify :: "bytes \<Rightarrow> string" where
  "hexlify bs = ''0x'' @ concat (map hex_of_byte bs)"

fun hex_pairs :: "string \<Rightarrow> bytes option" where
  "hex_pairs [] = Some []"
| "hex_pairs [c] = None"
| "hex_pairs (a # b # cs) =
     (case hex_val a of
        None \<Rightarrow> None
      | Some x \<Rightarrow>
          (case hex_val b of
             None \<Rightarrow> None
           | Some y \<Rightarrow>
               (case hex_pairs cs of
                  None \<Rightarrow> None
                | Some r \<Rightarrow> Some (word_of_nat (16 * x + y) # r))))"

text \<open>
  Modelled from the spec: the hexadecimal reader of the byte and hex utilities (4.A),
  which is not in the source file: an odd number of digits is left-padded with a single
  \<^verbatim>\<open>0\<close>, a character that is no hexadecimal digit is rejected.
\<close>

definition hex_decode :: "string \<Rightarrow> bytes option" where
  "hex_decode s = (if odd (length s) then hex_pairs (CHR ''0'' # s) else hex_pairs s)"

subsection \<open>Errors\<close>

datatype error =
    BadJson                     \<comment> \<open>\<^verbatim>\<open>JSON.parse\<close> throws\<close>
  | AmbiguousKey                \<comment> \<open>sibling keys that differ only in case\<close>
  | UnsupportedKdf              \<comment> \<open>"unsupported key-derivation function"\<close>
  | UnsupportedKdfParams        \<comment> \<open>"unsupported key-derivation function parameters"\<close>
  | UnsupportedKdfNValue        \<comment> \<open>"unsupported key-derivation function parameter value for N"\<close>
  | UnsupportedDkLen            \<comment> \<open>"unsupported key-derivation derived-key length"\<close>
  | UnsupportedPrf              \<comment> \<open>"unsupported prf"\<close>
  | UnsupportedCipher           \<comment> \<open>"unsupported cipher"\<close>
  | InvalidPassword             \<comment> \<open>"invalid password"\<close>
  | AddressMismatch             \<comment> \<open>"address mismatch"\<close>
  | MnemonicMismatch            \<comment> \<open>"mnemonic mismatch"\<close>
  | AddressPrivateKeyMismatch   \<comment> \<open>"address/privateKey mismatch"\<close>
  | PathWithoutMnemonic         \<comment> \<open>"cannot specify path without mnemonic"\<close>
  | InvalidIv                   \<comment> \<open>"invalid iv"\<close>
  | InvalidUuid                 \<comment> \<open>"invalid uuid"\<close>
  | InvalidHex                  \<comment> \<open>the hexadecimal reader rejects its argument\<close>
  | TypeError                   \<comment> \<open>a method call on a value that has no such method\<close>
  | CollaboratorError           \<comment> \<open>a collaborator (a parameter of the model) throws\<close>

subsection \<open>JSON values and the JavaScript operations applied to them\<close>

text \<open>
  The value \<^verbatim>\<open>JSON.parse\<close> returns. Numbers are integers (the fields \<^verbatim>\<open>n\<close>,
  \<^verbatim>\<open>r\<close>, \<^verbatim>\<open>p\<close>, \<^verbatim>\<open>c\<close>, \<^verbatim>\<open>dklen\<close> and \<^verbatim>\<open>version\<close> of a keystore); an object is
  the list of its members in insertion order. The numbers modelled are the integers
  that a double holds and that \<^verbatim>\<open>String\<close> writes out digit by digit, which it does
  below \<open>10 ^ 21\<close> in magnitude; numbers with a fraction and numbers from \<open>10 ^ 21\<close> on,
  written in exponent form, are outside the model.
\<close>

datatype json =
    JNull
  | JBool bool
  | JNum int
  | JStr string
  | JArr "json list"
  | JObj "(string \<times> json) list"

text \<open>Truthiness, for \<^verbatim>\<open>if (v)\<close>, \<^verbatim>\<open>!v\<close> and \<^verbatim>\<open>v || d\<close>; \<open>None\<close> is a missing value.\<close>

fun truthy :: "json option \<Rightarrow> bool" where
  "truthy None = False"
| "truthy (Some JNull) = False"
| "truthy (Some (JBool b)) = b"
| "truthy (Some (JNum n)) = (n \<noteq> 0)"
| "truthy (Some (JStr s)) = (s \<noteq> [])"
| "truthy (Some (JArr xs)) = True"
| "truthy (Some (JObj kvs)) = True"

text \<open>The decimal numeral of a number, as \<^verbatim>\<open>ToString\<close> writes an integer.\<close>

function dec_digits :: "int \<Rightarrow> string" where
  "dec_digits i =
     (if i < 10 then [hex_digit (nat i)]
      else dec_digits (i div 10) @ [hex_digit (nat (i mod 10))])"
  by pat_completeness auto
termination
  by (relation "measure nat") auto

declare dec_digits.simps [simp del]

definition dec_int :: "int \<Rightarrow> string" where
  "dec_int i = (if i < 0 then CHR ''-'' # dec_digits (- i) else dec_digits i)"

definition dec_nat :: "nat \<Rightarrow> string" where
  "dec_nat n = dec_digits (int n)"

fun intercalate :: "string \<Rightarrow> string list \<Rightarrow> string" where
  "intercalate sep [] = []"
| "intercalate sep [x] = x"
| "intercalate sep (x # y # ys) = x @ sep @ intercalate sep (y # ys)"

text \<open>
  \<^verbatim>\<open>ToString\<close> on a parsed JSON value; a missing value prints as \<^verbatim>\<open>null\<close> does, with
  no digit in it. Inside an array \<^verbatim>\<open>null\<close> prints as the empty string.
\<close>

fun js_toString :: "json \<Rightarrow> string" where
  "js_toString JNull = ''null''"
| "js_toString (JBool b) = (if b then ''true'' else ''false'')"
| "js_toString (JNum n) = dec_int n"
| "js_toString (JStr s) = s"
| "js_toString (JArr xs) =
     intercalate '','' (map (\<lambda>x. if x = JNull then [] else js_toString x) xs)"
| "js_toString (JObj kvs) = ''[object Object]''"

definition is_space :: "char \<Rightarrow> bool" where
  "is_space c = (c \<in> set [CHR '' '', CHR 0x09, CHR 0x0A, CHR 0x0B, CHR 0x0C, CHR 0x0D])"

fun digits_prefix :: "nat \<Rightarrow> string \<Rightarrow> nat list" where
  "digits_prefix radix [] = []"
| "digits_prefix radix (c # cs) =
     (case hex_val c of
        None \<Rightarrow> []
      | Some d \<Rightarrow> if d < radix then d # digits_prefix radix cs else [])"

definition digits_value :: "nat \<Rightarrow> nat list \<Rightarrow> nat" where
  "digits_value radix ds = foldl (\<lambda>acc d. acc * radix + d) 0 ds"

text \<open>
  \<^verbatim>\<open>parseInt(string)\<close> with no radix: leading white space, a sign, a \<^verbatim>\<open>0x\<close> prefix
  (radix 16), then the longest run of digits; \<open>None\<close> is \<^verbatim>\<open>NaN\<close>.
\<close>

definition parseInt_str :: "string \<Rightarrow> int option" where
  "parseInt_str s =
     (let s1 = dropWhile is_space s;
          neg = (take 1 s1 = ''-'');
          s2 = (if take 1 s1 = ''-'' \<or> take 1 s1 = ''+'' then drop 1 s1 else s1);
          hex = (take 2 s2 = ''0x'' \<or> take 2 s2 = ''0X'');
          radix = (if hex then 16 else 10);
          ds = digits_prefix radix (if hex then drop 2 s2 else s2)
      in if ds = [] then None
         else Some ((if neg then - 1 else 1) * int (digits_value radix ds)))"

text \<open>
  \<^verbatim>\<open>parseInt(v)\<close> on what \<^verbatim>\<open>searchPath\<close> returns: the argument is converted to a
  string and read. The numeral of an integer reads back as that integer; this is the
  value for the numbers modelled, those below \<open>10 ^ 21\<close> in magnitude.
\<close>

fun parseInt :: "json option \<Rightarrow> int option" where
  "parseInt None = None"
| "parseInt (Some (JNum n)) = Some n"
| "parseInt (Some v) = parseInt_str (js_toString v)"

subsection \<open>The helpers of utils.ts\<close>

fun split_on :: "char \<Rightarrow> string \<Rightarrow> string list" where
  "split_on d [] = [[]]"
| "split_on d (c # cs) =
     (if c = d then [] # split_on d cs
      else (case split_on d cs of [] \<Rightarrow> [[c]] | w # ws \<Rightarrow> (c # w) # ws))"

text \<open>
  Modelled from the spec: \<^verbatim>\<open>searchPath\<close> of utils.ts, the JSON path resolver (4.B).
  Keys are compared case-insensitively at each level; two sibling keys that match the
  same segment are ambiguous; a missing segment is "not found" (\<open>None\<close>), distinct from
  a member that is present and \<^verbatim>\<open>null\<close>.
\<close>

definition lookup_ci :: "string \<Rightarrow> (string \<times> json) list \<Rightarrow> error + json option" where
  "lookup_ci seg kvs =
     (case filter (\<lambda>kv. toLowerCase (fst kv) = seg) kvs of
        [] \<Rightarrow> Inr None
      | [kv] \<Rightarrow> Inr (Some (snd kv))
      | _ \<Rightarrow> Inl AmbiguousKey)"

fun walk :: "json \<Rightarrow> string list \<Rightarrow> error + json option" where
  "walk cur [] = Inr (Some cur)"
| "walk (JObj kvs) (seg # segs) =
     (case lookup_ci seg kvs of
        Inl e \<Rightarrow> Inl e
      | Inr None \<Rightarrow> Inr None
      | Inr (Some v) \<Rightarrow> walk v segs)"
| "walk cur (seg # segs) = Inr None"

definition searchPath :: "json \<Rightarrow> string \<Rightarrow> error + json option" where
  "searchPath object path = walk object (split_on CHR ''/'' (toLowerCase path))"

text \<open>
  Modelled from the spec: \<^verbatim>\<open>looseArrayify\<close> of utils.ts, the loose hex parse (4.A): a
  string with or without the \<^verbatim>\<open>0x\<close> prefix, or an array of bytes passed through;
  anything else fails.
\<close>

fun byte_of_json :: "json \<Rightarrow> byte option" where
  "byte_of_json (JNum n) = (if 0 \<le> n \<and> n < 256 then Some (word_of_int n) else None)"
| "byte_of_json v = None"

fun those_bytes :: "json list \<Rightarrow> bytes option" where
  "those_bytes [] = Some []"
| "those_bytes (x # xs) =
     (case byte_of_json x of
        None \<Rightarrow> None
      | Some b \<Rightarrow> (case those_bytes xs of None \<Rightarrow> None | Some bs \<Rightarrow> Some (b # bs)))"

fun looseArrayify :: "json option \<Rightarrow> error + bytes" where
  "looseArrayify (Some (JStr s)) =
     (case hex_decode (if take 2 s = ''0x'' then drop 2 s else s) of
        None \<Rightarrow> Inl InvalidHex
      | Some bs \<Rightarrow> Inr bs)"
| "looseArrayify (Some (JArr xs)) =
     (case those_bytes xs of None \<Rightarrow> Inl InvalidHex | Some bs \<Rightarrow> Inr bs)"
| "looseArrayify v = Inl InvalidHex"

text \<open>
  A \<^verbatim>\<open>BytesLike\<close> argument is a hexadecimal string or an array of bytes.

  Modelled from the spec: \<^verbatim>\<open>arrayify\<close> of @ethersproject/bytes, which is not in the
  source file. It is the strict reader, not the loose one of 4.A: a string must carry
  the \<^verbatim>\<open>0x\<close> prefix and then hexadecimal digits two by two; a missing prefix, a
  character that is no hexadecimal digit and an odd number of digits
  (\<^verbatim>\<open>hex data is odd-length\<close>) are rejected, malformed hex being \<^verbatim>\<open>InvalidHex\<close> (7).
  An array of bytes is returned as it is.
\<close>

datatype BytesLike = HexString string | ByteArray bytes

fun arrayify :: "BytesLike \<Rightarrow> error + bytes" where
  "arrayify (ByteArray bs) = Inr bs"
| "arrayify (HexString s) =
     (if take 2 s = ''0x''
      then (case hex_pairs (drop 2 s) of None \<Rightarrow> Inl InvalidHex | Some bs \<Rightarrow> Inr bs)
      else Inl InvalidHex)"

text \<open>
  Modelled from the spec: \<^verbatim>\<open>getPassword\<close> of utils.ts: the UTF-8 bytes of a string,
  a byte array as it is. The characters of a \<open>string\<close> are the bytes of its UTF-8 form.
\<close>

datatype password = PasswordString string | PasswordBytes bytes

fun getPassword :: "password \<Rightarrow> bytes" where
  "getPassword (PasswordString s) = map (\<lambda>c. word_of_nat (of_char c)) s"
| "getPassword (PasswordBytes bs) = bs"

text \<open>
  Modelled from the spec: \<^verbatim>\<open>zpad\<close> of utils.ts: the decimal numeral of \<open>n\<close>,
  left-padded with \<^verbatim>\<open>0\<close> to the width.
\<close>

definition zpad :: "nat \<Rightarrow> nat \<Rightarrow> string" where
  "zpad n width = replicate (width - length (dec_nat n)) (CHR ''0'') @ dec_nat n"

subsection \<open>Sequencing of fallible steps\<close>

definition bindE :: "error + 'a \<Rightarrow> ('a \<Rightarrow> error + 'b) \<Rightarrow> error + 'b" where
  "bindE m f = (case m of Inl e \<Rightarrow> Inl e | Inr x \<Rightarrow> f x)"

text \<open>A collaborator that throws.\<close>

definition orThrow :: "'a option \<Rightarrow> error + 'a" where
  "orThrow m = (case m of None \<Rightarrow> Inl CollaboratorError | Some x \<Rightarrow> Inr x)"

subsection \<open>Accounts and collaborators\<close>

record ExternallyOwnedAccount =
  address :: string
  privateKey :: string
  mnemonic :: "string option"
  path :: "string option"

record KeystoreAccount = ExternallyOwnedAccount +
  isKeystoreAccount :: bool

text \<open>What the code reads of the node \<^verbatim>\<open>HDNode.fromMnemonic(m).derivePath(p)\<close>.\<close>

record HDNode =
  node_privateKey :: string
  node_mnemonic :: string
  node_path :: string

text \<open>
  The object \<^verbatim>\<open>new aes.ModeOfOperation.ctr(key, new aes.Counter(iv))\<close> with its two
  methods.
\<close>

record ctr_cipher =
  ctr_encrypt :: "bytes \<Rightarrow> bytes"
  ctr_decrypt :: "bytes \<Rightarrow> bytes"

text \<open>
  The collaborators. \<open>keccak256\<close> returns the digest (the source holds it as its
  \<^verbatim>\<open>0x\<close> string, \<open>hexlify\<close> of the digest). \<open>scrypt\<close> takes password, salt, N, r, p
  and the length asked for; \<open>pbkdf2\<close> takes password, salt, the iteration count
  (\<open>None\<close> is \<^verbatim>\<open>NaN\<close>), the length asked for and the hash name. \<open>aes_ctr\<close> takes the
  key and the initial counter block. \<open>randomBytes\<close> consumes from a random source
  \<open>'r\<close> and returns it advanced.
\<close>

record 'r prims =
  keccak256 :: "bytes \<Rightarrow> bytes"
  scrypt :: "bytes \<Rightarrow> bytes \<Rightarrow> int \<Rightarrow> int \<Rightarrow> int \<Rightarrow> int \<Rightarrow> bytes option"
  pbkdf2 :: "bytes \<Rightarrow> bytes \<Rightarrow> int option \<Rightarrow> int \<Rightarrow> string \<Rightarrow> bytes option"
  aes_ctr :: "bytes \<Rightarrow> bytes \<Rightarrow> ctr_cipher option"
  computeAddress :: "bytes \<Rightarrow> string option"
  getAddress :: "string \<Rightarrow> string option"
  entropyToMnemonic :: "bytes \<Rightarrow> string option"
  mnemonicToEntropy :: "string \<Rightarrow> bytes option"
  fromMnemonic_derivePath :: "string \<Rightarrow> string \<Rightarrow> HDNode option"
  uuid_v4 :: "bytes \<Rightarrow> string"
  JSON_parse :: "string \<Rightarrow> json option"
  JSON_stringify :: "json \<Rightarrow> string"
  randomBytes :: "nat \<Rightarrow> 'r \<Rightarrow> bytes \<times> 'r"

text \<open>\<^verbatim>\<open>defaultPath\<close> of @ethersproject/hdnode.\<close>

definition defaultPath :: string where
  "defaultPath = ''m/44'' @ [CHR 0x27] @ ''/60'' @ [CHR 0x27] @ ''/0'' @ [CHR 0x27] @ ''/0/0''"

text \<open>The log of key-derivation invocations, with the arguments passed.\<close>

datatype kdf_call =
    ScryptCall bytes bytes int int int int
  | Pbkdf2Call bytes bytes "int option" int string

subsection \<open>decrypt\<close>

text \<open>
  The closure \<^verbatim>\<open>decrypt(key, ciphertext)\<close> (lines 54 to 66): the plaintext under
  \<^verbatim>\<open>aes-128-ctr\<close>, \<^verbatim>\<open>null\<close> (\<open>None\<close>) for any other cipher name.
\<close>

definition decryptCipher :: "'r prims \<Rightarrow> json \<Rightarrow> bytes \<Rightarrow> bytes \<Rightarrow> error + bytes option" where
  "decryptCipher P data key ciphertext =
     bindE (searchPath data ''crypto/cipher'') (\<lambda>cipher.
       if cipher = Some (JStr ''aes-128-ctr'') then
         bindE (searchPath data ''crypto/cipherparams/iv'') (\<lambda>v.
         bindE (looseArrayify v) (\<lambda>iv.
         bindE (orThrow (aes_ctr P key iv)) (\<lambda>aesCtr.
           Inr (Some (ctr_decrypt aesCtr ciphertext)))))
       else Inr None)"

text \<open>The closure \<^verbatim>\<open>computeMAC\<close> (lines 68 to 70).\<close>

definition computeMAC :: "'r prims \<Rightarrow> bytes \<Rightarrow> bytes \<Rightarrow> bytes" where
  "computeMAC P derivedHalf ciphertext = keccak256 P (derivedHalf @ ciphertext)"

text \<open>\<^verbatim>\<open>v.toLowerCase()\<close> is a TypeError unless \<open>v\<close> is a string.\<close>

fun call_toLowerCase :: "json option \<Rightarrow> error + string" where
  "call_toLowerCase (Some (JStr s)) = Inr (toLowerCase s)"
| "call_toLowerCase v = Inl TypeError"

text \<open>\<^verbatim>\<open>data.address\<close>: a plain property read, on the exact key.\<close>

fun data_address :: "json \<Rightarrow> error + json option" where
  "data_address JNull = Inl TypeError"
| "data_address (JObj kvs) = Inr (map_of kvs ''address'')"
| "data_address v = Inr None"

text \<open>The address check of \<^verbatim>\<open>getAccount\<close> (lines 88 to 95).\<close>

definition checkAddress :: "'r prims \<Rightarrow> json \<Rightarrow> string \<Rightarrow> error + unit" where
  "checkAddress P data addr =
     bindE (data_address data) (\<lambda>a.
       if truthy a then
         bindE (call_toLowerCase a) (\<lambda>check0.
           let check = (if take 2 check0 \<noteq> ''0x'' then ''0x'' @ check0 else check0) in
           bindE (orThrow (getAddress P check)) (\<lambda>canonical.
             if canonical \<noteq> addr then Inl AddressMismatch else Inr ()))
       else Inr ())"

text \<open>
  \<^verbatim>\<open>searchPath(data, "x-ethers/path") || defaultPath\<close>, then passed to
  \<^verbatim>\<open>derivePath\<close>, which throws on a value that is not a string.
\<close>

fun path_or_default :: "json option \<Rightarrow> json" where
  "path_or_default v = (if truthy v then the v else JStr defaultPath)"

fun derive :: "'r prims \<Rightarrow> string \<Rightarrow> json \<Rightarrow> error + HDNode" where
  "derive P m (JStr p) = orThrow (fromMnemonic_derivePath P m p)"
| "derive P m v = Inl CollaboratorError"

text \<open>The mnemonic section of \<^verbatim>\<open>getAccount\<close> (lines 104 to 124).\<close>

definition getMnemonic ::
  "'r prims \<Rightarrow> json \<Rightarrow> bytes \<Rightarrow> KeystoreAccount \<Rightarrow> error + KeystoreAccount" where
  "getMnemonic P data mnemonicKey account =
     bindE (searchPath data ''x-ethers/mnemonicCiphertext'') (\<lambda>v1.
     bindE (looseArrayify v1) (\<lambda>mnemonicCiphertext.
     bindE (searchPath data ''x-ethers/mnemonicCounter'') (\<lambda>v2.
     bindE (looseArrayify v2) (\<lambda>mnemonicIv.
     bindE (orThrow (aes_ctr P mnemonicKey mnemonicIv)) (\<lambda>mnemonicAesCtr.
     bindE (searchPath data ''x-ethers/path'') (\<lambda>v3.
     let pth = path_or_default v3;
         entropy = ctr_decrypt mnemonicAesCtr mnemonicCiphertext in
     bindE (orThrow (entropyToMnemonic P entropy)) (\<lambda>m.
     bindE (derive P m pth) (\<lambda>node.
       if node_privateKey node \<noteq> privateKey account then Inl MnemonicMismatch
       else Inr (account\<lparr>mnemonic := Some (node_mnemonic node),
                          path := Some (node_path node)\<rparr>)))))))))"

text \<open>
  The first part of the closure \<^verbatim>\<open>getAccount(key)\<close> (lines 73 to 85): the MAC
  check, the decryption of the private key and the test for an unsupported cipher.
\<close>

definition recoverPrivateKey :: "'r prims \<Rightarrow> json \<Rightarrow> bytes \<Rightarrow> error + bytes" where
  "recoverPrivateKey P data key =
     bindE (searchPath data ''crypto/ciphertext'') (\<lambda>v.
     bindE (looseArrayify v) (\<lambda>ciphertext.
     let computedMAC = drop 2 (hexlify (computeMAC P (slice_list 16 32 key) ciphertext)) in
     bindE (searchPath data ''crypto/mac'') (\<lambda>m.
     bindE (call_toLowerCase m) (\<lambda>mac.
       if computedMAC \<noteq> mac then Inl InvalidPassword
       else
         bindE (decryptCipher P data (slice_list 0 16 key) ciphertext) (\<lambda>privKey.
           (case privKey of
              None \<Rightarrow> Inl UnsupportedCipher
            | Some pk \<Rightarrow> Inr pk))))))"

text \<open>The closure \<^verbatim>\<open>getAccount(key)\<close> (lines 72 to 127).\<close>

definition getAccount :: "'r prims \<Rightarrow> json \<Rightarrow> bytes \<Rightarrow> error + KeystoreAccount" where
  "getAccount P data key =
     bindE (recoverPrivateKey P data key) (\<lambda>privKey.
     let mnemonicKey = slice_list 32 64 key in
     bindE (orThrow (computeAddress P privKey)) (\<lambda>addr.
     bindE (checkAddress P data addr) (\<lambda>u.
     let account = \<lparr>address = addr, privateKey = hexlify privKey,
                    mnemonic = None, path = None, isKeystoreAccount = True\<rparr> in
     bindE (searchPath data ''x-ethers/version'') (\<lambda>version.
       if version = Some (JStr ''0.1'')
       then getMnemonic P data mnemonicKey account
       else Inr account))))"

text \<open>\<^verbatim>\<open>!N\<close> on the result of \<^verbatim>\<open>parseInt\<close>: true on \<^verbatim>\<open>NaN\<close> and on 0.\<close>

definition js_not :: "int option \<Rightarrow> bool" where
  "js_not n = (n = None \<or> n = Some 0)"

text \<open>
  Arithmetic on numbers is arithmetic on doubles. A double holds every integer up to
  \<open>2 ^ 53\<close> in magnitude; a larger integer is rounded to the nearest one with a
  significand of 53 bits, a tie going to the even significand. \<open>bit_length\<close> is the
  number of binary digits of a positive integer.
\<close>

function bit_length :: "int \<Rightarrow> nat" where
  "bit_length a = (if a \<le> 0 then 0 else Suc (bit_length (a div 2)))"
  by pat_completeness auto
termination
  by (relation "measure nat") auto

declare bit_length.simps [simp del]

definition round_double :: "int \<Rightarrow> int" where
  "round_double x =
     (if \<bar>x\<bar> \<le> 9007199254740992 then x
      else
        (let e = bit_length \<bar>x\<bar> - 53;
             q = \<bar>x\<bar> div 2 ^ e;
             r = \<bar>x\<bar> mod 2 ^ e
         in sgn x * ((if 2 ^ e < 2 * r \<or> (2 * r = 2 ^ e \<and> odd q) then q + 1 else q) * 2 ^ e)))"

text \<open>
  \<^verbatim>\<open>(N & (N - 1)) !== 0\<close>: the difference is rounded to a double, and the operator
  \<^verbatim>\<open>&\<close> converts both operands to 32-bit integers (ToInt32) before it combines
  them.
\<close>

definition not_power_of_two_check :: "int \<Rightarrow> bool" where
  "not_power_of_two_check N =
     ((word_of_int N :: 32 word) AND word_of_int (round_double (N - 1)) \<noteq> 0)"

text \<open>
  The scrypt branch up to the call of scrypt (lines 133 to 149): the salt and the
  parameters N, r and p the call is made with, or the error thrown before it.
\<close>

definition scryptParams :: "json \<Rightarrow> error + (bytes \<times> int \<times> int \<times> int)" where
  "scryptParams data =
     bindE (searchPath data ''crypto/kdfparams/salt'') (\<lambda>v.
     bindE (looseArrayify v) (\<lambda>salt.
     bindE (searchPath data ''crypto/kdfparams/n'') (\<lambda>vn.
     bindE (searchPath data ''crypto/kdfparams/r'') (\<lambda>vr.
     bindE (searchPath data ''crypto/kdfparams/p'') (\<lambda>vp.
     let N = parseInt vn; r = parseInt vr; p = parseInt vp in
       if js_not N \<or> js_not r \<or> js_not p then Inl UnsupportedKdfParams
       else if not_power_of_two_check (the N) then Inl UnsupportedKdfNValue
       else
         bindE (searchPath data ''crypto/kdfparams/dklen'') (\<lambda>vd.
           if parseInt vd \<noteq> Some 32 then Inl UnsupportedDkLen
           else Inr (salt, the N, the r, the p)))))))"

text \<open>
  The pbkdf2 branch up to the call of pbkdf2 (lines 158 to 175): the salt, the
  iteration count, the length and the hash name the call is made with.
\<close>

definition pbkdf2Params :: "json \<Rightarrow> error + (bytes \<times> int option \<times> int \<times> string)" where
  "pbkdf2Params data =
     bindE (searchPath data ''crypto/kdfparams/salt'') (\<lambda>v.
     bindE (looseArrayify v) (\<lambda>salt.
     bindE (searchPath data ''crypto/kdfparams/prf'') (\<lambda>prf.
     bindE (if prf = Some (JStr ''hmac-sha256'') then Inr ''sha256''
            else if prf = Some (JStr ''hmac-sha512'') then Inr ''sha512''
            else Inl UnsupportedPrf) (\<lambda>prfFunc.
     bindE (searchPath data ''crypto/kdfparams/c'') (\<lambda>vc.
     bindE (searchPath data ''crypto/kdfparams/dklen'') (\<lambda>vd.
     let c = parseInt vc; dkLen = parseInt vd in
       if dkLen \<noteq> Some 32 then Inl UnsupportedDkLen
       else Inr (salt, c, the dkLen, prfFunc)))))))"

text \<open>
  The dispatch on \<^verbatim>\<open>crypto/kdf\<close> (lines 130 to 182) up to the two calls
  \<^verbatim>\<open>getAccount(key)\<close>: the log of KDF invocations and the key passed to
  \<^verbatim>\<open>getAccount\<close>, or the error thrown before.
\<close>

definition deriveKey :: "'r prims \<Rightarrow> json \<Rightarrow> bytes \<Rightarrow> kdf_call list \<times> (error + bytes)" where
  "deriveKey P data passwordBytes =
     (case searchPath data ''crypto/kdf'' of
        Inl e \<Rightarrow> ([], Inl e)
      | Inr (Some (JStr kdf)) \<Rightarrow>
          if kdf \<noteq> [] \<and> toLowerCase kdf = ''scrypt'' then
            (case scryptParams data of
               Inl e \<Rightarrow> ([], Inl e)
             | Inr (salt, N, r, p) \<Rightarrow>
                 ([ScryptCall passwordBytes salt N r p 64],
                  orThrow (scrypt P passwordBytes salt N r p 64)))
          else if kdf \<noteq> [] \<and> toLowerCase kdf = ''pbkdf2'' then
            (case pbkdf2Params data of
               Inl e \<Rightarrow> ([], Inl e)
             | Inr (salt, c, dkLen, prfFunc) \<Rightarrow>
                 ([Pbkdf2Call passwordBytes salt c dkLen prfFunc],
                  orThrow (pbkdf2 P passwordBytes salt c dkLen prfFunc)))
          else ([], Inl UnsupportedKdf)
      | Inr other \<Rightarrow> ([], Inl UnsupportedKdf))"

text \<open>
  \<^verbatim>\<open>decrypt\<close> after \<^verbatim>\<open>JSON.parse\<close> (lines 52 to 182): the log of KDF invocations
  and the account or the error.
\<close>

definition decryptData ::
  "'r prims \<Rightarrow> json \<Rightarrow> password \<Rightarrow> kdf_call list \<times> (error + KeystoreAccount)" where
  "decryptData P data pw =
     (case deriveKey P data (getPassword pw) of
        (calls, key) \<Rightarrow> (calls, bindE key (getAccount P data)))"

definition decrypt ::
  "'r prims \<Rightarrow> string \<Rightarrow> password \<Rightarrow> kdf_call list \<times> (error + KeystoreAccount)" where
  "decrypt P json pw =
     (case JSON_parse P json of
        None \<Rightarrow> ([], Inl BadJson)
      | Some data \<Rightarrow> decryptData P data pw)"

subsection \<open>encrypt\<close>

record ScryptOptions =
  opt_N :: "int option"
  opt_r :: "int option"
  opt_p :: "int option"

record EncryptOptions =
  opt_iv :: "BytesLike option"
  opt_entropy :: "BytesLike option"
  opt_client :: "string option"
  opt_salt :: "BytesLike option"
  opt_uuid :: "string option"
  opt_scrypt :: "ScryptOptions option"

text \<open>\<^verbatim>\<open>if (!options) { options = {}; }\<close>\<close>

definition no_options :: EncryptOptions where
  "no_options = \<lparr>opt_iv = None, opt_entropy = None, opt_client = None, opt_salt = None,
                  opt_uuid = None, opt_scrypt = None\<rparr>"

text \<open>The UTC components \<^verbatim>\<open>new Date()\<close> is read for; the month counts from 0.\<close>

record utc_time =
  UTCFullYear :: nat
  UTCMonth :: nat
  UTCDate :: nat
  UTCHours :: nat
  UTCMinutes :: nat
  UTCSeconds :: nat

text \<open>Truthiness of an optional string and of an optional \<^verbatim>\<open>BytesLike\<close>.\<close>

fun truthy_string :: "string option \<Rightarrow> bool" where
  "truthy_string None = False"
| "truthy_string (Some s) = (s \<noteq> [])"

fun truthy_bytes :: "BytesLike option \<Rightarrow> bool" where
  "truthy_bytes None = False"
| "truthy_bytes (Some (HexString s)) = (s \<noteq> [])"
| "truthy_bytes (Some (ByteArray bs)) = True"

fun truthy_int :: "int option \<Rightarrow> bool" where
  "truthy_int None = False"
| "truthy_int (Some n) = (n \<noteq> 0)"

text \<open>\<^verbatim>\<open>computeAddress(account.privateKey)\<close>, the key given as its \<^verbatim>\<open>0x\<close> string.\<close>

definition computeAddressOfKey :: "'r prims \<Rightarrow> string \<Rightarrow> error + string" where
  "computeAddressOfKey P pk =
     bindE (arrayify (HexString pk)) (\<lambda>bs. orThrow (computeAddress P bs))"

text \<open>
  The validation of the account (lines 187 to 204); a failure rejects the promise
  \<^verbatim>\<open>encrypt\<close> returns.
\<close>

definition validateAccount :: "'r prims \<Rightarrow> 'a ExternallyOwnedAccount_scheme \<Rightarrow> error + unit" where
  "validateAccount P account =
     bindE (orThrow (getAddress P (address account))) (\<lambda>a.
     bindE (computeAddressOfKey P (privateKey account)) (\<lambda>b.
       if a \<noteq> b then Inl AddressPrivateKeyMismatch
       else
         (case mnemonic account of
            Some m \<Rightarrow>
              bindE (orThrow (fromMnemonic_derivePath P m
                       (if truthy_string (path account) then the (path account) else defaultPath)))
                (\<lambda>node.
                  if node_privateKey node \<noteq> privateKey account then Inl MnemonicMismatch
                  else Inr ())
          | None \<Rightarrow>
              (case path account of
                 Some p \<Rightarrow> Inl PathWithoutMnemonic
               | None \<Rightarrow> Inr ()))))"

text \<open>What lines 213 to 258 compute before scrypt is called.\<close>

record 'r prepared =
  p_privateKey :: bytes
  p_entropy :: "bytes option"
  p_path :: "string option"
  p_client :: string
  p_salt :: bytes
  p_iv :: bytes
  p_uuidRandom :: bytes
  p_N :: int
  p_r :: int
  p_p :: int
  p_rng :: 'r

text \<open>Lines 216 to 221: the entropy of the mnemonic and the path stored with it.\<close>

definition chooseEntropy ::
  "'r prims \<Rightarrow> 'a ExternallyOwnedAccount_scheme \<Rightarrow> error + (bytes option \<times> string option)" where
  "chooseEntropy P account =
     (if truthy_string (mnemonic account) then
        bindE (orThrow (mnemonicToEntropy P (the (mnemonic account)))) (\<lambda>entropy.
          Inr (Some entropy,
               if truthy_string (path account) then path account else Some defaultPath))
      else Inr (None, path account))"

text \<open>Lines 226 to 232.\<close>

definition chooseSalt :: "'r prims \<Rightarrow> EncryptOptions \<Rightarrow> 'r \<Rightarrow> error + (bytes \<times> 'r)" where
  "chooseSalt P options rng =
     (if truthy_bytes (opt_salt options)
      then bindE (arrayify (the (opt_salt options))) (\<lambda>salt. Inr (salt, rng))
      else Inr (randomBytes P 32 rng))"

text \<open>Lines 234 to 241.\<close>

definition chooseIv :: "'r prims \<Rightarrow> EncryptOptions \<Rightarrow> 'r \<Rightarrow> error + (bytes \<times> 'r)" where
  "chooseIv P options rng =
     (if truthy_bytes (opt_iv options)
      then bindE (arrayify (the (opt_iv options))) (\<lambda>iv.
             if length iv \<noteq> 16 then Inl InvalidIv else Inr (iv, rng))
      else Inr (randomBytes P 16 rng))"

text \<open>Lines 243 to 250.\<close>

definition chooseUuid :: "'r prims \<Rightarrow> EncryptOptions \<Rightarrow> 'r \<Rightarrow> error + (bytes \<times> 'r)" where
  "chooseUuid P options rng =
     (if truthy_string (opt_uuid options)
      then bindE (arrayify (HexString (the (opt_uuid options)))) (\<lambda>uuidRandom.
             if length uuidRandom \<noteq> 16 then Inl InvalidUuid else Inr (uuidRandom, rng))
      else Inr (randomBytes P 16 rng))"

text \<open>Lines 252 to 258: \<^verbatim>\<open>1 << 17\<close>, 8 and 1 unless overridden by a truthy value.\<close>

definition chooseScrypt :: "EncryptOptions \<Rightarrow> int \<times> int \<times> int" where
  "chooseScrypt options =
     (case opt_scrypt options of
        None \<Rightarrow> (131072, 8, 1)
      | Some so \<Rightarrow>
          (if truthy_int (opt_N so) then the (opt_N so) else 131072,
           if truthy_int (opt_r so) then the (opt_r so) else 8,
           if truthy_int (opt_p so) then the (opt_p so) else 1))"

definition prepare ::
  "'r prims \<Rightarrow> 'a ExternallyOwnedAccount_scheme \<Rightarrow> EncryptOptions \<Rightarrow> 'r \<Rightarrow> error + 'r prepared" where
  "prepare P account options rng =
     bindE (arrayify (HexString (privateKey account))) (\<lambda>privKey.
     bindE (chooseEntropy P account) (\<lambda>(entropy, pth).
     let client = (if truthy_string (opt_client options) then the (opt_client options)
                   else ''ethers.js'') in
     bindE (chooseSalt P options rng) (\<lambda>(salt, rng1).
     bindE (chooseIv P options rng1) (\<lambda>(iv, rng2).
     bindE (chooseUuid P options rng2) (\<lambda>(uuidRandom, rng3).
     (case chooseScrypt options of
        (N, r, p) \<Rightarrow>
          Inr \<lparr>p_privateKey = privKey, p_entropy = entropy, p_path = pth, p_client = client,
               p_salt = salt, p_iv = iv, p_uuidRandom = uuidRandom,
               p_N = N, p_r = r, p_p = p, p_rng = rng3\<rparr>))))))"

text \<open>Lines 310 to 317: the time stamp of \<^verbatim>\<open>gethFilename\<close>.\<close>

definition timestamp :: "utc_time \<Rightarrow> string" where
  "timestamp now =
     dec_nat (UTCFullYear now) @ ''-'' @ zpad (UTCMonth now + 1) 2 @ ''-'' @
     zpad (UTCDate now) 2 @ ''T'' @ zpad (UTCHours now) 2 @ ''-'' @
     zpad (UTCMinutes now) 2 @ ''-'' @ zpad (UTCSeconds now) 2 @ ''.0Z''"

text \<open>Lines 282 to 302: the Web3 secret-storage document.\<close>

definition web3Data ::
  "'r prims \<Rightarrow> 'a ExternallyOwnedAccount_scheme \<Rightarrow> 'r prepared \<Rightarrow> bytes \<Rightarrow> bytes
     \<Rightarrow> (string \<times> json) list" where
  "web3Data P account pr ciphertext mac =
     [(''address'', JStr (toLowerCase (drop 2 (address account)))),
      (''id'', JStr (uuid_v4 P (p_uuidRandom pr))),
      (''version'', JNum 3),
      (''Crypto'', JObj
         [(''cipher'', JStr ''aes-128-ctr''),
          (''cipherparams'', JObj [(''iv'', JStr (drop 2 (hexlify (p_iv pr))))]),
          (''ciphertext'', JStr (drop 2 (hexlify ciphertext))),
          (''kdf'', JStr ''scrypt''),
          (''kdfparams'', JObj
             [(''salt'', JStr (drop 2 (hexlify (p_salt pr)))),
              (''n'', JNum (p_N pr)),
              (''dklen'', JNum 32),
              (''p'', JNum (p_p pr)),
              (''r'', JNum (p_r pr))]),
          (''mac'', JStr (drop 2 (hexlify mac)))])]"

text \<open>
  Lines 305 to 326: the section \<^verbatim>\<open>x-ethers\<close>, written when there is entropy. A
  member whose value is \<^verbatim>\<open>undefined\<close> is left out by \<^verbatim>\<open>JSON.stringify\<close>.
\<close>

definition xEthers ::
  "'r prims \<Rightarrow> 'a ExternallyOwnedAccount_scheme \<Rightarrow> 'r prepared \<Rightarrow> bytes \<Rightarrow> bytes
     \<Rightarrow> utc_time \<Rightarrow> error + (string \<times> json) list" where
  "xEthers P account pr mnemonicKey entropy now =
     (let mnemonicIv = fst (randomBytes P 16 (p_rng pr)) in
      bindE (orThrow (aes_ctr P mnemonicKey mnemonicIv)) (\<lambda>mnemonicAesCtr.
        let mnemonicCiphertext = ctr_encrypt mnemonicAesCtr entropy in
        Inr ([(''client'', JStr (p_client pr)),
             (''gethFilename'',
                JStr (''UTC--'' @ timestamp now @ ''--'' @ toLowerCase (drop 2 (address account)))),
             (''mnemonicCounter'', JStr (drop 2 (hexlify mnemonicIv))),
              (''mnemonicCiphertext'', JStr (drop 2 (hexlify mnemonicCiphertext)))]
             @ (case p_path pr of None \<Rightarrow> [] | Some pth \<Rightarrow> [(''path'', JStr pth)])
             @ [(''version'', JStr ''0.1'')])))"

text \<open>
  The continuation of the scrypt promise (lines 263 to 329) up to
  \<^verbatim>\<open>JSON.stringify\<close>: the object \<^verbatim>\<open>data\<close>.
\<close>

definition encryptWithKey ::
  "'r prims \<Rightarrow> 'a ExternallyOwnedAccount_scheme \<Rightarrow> 'r prepared \<Rightarrow> utc_time \<Rightarrow> bytes
     \<Rightarrow> error + json" where
  "encryptWithKey P account pr now key =
     (let derivedKey = slice_list 0 16 key;
          macPrefix = slice_list 16 32 key;
          mnemonicKey = slice_list 32 64 key in
      bindE (orThrow (aes_ctr P derivedKey (p_iv pr))) (\<lambda>aesCtr.
        let ciphertext = ctr_encrypt aesCtr (p_privateKey pr);
            mac = keccak256 P (macPrefix @ ciphertext);
            data = web3Data P account pr ciphertext mac in
        (case p_entropy pr of
           None \<Rightarrow> Inr (JObj data)
         | Some entropy \<Rightarrow>
             bindE (xEthers P account pr mnemonicKey entropy now) (\<lambda>x.
               Inr (JObj (data @ [(''x-ethers'', JObj x)]))))))"

text \<open>
  \<^verbatim>\<open>encrypt\<close> up to \<^verbatim>\<open>JSON.stringify\<close>: the log of KDF invocations and the object
  \<^verbatim>\<open>data\<close> or the error. The random source and the clock are arguments.
\<close>

definition encryptData ::
  "'r prims \<Rightarrow> 'a ExternallyOwnedAccount_scheme \<Rightarrow> password \<Rightarrow> EncryptOptions option
     \<Rightarrow> 'r \<Rightarrow> utc_time \<Rightarrow> kdf_call list \<times> (error + json)" where
  "encryptData P account pw options rng now =
     (case validateAccount P account of
        Inl e \<Rightarrow> ([], Inl e)
      | Inr u \<Rightarrow>
          (case prepare P account (case options of None \<Rightarrow> no_options | Some opts \<Rightarrow> opts) rng of
             Inl e \<Rightarrow> ([], Inl e)
           | Inr pr \<Rightarrow>
               (let passwordBytes = getPassword pw in
                ([ScryptCall passwordBytes (p_salt pr) (p_N pr) (p_r pr) (p_p pr) 64],
                 bindE (orThrow (scrypt P passwordBytes (p_salt pr) (p_N pr) (p_r pr) (p_p pr) 64))
                   (encryptWithKey P account pr now)))))"

definition encrypt ::
  "'r prims \<Rightarrow> 'a ExternallyOwnedAccount_scheme \<Rightarrow> password \<Rightarrow> EncryptOptions option
     \<Rightarrow> 'r \<Rightarrow> utc_time \<Rightarrow> kdf_call list \<times> (error + string)" where
  "encrypt P account pw options rng now =
     (case encryptData P account pw options rng now of
        (calls, Inl e) \<Rightarrow> (calls, Inl e)
      | (calls, Inr data) \<Rightarrow> (calls, Inr (JSON_stringify P data)))"

subsection \<open>An instance of the collaborators\<close>

text \<open>
  The theorems below hold for every choice of the collaborators. To run the model on
  concrete documents, this section gives one small instance: a writer and a reader of
  JSON text, and stand-ins of the cryptographic functions that have the shapes of the
  real ones (lengths, failure on a key or counter of the wrong size, decryption
  inverting encryption) and none of their strength.
\<close>

definition upper_char :: "char \<Rightarrow> char" where
  "upper_char c =
     (case map_of (zip ''abcdefghijklmnopqrstuvwxyz'' ''ABCDEFGHIJKLMNOPQRSTUVWXYZ'') c of
        None \<Rightarrow> c
      | Some d \<Rightarrow> d)"

text \<open>JSON text of a value: strings with the two-character escapes of quote and backslash.\<close>

fun escape_string :: "string \<Rightarrow> string" where
  "escape_string [] = []"
| "escape_string (c # cs) =
     (if c = CHR 0x22 \<or> c = CHR 0x5C then CHR 0x5C # c # escape_string cs
      else c # escape_string cs)"

definition quote :: "string \<Rightarrow> string" where
  "quote s = [CHR 0x22] @ escape_string s @ [CHR 0x22]"

fun stringify :: "json \<Rightarrow> string" where
  "stringify JNull = ''null''"
| "stringify (JBool b) = (if b then ''true'' else ''false'')"
| "stringify (JNum n) = dec_int n"
| "stringify (JStr s) = quote s"
| "stringify (JArr xs) = ''['' @ intercalate '','' (map stringify xs) @ '']''"
| "stringify (JObj kvs) =
     ''{'' @ intercalate '','' (map (\<lambda>kv. quote (fst kv) @ '':'' @ stringify (snd kv)) kvs) @ ''}''"

text \<open>
  A reader of JSON text by recursive descent; the first argument bounds the nesting
  and the number of members read. Numbers are integers.
\<close>

fun read_string :: "string \<Rightarrow> (string \<times> string) option" where
  "read_string [] = None"
| "read_string (c # cs) =
     (if c = CHR 0x22 then Some ([], cs)
      else if c = CHR 0x5C then
        (case cs of
           [] \<Rightarrow> None
         | d # ds \<Rightarrow> (case read_string ds of None \<Rightarrow> None | Some (s, r) \<Rightarrow> Some (d # s, r)))
      else (case read_string cs of None \<Rightarrow> None | Some (s, r) \<Rightarrow> Some (c # s, r)))"

definition read_number :: "string \<Rightarrow> (json \<times> string) option" where
  "read_number s =
     (let neg = (take 1 s = ''-'');
          t = (if neg then drop 1 s else s);
          ds = digits_prefix 10 t
      in if ds = [] then None
         else Some (JNum ((if neg then - 1 else 1) * int (digits_value 10 ds)),
                    drop (length ds) t))"

fun read_value :: "nat \<Rightarrow> string \<Rightarrow> (json \<times> string) option"
  and read_members :: "nat \<Rightarrow> string \<Rightarrow> ((string \<times> json) list \<times> string) option"
  and read_elements :: "nat \<Rightarrow> string \<Rightarrow> (json list \<times> string) option"
where
  "read_value 0 s = None"
| "read_value (Suc n) s =
     (if take 4 s = ''null'' then Some (JNull, drop 4 s)
      else if take 4 s = ''true'' then Some (JBool True, drop 4 s)
      else if take 5 s = ''false'' then Some (JBool False, drop 5 s)
      else if take 1 s = [CHR 0x22] then
        (case read_string (drop 1 s) of None \<Rightarrow> None | Some (t, r) \<Rightarrow> Some (JStr t, r))
      else if take 2 s = ''{}'' then Some (JObj [], drop 2 s)
      else if take 1 s = ''{'' then
        (case read_members n (drop 1 s) of None \<Rightarrow> None | Some (kvs, r) \<Rightarrow> Some (JObj kvs, r))
      else if take 2 s = ''[]'' then Some (JArr [], drop 2 s)
      else if take 1 s = ''['' then
        (case read_elements n (drop 1 s) of None \<Rightarrow> None | Some (xs, r) \<Rightarrow> Some (JArr xs, r))
      else read_number s)"
| "read_members 0 s = None"
| "read_members (Suc n) s =
     (if take 1 s = [CHR 0x22] then
        (case read_string (drop 1 s) of
           None \<Rightarrow> None
         | Some (k, r) \<Rightarrow>
             if take 1 r = '':'' then
               (case read_value n (drop 1 r) of
                  None \<Rightarrow> None
                | Some (v, r2) \<Rightarrow>
                    if take 1 r2 = '','' then
                      (case read_members n (drop 1 r2) of
                         None \<Rightarrow> None
                       | Some (kvs, r3) \<Rightarrow> Some ((k, v) # kvs, r3))
                    else if take 1 r2 = ''}'' then Some ([(k, v)], drop 1 r2)
                    else None)
             else None)
      else None)"
| "read_elements 0 s = None"
| "read_elements (Suc n) s =
     (case read_value n s of
        None \<Rightarrow> None
      | Some (v, r) \<Rightarrow>
          if take 1 r = '','' then
            (case read_elements n (drop 1 r) of
               None \<Rightarrow> None
             | Some (vs, r2) \<Rightarrow> Some (v # vs, r2))
          else if take 1 r = '']'' then Some ([v], drop 1 r)
          else None)"

definition parse_json :: "string \<Rightarrow> json option" where
  "parse_json s =
     (case read_value (length s + 1) s of
        Some (v, []) \<Rightarrow> Some v
      | _ \<Rightarrow> None)"

definition byte_sum :: "bytes \<Rightarrow> byte" where
  "byte_sum bs = foldr (+) bs 0"

text \<open>A stand-in of a hash: 32 bytes that depend on every byte and on the order.\<close>

definition digest :: "bytes \<Rightarrow> bytes" where
  "digest bs = map (\<lambda>i. word_of_nat i + foldr (\<lambda>b acc. b + 3 * acc + 1) bs 0) [0..<32]"

text \<open>A stand-in of a key-derivation function: as many bytes as asked for.\<close>

definition stretch :: "bytes \<Rightarrow> bytes \<Rightarrow> int \<Rightarrow> bytes" where
  "stretch pw salt len = map (\<lambda>i. word_of_nat i + byte_sum pw + byte_sum salt) [0..<nat len]"

text \<open>The powers of two below \<open>2 ^ 32\<close>, the values of N the stand-in of scrypt accepts.\<close>

definition power_of_two :: "int \<Rightarrow> bool" where
  "power_of_two N = (N \<in> set (map (\<lambda>k. 2 ^ k) [0..<32]))"

definition shift_cipher :: "bytes \<Rightarrow> bytes \<Rightarrow> ctr_cipher option" where
  "shift_cipher key counter =
     (if length key \<in> {16, 24, 32} \<and> length counter = 16
      then Some \<lparr>ctr_encrypt = map (\<lambda>b. b + (byte_sum key + byte_sum counter)),
                 ctr_decrypt = map (\<lambda>b. b - (byte_sum key + byte_sum counter))\<rparr>
      else None)"

definition upper_address :: "string \<Rightarrow> string option" where
  "upper_address s =
     (if length s = 42 \<and> take 2 s = ''0x'' \<and> hex_decode (drop 2 s) \<noteq> None
      then Some (''0x'' @ map upper_char (drop 2 s))
      else None)"

definition address_of_key :: "bytes \<Rightarrow> string option" where
  "address_of_key key =
     (if length key = 32 then upper_address (hexlify (take 20 (map (\<lambda>b. b + 1) key))) else None)"

definition phrase_of_entropy :: "bytes \<Rightarrow> string option" where
  "phrase_of_entropy e = (if length e = 16 then Some (map upper_char (drop 2 (hexlify e))) else None)"

definition entropy_of_phrase :: "string \<Rightarrow> bytes option" where
  "entropy_of_phrase m =
     (case hex_decode m of
        None \<Rightarrow> None
      | Some e \<Rightarrow> if length e = 16 \<and> phrase_of_entropy e = Some m then Some e else None)"

definition node_of_phrase :: "string \<Rightarrow> string \<Rightarrow> HDNode option" where
  "node_of_phrase m pth =
     (case entropy_of_phrase m of
        None \<Rightarrow> None
      | Some e \<Rightarrow>
          if take 1 pth = ''m'' then
            Some \<lparr>node_privateKey =
                    hexlify (map (\<lambda>i. word_of_nat i + byte_sum e + word_of_nat (length pth)) [0..<32]),
                  node_mnemonic = m, node_path = pth\<rparr>
          else None)"

definition seeded_bytes :: "nat \<Rightarrow> nat \<Rightarrow> bytes \<times> nat" where
  "seeded_bytes n seed = (map (\<lambda>i. word_of_nat (seed + i)) [0..<n], seed + n)"

definition demo :: "nat prims" where
  "demo =
     \<lparr>keccak256 = digest,
      scrypt = (\<lambda>pw salt N r p len.
         if power_of_two N \<and> 0 < r \<and> 0 < p then Some (stretch pw salt len) else None),
      pbkdf2 = (\<lambda>pw salt c len prf. if c = None then None else Some (stretch pw salt len)),
      aes_ctr = shift_cipher,
      computeAddress = address_of_key,
      getAddress = upper_address,
      entropyToMnemonic = phrase_of_entropy,
      mnemonicToEntropy = entropy_of_phrase,
      fromMnemonic_derivePath = node_of_phrase,
      uuid_v4 = (\<lambda>bs. drop 2 (hexlify bs)),
      JSON_parse = parse_json,
      JSON_stringify = stringify,
      randomBytes = seeded_bytes\<rparr>"

subsection \<open>Example accounts and documents\<close>

text \<open>
  Concrete inputs for the instance \<open>demo\<close>: two accounts, one of them with a mnemonic,
  the options that fix salt, IV and UUID, and keystore documents for the password
  \<^verbatim>\<open>foo\<close>.
\<close>

definition plain_account :: ExternallyOwnedAccount where
  "plain_account =
     \<lparr>address = ''0x0102030405060708090A0B0C0D0E0F1011121314'',
      privateKey = ''0x000102030405060708090a0b0c0d0e0f101112131415161718191a1b1c1d1e1f'',
      mnemonic = None, path = None\<rparr>"

definition hd_account :: ExternallyOwnedAccount where
  "hd_account =
     \<lparr>address = ''0x898A8B8C8D8E8F909192939495969798999A9B9C'',
      privateKey = ''0x88898a8b8c8d8e8f909192939495969798999a9b9c9d9e9fa0a1a2a3a4a5a6a7'',
      mnemonic = Some ''000102030405060708090A0B0C0D0E0F'', path = None\<rparr>"

definition fixed_options :: EncryptOptions where
  "fixed_options =
     \<lparr>opt_iv = Some (ByteArray (replicate 16 1)), opt_entropy = None, opt_client = None,
      opt_salt = Some (HexString ''0xabcd''),
      opt_uuid = Some ''0x000102030405060708090a0b0c0d0e0f'',
      opt_scrypt = Some \<lparr>opt_N = Some 1024, opt_r = Some 8, opt_p = Some 1\<rparr>\<rparr>"

definition some_time :: utc_time where
  "some_time = \<lparr>UTCFullYear = 2020, UTCMonth = 0, UTCDate = 5, UTCHours = 13,
                 UTCMinutes = 7, UTCSeconds = 9\<rparr>"

definition later_time :: utc_time where
  "later_time = \<lparr>UTCFullYear = 2020, UTCMonth = 0, UTCDate = 5, UTCHours = 13,
                  UTCMinutes = 7, UTCSeconds = 10\<rparr>"

text \<open>
  A scrypt keystore without mnemonic, in the layout \<^verbatim>\<open>encrypt\<close> writes, for a given
  address, cipher name and scrypt parameters. The salt is \<^verbatim>\<open>abcd\<close>; ciphertext and
  MAC are those of \<open>plain_account\<close> under the password \<^verbatim>\<open>foo\<close>.
\<close>

definition scrypt_document :: "string \<Rightarrow> string \<Rightarrow> int \<Rightarrow> int \<Rightarrow> int \<Rightarrow> int \<Rightarrow> json" where
  "scrypt_document addr cipher n dklen p r =
     JObj
       [(''address'', JStr addr),
        (''id'', JStr ''000102030405060708090a0b0c0d0e0f''),
        (''version'', JNum 3),
        (''Crypto'',
         JObj
           [(''cipher'', JStr cipher),
            (''cipherparams'', JObj [(''iv'', JStr ''01010101010101010101010101010101'')]),
            (''ciphertext'', JStr ''48494a4b4c4d4e4f505152535455565758595a5b5c5d5e5f6061626364656667''),
            (''kdf'', JStr ''scrypt''),
            (''kdfparams'',
             JObj [(''salt'', JStr ''abcd''), (''n'', JNum n), (''dklen'', JNum dklen),
                   (''p'', JNum p), (''r'', JNum r)]),
            (''mac'', JStr ''28292a2b2c2d2e2f303132333435363738393a3b3c3d3e3f4041424344454647'')])]"

text \<open>The keystore of \<open>plain_account\<close>, as \<^verbatim>\<open>encrypt\<close> writes it.\<close>

definition scrypt_keystore :: json where
  "scrypt_keystore =
     scrypt_document ''0102030405060708090a0b0c0d0e0f1011121314'' ''aes-128-ctr'' 1024 32 1 8"

text \<open>The same with another cipher name, and with the address of \<open>hd_account\<close>.\<close>

definition other_cipher_keystore :: json where
  "other_cipher_keystore =
     scrypt_document ''0102030405060708090a0b0c0d0e0f1011121314'' ''aes-256-ctr'' 1024 32 1 8"

definition wrong_address_keystore :: json where
  "wrong_address_keystore =
     scrypt_document ''898a8b8c8d8e8f909192939495969798999a9b9c'' ''aes-128-ctr'' 1024 32 1 8"

text \<open>
  Scrypt keystores with \<^verbatim>\<open>r\<close> 0, with \<^verbatim>\<open>n\<close> 1000, with \<^verbatim>\<open>dklen\<close> 16, and
  with \<^verbatim>\<open>n\<close> \<open>3 * 2 ^ 32\<close>.
\<close>

definition zero_r_keystore :: json where
  "zero_r_keystore =
     scrypt_document ''0102030405060708090a0b0c0d0e0f1011121314'' ''aes-128-ctr'' 1024 32 1 0"

definition odd_n_keystore :: json where
  "odd_n_keystore =
     scrypt_document ''0102030405060708090a0b0c0d0e0f1011121314'' ''aes-128-ctr'' 1000 32 1 8"

definition short_dklen_keystore :: json where
  "short_dklen_keystore =
     scrypt_document ''0102030405060708090a0b0c0d0e0f1011121314'' ''aes-128-ctr'' 1024 16 1 8"

definition wide_n_keystore :: json where
  "wide_n_keystore =
     scrypt_document ''0102030405060708090a0b0c0d0e0f1011121314'' ''aes-128-ctr''
       12884901888 32 1 8"

text \<open>
  The keystore of \<open>hd_account\<close> for the password \<^verbatim>\<open>foo\<close>, with the section
  \<^verbatim>\<open>x-ethers\<close>, for a given mnemonic counter, mnemonic ciphertext and time stamp.
\<close>

definition hd_document :: "string \<Rightarrow> string \<Rightarrow> string \<Rightarrow> json" where
  "hd_document counter mnemonicCiphertext stamp =
     JObj
       [(''address'', JStr ''898a8b8c8d8e8f909192939495969798999a9b9c''),
        (''id'', JStr ''000102030405060708090a0b0c0d0e0f''),
        (''version'', JNum 3),
        (''Crypto'',
         JObj
           [(''cipher'', JStr ''aes-128-ctr''),
            (''cipherparams'', JObj [(''iv'', JStr ''01010101010101010101010101010101'')]),
            (''ciphertext'', JStr ''d0d1d2d3d4d5d6d7d8d9dadbdcdddedfe0e1e2e3e4e5e6e7e8e9eaebecedeeef''),
            (''kdf'', JStr ''scrypt''),
            (''kdfparams'',
             JObj [(''salt'', JStr ''abcd''), (''n'', JNum 1024), (''dklen'', JNum 32),
                   (''p'', JNum 1), (''r'', JNum 8)]),
            (''mac'', JStr ''28292a2b2c2d2e2f303132333435363738393a3b3c3d3e3f4041424344454647'')]),
        (''x-ethers'',
         JObj
           [(''client'', JStr ''ethers.js''),
            (''gethFilename'',
             JStr (''UTC--'' @ stamp @ ''--898a8b8c8d8e8f909192939495969798999a9b9c'')),
            (''mnemonicCounter'', JStr counter),
            (''mnemonicCiphertext'', JStr mnemonicCiphertext),
            (''path'', JStr defaultPath),
            (''version'', JStr ''0.1'')])]"

text \<open>The document \<^verbatim>\<open>encrypt\<close> writes at \<open>some_time\<close> with the random source at 7.\<close>

definition hd_keystore :: json where
  "hd_keystore =
     hd_document ''0708090a0b0c0d0e0f10111213141516'' ''58595a5b5c5d5e5f6061626364656667''
       ''2020-01-05T13-07-09.0Z''"

text \<open>A keystore that derives its key with pbkdf2, under the lowercase key \<^verbatim>\<open>crypto\<close>.\<close>

definition pbkdf2_keystore :: json where
  "pbkdf2_keystore =
     JObj
       [(''address'', JStr ''0102030405060708090a0b0c0d0e0f1011121314''),
        (''id'', JStr ''000102030405060708090a0b0c0d0e0f''),
        (''version'', JNum 3),
        (''crypto'',
         JObj
           [(''cipher'', JStr ''aes-128-ctr''),
            (''cipherparams'', JObj [(''iv'', JStr ''01010101010101010101010101010101'')]),
            (''ciphertext'', JStr ''48494a4b4c4d4e4f505152535455565758595a5b5c5d5e5f6061626364656667''),
            (''kdf'', JStr ''pbkdf2''),
            (''kdfparams'',
             JObj [(''c'', JNum 262144), (''dklen'', JNum 32), (''prf'', JStr ''hmac-sha256''),
                   (''salt'', JStr ''abcd'')]),
            (''mac'', JStr ''28292a2b2c2d2e2f303132333435363738393a3b3c3d3e3f4041424344454647'')])]"

text \<open>The keys the stand-in KDF derives from the passwords \<^verbatim>\<open>foo\<close> and \<^verbatim>\<open>bar\<close>.\<close>

definition key_foo :: bytes where
  "key_foo = [0xbc, 0xbd, 0xbe, 0xbf, 0xc0, 0xc1, 0xc2, 0xc3, 0xc4, 0xc5, 0xc6, 0xc7, 0xc8, 0xc9, 0xca, 0xcb,
                0xcc, 0xcd, 0xce, 0xcf, 0xd0, 0xd1, 0xd2, 0xd3, 0xd4, 0xd5, 0xd6, 0xd7, 0xd8, 0xd9, 0xda, 0xdb,
                0xdc, 0xdd, 0xde, 0xdf, 0xe0, 0xe1, 0xe2, 0xe3, 0xe4, 0xe5, 0xe6, 0xe7, 0xe8, 0xe9, 0xea, 0xeb,
                0xec, 0xed, 0xee, 0xef, 0xf0, 0xf1, 0xf2, 0xf3, 0xf4, 0xf5, 0xf6, 0xf7, 0xf8, 0xf9, 0xfa, 0xfb]"

definition key_bar :: bytes where
  "key_bar = [0xad, 0xae, 0xaf, 0xb0, 0xb1, 0xb2, 0xb3, 0xb4, 0xb5, 0xb6, 0xb7, 0xb8, 0xb9, 0xba, 0xbb, 0xbc,
                0xbd, 0xbe, 0xbf, 0xc0, 0xc1, 0xc2, 0xc3, 0xc4, 0xc5, 0xc6, 0xc7, 0xc8, 0xc9, 0xca, 0xcb, 0xcc,
                0xcd, 0xce, 0xcf, 0xd0, 0xd1, 0xd2, 0xd3, 0xd4, 0xd5, 0xd6, 0xd7, 0xd8, 0xd9, 0xda, 0xdb, 0xdc,
                0xdd, 0xde, 0xdf, 0xe0, 0xe1, 0xe2, 0xe3, 0xe4, 0xe5, 0xe6, 0xe7, 0xe8, 0xe9, 0xea, 0xeb, 0xec]"

text \<open>Accounts that fail the validation of \<^verbatim>\<open>encrypt\<close>.\<close>

definition mismatched_account :: ExternallyOwnedAccount where
  "mismatched_account = plain_account\<lparr>address := ''0x898A8B8C8D8E8F909192939495969798999A9B9C''\<rparr>"

definition wrong_mnemonic_account :: ExternallyOwnedAccount where
  "wrong_mnemonic_account = plain_account\<lparr>mnemonic := Some ''000102030405060708090A0B0C0D0E0F''\<rparr>"

definition path_only_account :: ExternallyOwnedAccount where
  "path_only_account = plain_account\<lparr>path := Some ''m/0''\<rparr>"

text \<open>Options with a salt of 40 bytes and of none, and with an IV and a UUID of the wrong length.\<close>

definition long_salt_options :: EncryptOptions where
  "long_salt_options = fixed_options\<lparr>opt_salt := Some (ByteArray (replicate 40 7))\<rparr>"

definition empty_salt_options :: EncryptOptions where
  "empty_salt_options = fixed_options\<lparr>opt_salt := Some (HexString ''0x'')\<rparr>"

definition short_iv_options :: EncryptOptions where
  "short_iv_options = fixed_options\<lparr>opt_iv := Some (ByteArray (replicate 15 1))\<rparr>"

definition short_uuid_options :: EncryptOptions where
  "short_uuid_options = fixed_options\<lparr>opt_uuid := Some ''0x0102''\<rparr>"

text \<open>Auxiliary notions for the round trip of the example serialiser and parser.\<close>

definition digit_chars :: "string \<Rightarrow> bool" where
  "digit_chars s = (\<forall>c \<in> set s. \<exists>d < 10. hex_val c = Some d)"

definition member_text :: "string \<times> json \<Rightarrow> string" where
  "member_text kv = quote (fst kv) @ '':'' @ stringify (snd kv)"

definition reads_back :: "json \<Rightarrow> bool" where
  "reads_back d = (\<forall>n rest. length (stringify d) \<le> n \<longrightarrow> digits_prefix 10 rest = [] \<longrightarrow>
                     read_value n (stringify d @ rest) = Some (d, rest))"

text \<open>
  The account \<open>hd_account\<close> with a derivation path of its own, which the stand-in of
  the HD derivation maps to the same private key.
\<close>

definition derived_path :: string where
  "derived_path = ''m/44'' @ [CHR 0x27] @ ''/60'' @ [CHR 0x27] @ ''/0'' @ [CHR 0x27] @ ''/0/1''"

definition hd_path_account :: ExternallyOwnedAccount where
  "hd_path_account =
     \<lparr>address = ''0x898A8B8C8D8E8F909192939495969798999A9B9C'',
      privateKey = ''0x88898a8b8c8d8e8f909192939495969798999a9b9c9d9e9fa0a1a2a3a4a5a6a7'',
      mnemonic = Some ''000102030405060708090A0B0C0D0E0F'', path = Some derived_path\<rparr>"

section \<open>Basic facts\<close>

subsection \<open>Characters\<close>

lemma lower_char_literals:
  "lower_char CHR ''A'' = CHR ''a''" "lower_char CHR ''B'' = CHR ''b''" "lower_char CHR ''C'' = CHR ''c''"
  "lower_char CHR ''D'' = CHR ''d''" "lower_char CHR ''E'' = CHR ''e''" "lower_char CHR ''F'' = CHR ''f''"
  "lower_char CHR ''G'' = CHR ''g''" "lower_char CHR ''H'' = CHR ''h''" "lower_char CHR ''I'' = CHR ''i''"
  "lower_char CHR ''J'' = CHR ''j''" "lower_char CHR ''K'' = CHR ''k''" "lower_char CHR ''L'' = CHR ''l''"
  "lower_char CHR ''M'' = CHR ''m''" "lower_char CHR ''N'' = CHR ''n''" "lower_char CHR ''O'' = CHR ''o''"
  "lower_char CHR ''P'' = CHR ''p''" "lower_char CHR ''Q'' = CHR ''q''" "lower_char CHR ''R'' = CHR ''r''"
  "lower_char CHR ''S'' = CHR ''s''" "lower_char CHR ''T'' = CHR ''t''" "lower_char CHR ''U'' = CHR ''u''"
  "lower_char CHR ''V'' = CHR ''v''" "lower_char CHR ''W'' = CHR ''w''" "lower_char CHR ''X'' = CHR ''x''"
  "lower_char CHR ''Y'' = CHR ''y''" "lower_char CHR ''Z'' = CHR ''z''" "lower_char CHR ''a'' = CHR ''a''"
  "lower_char CHR ''b'' = CHR ''b''" "lower_char CHR ''c'' = CHR ''c''" "lower_char CHR ''d'' = CHR ''d''"
  "lower_char CHR ''e'' = CHR ''e''" "lower_char CHR ''f'' = CHR ''f''" "lower_char CHR ''g'' = CHR ''g''"
  "lower_char CHR ''h'' = CHR ''h''" "lower_char CHR ''i'' = CHR ''i''" "lower_char CHR ''j'' = CHR ''j''"
  "lower_char CHR ''k'' = CHR ''k''" "lower_char CHR ''l'' = CHR ''l''" "lower_char CHR ''m'' = CHR ''m''"
  "lower_char CHR ''n'' = CHR ''n''" "lower_char CHR ''o'' = CHR ''o''" "lower_char CHR ''p'' = CHR ''p''"
  "lower_char CHR ''q'' = CHR ''q''" "lower_char CHR ''r'' = CHR ''r''" "lower_char CHR ''s'' = CHR ''s''"
  "lower_char CHR ''t'' = CHR ''t''" "lower_char CHR ''u'' = CHR ''u''" "lower_char CHR ''v'' = CHR ''v''"
  "lower_char CHR ''w'' = CHR ''w''" "lower_char CHR ''x'' = CHR ''x''" "lower_char CHR ''y'' = CHR ''y''"
  "lower_char CHR ''z'' = CHR ''z''" "lower_char CHR ''0'' = CHR ''0''" "lower_char CHR ''1'' = CHR ''1''"
  "lower_char CHR ''2'' = CHR ''2''" "lower_char CHR ''3'' = CHR ''3''" "lower_char CHR ''4'' = CHR ''4''"
  "lower_char CHR ''5'' = CHR ''5''" "lower_char CHR ''6'' = CHR ''6''" "lower_char CHR ''7'' = CHR ''7''"
  "lower_char CHR ''8'' = CHR ''8''" "lower_char CHR ''9'' = CHR ''9''" "lower_char CHR ''/'' = CHR ''/''"
  "lower_char CHR ''-'' = CHR ''-''" "lower_char CHR ''.'' = CHR ''.''" "lower_char CHR ''_'' = CHR ''_''"
  "lower_char CHR '':'' = CHR '':''"
  by (simp_all add: lower_char_def)

lemma hex_val_literals:
  "hex_val CHR ''0'' = Some 0" "hex_val CHR ''1'' = Some 1" "hex_val CHR ''2'' = Some 2"
  "hex_val CHR ''3'' = Some 3" "hex_val CHR ''4'' = Some 4" "hex_val CHR ''5'' = Some 5"
  "hex_val CHR ''6'' = Some 6" "hex_val CHR ''7'' = Some 7" "hex_val CHR ''8'' = Some 8"
  "hex_val CHR ''9'' = Some 9" "hex_val CHR ''a'' = Some 10" "hex_val CHR ''b'' = Some 11"
  "hex_val CHR ''c'' = Some 12" "hex_val CHR ''d'' = Some 13" "hex_val CHR ''e'' = Some 14"
  "hex_val CHR ''f'' = Some 15" "hex_val CHR ''A'' = Some 10" "hex_val CHR ''B'' = Some 11"
  "hex_val CHR ''C'' = Some 12" "hex_val CHR ''D'' = Some 13" "hex_val CHR ''E'' = Some 14"
  "hex_val CHR ''F'' = Some 15"
  by (simp_all add: hex_val_def)

lemma upper_char_literals:
  "upper_char CHR ''a'' = CHR ''A''" "upper_char CHR ''b'' = CHR ''B''" "upper_char CHR ''c'' = CHR ''C''"
  "upper_char CHR ''d'' = CHR ''D''" "upper_char CHR ''e'' = CHR ''E''" "upper_char CHR ''f'' = CHR ''F''"
  "upper_char CHR ''0'' = CHR ''0''" "upper_char CHR ''1'' = CHR ''1''" "upper_char CHR ''2'' = CHR ''2''"
  "upper_char CHR ''3'' = CHR ''3''" "upper_char CHR ''4'' = CHR ''4''" "upper_char CHR ''5'' = CHR ''5''"
  "upper_char CHR ''6'' = CHR ''6''" "upper_char CHR ''7'' = CHR ''7''" "upper_char CHR ''8'' = CHR ''8''"
  "upper_char CHR ''9'' = CHR ''9''" "upper_char CHR ''A'' = CHR ''A''" "upper_char CHR ''B'' = CHR ''B''"
  "upper_char CHR ''C'' = CHR ''C''" "upper_char CHR ''D'' = CHR ''D''" "upper_char CHR ''E'' = CHR ''E''"
  "upper_char CHR ''F'' = CHR ''F''"
  by (simp_all add: upper_char_def)
lemma bindE_simps [simp]: "bindE (Inl e) f = Inl e" "bindE (Inr x) f = f x"
  by (simp_all add: bindE_def)

lemma orThrow_simps [simp]: "orThrow None = Inl CollaboratorError" "orThrow (Some x) = Inr x"
  by (simp_all add: orThrow_def)

lemma bindE_eq_Inl: "bindE m f = Inl e \<longleftrightarrow> m = Inl e \<or> (\<exists>x. m = Inr x \<and> f x = Inl e)"
  by (cases m) simp_all

lemma lookup_ci_error: "lookup_ci seg kvs = Inl e \<Longrightarrow> e = AmbiguousKey"
  by (auto simp: lookup_ci_def split: list.splits)

lemma walk_error: "walk cur segs = Inl e \<Longrightarrow> e = AmbiguousKey"
  by (induction cur segs rule: walk.induct)
     (auto split: sum.splits option.splits dest: lookup_ci_error)

lemma searchPath_error: "searchPath object p = Inl e \<Longrightarrow> e = AmbiguousKey"
  unfolding searchPath_def by (rule walk_error)

lemma looseArrayify_error: "looseArrayify v = Inl e \<Longrightarrow> e = InvalidHex"
  by (cases v rule: looseArrayify.cases) (auto split: option.splits)

lemma orThrow_error: "orThrow m = Inl e \<Longrightarrow> e = CollaboratorError"
  by (cases m) simp_all

lemma decryptCipher_error:
  "decryptCipher P data key ct = Inl e \<Longrightarrow> e \<in> {AmbiguousKey, InvalidHex, CollaboratorError}"
  by (auto simp: decryptCipher_def bindE_eq_Inl split: if_splits
           dest: searchPath_error looseArrayify_error orThrow_error)

lemma call_toLowerCase_error: "call_toLowerCase v = Inl e \<Longrightarrow> e = TypeError"
  by (cases v rule: call_toLowerCase.cases) auto

lemma data_address_error: "data_address d = Inl e \<Longrightarrow> e = TypeError"
  by (cases d) auto

lemma checkAddress_error:
  "checkAddress P data addr = Inl e \<Longrightarrow> e \<in> {TypeError, CollaboratorError, AddressMismatch}"
  by (auto simp: checkAddress_def bindE_eq_Inl Let_def split: if_splits
           dest: data_address_error call_toLowerCase_error orThrow_error)

lemma derive_error: "derive P m v = Inl e \<Longrightarrow> e = CollaboratorError"
  by (cases v) (auto dest: orThrow_error)

lemma getMnemonic_error:
  "getMnemonic P data mk acct = Inl e \<Longrightarrow>
     e \<in> {AmbiguousKey, InvalidHex, CollaboratorError, MnemonicMismatch}"
  unfolding getMnemonic_def Let_def
  by (auto simp: bindE_eq_Inl split: if_splits
           dest: searchPath_error looseArrayify_error orThrow_error derive_error)

lemma getAccount_InvalidPassword:
  "getAccount P data key = Inl InvalidPassword \<longleftrightarrow>
     recoverPrivateKey P data key = Inl InvalidPassword"
  unfolding getAccount_def Let_def
  by (auto simp: bindE_eq_Inl split: if_splits
           dest: searchPath_error orThrow_error checkAddress_error getMnemonic_error)

lemma recoverPrivateKey_mac:
  assumes "searchPath data ''crypto/ciphertext'' = Inr v"
      and "looseArrayify v = Inr ciphertext"
      and "searchPath data ''crypto/mac'' = Inr (Some (JStr mac))"
  shows "recoverPrivateKey P data key =
           (if drop 2 (hexlify (keccak256 P (slice_list 16 32 key @ ciphertext))) \<noteq> toLowerCase mac
            then Inl InvalidPassword
            else bindE (decryptCipher P data (slice_list 0 16 key) ciphertext)
                   (\<lambda>privKey. case privKey of None \<Rightarrow> Inl UnsupportedCipher | Some pk \<Rightarrow> Inr pk))"
  using assms by (simp add: recoverPrivateKey_def computeMAC_def)

lemma decryptData_key:
  "deriveKey P data (getPassword pw) = (calls, Inr key) \<Longrightarrow>
     decryptData P data pw = (calls, getAccount P data key)"
  by (simp add: decryptData_def)

subsection \<open>Hexadecimal text\<close>

lemma hex_digit_table:
  "\<forall>n \<in> set [0..<16]. hex_val (hex_digit n) = Some n \<and> lower_char (hex_digit n) = hex_digit n
       \<and> hex_digit n \<noteq> CHR ''x''"
  by code_simp

lemma hex_digit_facts:
  assumes "n < 16"
  shows "hex_val (hex_digit n) = Some n" and "lower_char (hex_digit n) = hex_digit n"
    and "hex_digit n \<noteq> CHR ''x''"
  using hex_digit_table assms by auto

lemma hex_digit_mod: "hex_digit (n mod 16) = hex_digit n"
  by (simp add: hex_digit_def)

lemma byte_nibbles: "word_of_nat (16 * (unat b div 16) + unat b mod 16) = (b :: byte)"
  by simp

lemma unat_byte_div: "unat (b :: byte) div 16 < 16"
proof -
  have "unat b < 2 ^ 8" using unsigned_less [of b] by simp
  then show ?thesis by simp
qed

lemma hex_pairs_hex_of_byte:
  "hex_pairs (hex_of_byte b @ rest) = map_option ((#) b) (hex_pairs rest)"
  by (cases "hex_pairs rest")
     (simp_all add: hex_of_byte_def hex_digit_facts unat_byte_div byte_nibbles)

lemma hex_pairs_concat: "hex_pairs (concat (map hex_of_byte bs)) = Some bs"
  by (induction bs) (simp_all add: hex_pairs_hex_of_byte)

lemma length_hex_digits: "length (concat (map hex_of_byte bs)) = 2 * length bs"
  by (induction bs) (simp_all add: hex_of_byte_def)

lemma hex_decode_digits: "hex_decode (concat (map hex_of_byte bs)) = Some bs"
  by (simp add: hex_decode_def length_hex_digits hex_pairs_concat)

lemma drop_hexlify: "drop 2 (hexlify bs) = concat (map hex_of_byte bs)"
  by (simp add: hexlify_def)

lemma take_hexlify: "take 2 (hexlify bs) = ''0x''"
  by (simp add: hexlify_def)

lemma arrayify_hexlify: "arrayify (HexString (hexlify bs)) = Inr bs"
  by (simp add: take_hexlify drop_hexlify hex_pairs_concat)

lemma hex_pairs_odd: "odd (length s) \<Longrightarrow> hex_pairs s = None"
  by (induction s rule: hex_pairs.induct) (simp_all split: option.splits)

lemma arrayify_odd_length:
  assumes "odd (length s)"
  shows "arrayify (HexString s) = Inl InvalidHex"
proof (cases "take 2 s = ''0x''")
  case True
  then have "length (take 2 s) = 2" by simp
  then have "2 \<le> length s" by simp
  with assms have "odd (length (drop 2 s))" by simp
  then show ?thesis by (simp add: hex_pairs_odd)
next
  case False
  then show ?thesis by simp
qed

lemma digits_no_prefix: "take 2 (concat (map hex_of_byte bs)) \<noteq> ''0x''"
  by (cases bs) (simp_all add: hex_of_byte_def hex_digit_facts)

lemma looseArrayify_hexlify: "looseArrayify (Some (JStr (drop 2 (hexlify bs)))) = Inr bs"
  by (simp add: drop_hexlify digits_no_prefix hex_decode_digits)

lemma toLowerCase_hexlify: "toLowerCase (drop 2 (hexlify bs)) = drop 2 (hexlify bs)"
  unfolding drop_hexlify toLowerCase_def
  by (induction bs) (simp_all add: hex_of_byte_def hex_digit_facts unat_byte_div)

subsection \<open>Successful results of decrypt\<close>

lemma bindE_eq_Inr: "bindE m f = Inr y \<longleftrightarrow> (\<exists>x. m = Inr x \<and> f x = Inr y)"
  by (cases m) simp_all

lemma orThrow_eq_Inr: "orThrow m = Inr x \<longleftrightarrow> m = Some x"
  by (cases m) simp_all

lemma getMnemonic_fields:
  "getMnemonic P data mk acct = Inr account \<Longrightarrow>
     address account = address acct \<and> privateKey account = privateKey acct"
  unfolding getMnemonic_def Let_def
  by (auto simp: bindE_eq_Inr split: if_splits)

lemma getAccount_Inr:
  assumes "getAccount P data key = Inr account"
  shows "\<exists>pk. recoverPrivateKey P data key = Inr pk
            \<and> computeAddress P pk = Some (address account)
            \<and> privateKey account = hexlify pk"
  using assms unfolding getAccount_def Let_def
  by (auto simp: bindE_eq_Inr orThrow_eq_Inr split: if_splits dest!: getMnemonic_fields)

lemma computeAddressOfKey_hexlify:
  "computeAddressOfKey P (hexlify pk) = orThrow (computeAddress P pk)"
  by (simp add: computeAddressOfKey_def take_hexlify drop_hexlify hex_pairs_concat)

lemma decryptData_Inr:
  "snd (decryptData P data pw) = Inr account \<Longrightarrow>
     \<exists>key. getAccount P data key = Inr account"
  unfolding decryptData_def
  by (auto simp: bindE_eq_Inr split: prod.splits)

lemma checkAddress_string:
  assumes "data_address data = Inr (Some (JStr a))" and "a \<noteq> []"
      and "getAddress P (if take 2 (toLowerCase a) \<noteq> ''0x'' then ''0x'' @ toLowerCase a
                         else toLowerCase a) = Some c"
  shows "checkAddress P data addr = (if c \<noteq> addr then Inl AddressMismatch else Inr ())"
  using assms by (simp add: checkAddress_def Let_def)

lemma decryptCipher_aes:
  assumes "searchPath data ''crypto/cipher'' = Inr (Some (JStr ''aes-128-ctr''))"
      and "searchPath data ''crypto/cipherparams/iv'' = Inr v"
      and "looseArrayify v = Inr iv"
  shows "decryptCipher P data key ct =
           (case map_option (\<lambda>c. ctr_decrypt c ct) (aes_ctr P key iv) of
              None \<Rightarrow> Inl CollaboratorError
            | Some x \<Rightarrow> Inr (Some x))"
  using assms by (cases "aes_ctr P key iv") (simp_all add: decryptCipher_def)

subsection \<open>The stages of encrypt\<close>

lemma fst_encrypt: "fst (encrypt P account pw options rng now) = fst (encryptData P account pw options rng now)"
  by (auto simp: encrypt_def split: prod.splits sum.splits)

lemma encrypt_error:
  "encryptData P account pw options rng now = (calls, Inl e) \<Longrightarrow>
     encrypt P account pw options rng now = (calls, Inl e)"
  by (simp add: encrypt_def)

lemma encryptData_prepared:
  assumes "validateAccount P account = Inr ()"
  shows "encryptData P account pw (Some options) rng now =
           (case prepare P account options rng of
              Inl e \<Rightarrow> ([], Inl e)
            | Inr pr \<Rightarrow>
                ([ScryptCall (getPassword pw) (p_salt pr) (p_N pr) (p_r pr) (p_p pr) 64],
                 bindE (orThrow (scrypt P (getPassword pw) (p_salt pr) (p_N pr) (p_r pr) (p_p pr) 64))
                   (encryptWithKey P account pr now)))"
  using assms by (simp add: encryptData_def Let_def split: sum.splits)

lemma chooseEntropy_None:
  "\<not> truthy_string (mnemonic account) \<Longrightarrow> chooseEntropy P account = Inr (None, path account)"
  by (simp add: chooseEntropy_def)

lemma prepare_overrides:
  assumes "truthy_bytes (opt_salt options)" and "truthy_bytes (opt_iv options)"
      and "truthy_string (opt_uuid options)"
  shows "prepare P account options rng2 =
           map_sum id (\<lambda>pr. pr\<lparr>p_rng := rng2\<rparr>) (prepare P account options rng1)"
  using assms
  by (auto simp: prepare_def chooseSalt_def chooseIv_def chooseUuid_def Let_def bindE_def
           split: sum.splits prod.splits)

lemma prepare_rng:
  assumes "truthy_bytes (opt_salt options)" and "truthy_bytes (opt_iv options)"
      and "truthy_string (opt_uuid options)"
      and "prepare P account options rng = Inr pr"
  shows "p_rng pr = rng"
  using assms
  by (auto simp: prepare_def chooseSalt_def chooseIv_def chooseUuid_def Let_def bindE_def
           split: sum.splits prod.splits if_splits)

lemma prepare_entropy:
  assumes "\<not> truthy_string (mnemonic account)" and "prepare P account options rng = Inr pr"
  shows "p_entropy pr = None"
  using assms
  by (auto simp: prepare_def chooseEntropy_None Let_def bindE_def
           split: sum.splits prod.splits)

lemma web3Data_rng: "web3Data P account (pr\<lparr>p_rng := rng2\<rparr>) ct mac = web3Data P account pr ct mac"
  by (simp add: web3Data_def)

lemma xEthers_env:
  assumes "fst (randomBytes P 16 (p_rng pr)) = fst (randomBytes P 16 rng2)"
      and "timestamp now1 = timestamp now2"
  shows "xEthers P account (pr\<lparr>p_rng := rng2\<rparr>) mk ent now2 = xEthers P account pr mk ent now1"
  using assms by (simp add: xEthers_def Let_def)

lemma encryptWithKey_env:
  assumes "p_entropy pr = None
           \<or> (fst (randomBytes P 16 (p_rng pr)) = fst (randomBytes P 16 rng2)
              \<and> timestamp now1 = timestamp now2)"
  shows "encryptWithKey P account (pr\<lparr>p_rng := rng2\<rparr>) now2 key = encryptWithKey P account pr now1 key"
proof (cases "p_entropy pr")
  case None
  then show ?thesis by (simp add: encryptWithKey_def web3Data_rng Let_def)
next
  case (Some ent)
  with assms have "xEthers P account (pr\<lparr>p_rng := rng2\<rparr>) (slice_list 32 64 key) ent now2 =
      xEthers P account pr (slice_list 32 64 key) ent now1"
    by (intro xEthers_env) simp_all
  with Some show ?thesis by (simp add: encryptWithKey_def web3Data_rng Let_def)
qed

subsection \<open>The example parser reads back what the example serialiser writes\<close>


lemma read_string_escape:
  "read_string (escape_string s @ CHR 0x22 # rest) = Some (s, rest)"
  by (induction s) simp_all

lemma read_string_quote: "read_string (drop 1 (quote s @ rest)) = Some (s, rest)"
  by (simp add: quote_def read_string_escape)

lemma decimal_digit_table:
  "\<forall>n \<in> set [0..<10]. hex_val (hex_digit n) = Some n
      \<and> hex_digit n \<notin> set [CHR ''-'', CHR ''n'', CHR ''t'', CHR ''f'', CHR 0x22, CHR ''{'', CHR ''['', CHR '']'', CHR ''}'']"
  by code_simp

lemma decimal_digit:
  assumes "n < 10"
  shows "hex_val (hex_digit n) = Some n"
    and "hex_digit n \<notin> set [CHR ''-'', CHR ''n'', CHR ''t'', CHR ''f'', CHR 0x22, CHR ''{'', CHR ''['', CHR '']'', CHR ''}'']"
  using decimal_digit_table assms by auto

lemma digits_prefix_append:
  "digit_chars xs \<Longrightarrow> digits_prefix 10 rest = [] \<Longrightarrow>
     digits_prefix 10 (xs @ rest) = map (\<lambda>c. the (hex_val c)) xs"
  by (induction xs) (auto simp: digit_chars_def)

lemma digits_value_snoc: "digits_value r (ds @ [d]) = digits_value r ds * r + d"
  by (simp add: digits_value_def)

lemma dec_digits_facts:
  "0 \<le> i \<Longrightarrow> digit_chars (dec_digits i)
         \<and> digits_value 10 (map (\<lambda>c. the (hex_val c)) (dec_digits i)) = nat i
         \<and> dec_digits i \<noteq> []"
proof (induction i rule: dec_digits.induct)
  case (1 i)
  show ?case
  proof (cases "i < 10")
    case True
    with "1.prems" have "nat i < 10" by simp
    with True show ?thesis
      by (subst (1 2 3) dec_digits.simps) (simp add: digit_chars_def decimal_digit digits_value_def)
  next
    case False
    with "1.prems" have ih: "digit_chars (dec_digits (i div 10))"
        "digits_value 10 (map (\<lambda>c. the (hex_val c)) (dec_digits (i div 10))) = nat (i div 10)"
      using "1.IH" by simp_all
    have lt: "nat (i mod 10) < 10" by simp
    have "int (nat (i div 10) * 10 + nat (i mod 10)) = i"
      using "1.prems" by (simp add: pos_imp_zdiv_nonneg_iff)
    then have "nat (i div 10) * 10 + nat (i mod 10) = nat i"
      by (metis nat_int)
    with False ih lt show ?thesis
      by (subst (1 2 3) dec_digits.simps)
         (auto simp: digit_chars_def decimal_digit digits_value_snoc)
  qed
qed

lemma hex_val_marks:
  "hex_val CHR ''-'' = None" "hex_val CHR '','' = None" "hex_val CHR ''}'' = None"
  "hex_val CHR '']'' = None" "hex_val CHR ''n'' = None" "hex_val CHR ''t'' = None"
  "hex_val CHR 0x22 = None" "hex_val CHR ''{'' = None" "hex_val CHR ''['' = None"
  "hex_val CHR ''f'' = Some 15"
  by (simp_all add: hex_val_def)

lemma dec_digits_head:
  assumes "0 \<le> i"
  obtains c cs d where "dec_digits i = c # cs" and "hex_val c = Some d" and "d < 10"
proof -
  from dec_digits_facts [OF assms] obtain c cs where cs: "dec_digits i = c # cs"
    by (cases "dec_digits i") auto
  with dec_digits_facts [OF assms] obtain d where "hex_val c = Some d" "d < 10"
    by (auto simp: digit_chars_def)
  with cs show ?thesis by (rule that)
qed

lemma read_number_dec_int:
  assumes "digits_prefix 10 rest = []"
  shows "read_number (dec_int i @ rest) = Some (JNum i, rest)"
proof (cases "i < 0")
  case False
  then have i: "0 \<le> i" by simp
  from dec_digits_head [OF i] obtain c cs d
    where cs: "dec_digits i = c # cs" and d: "hex_val c = Some d" "d < 10" by blast
  then have "c \<noteq> CHR ''-''" by (auto simp: hex_val_marks)
  then have neg: "take 1 (dec_digits i @ rest) \<noteq> ''-''" by (simp add: cs)
  have ds: "digits_prefix 10 (dec_digits i @ rest) = map (\<lambda>c. the (hex_val c)) (dec_digits i)"
    using dec_digits_facts [OF i] assms by (simp add: digits_prefix_append)
  show ?thesis
    using False neg dec_digits_facts [OF i]
    by (simp add: read_number_def dec_int_def ds Let_def)
next
  case True
  then have i: "0 \<le> - i" by simp
  have ds: "digits_prefix 10 (dec_digits (- i) @ rest) =
      map (\<lambda>c. the (hex_val c)) (dec_digits (- i))"
    using dec_digits_facts [OF i] assms by (simp add: digits_prefix_append)
  show ?thesis
    using True dec_digits_facts [OF i]
    by (simp add: read_number_def dec_int_def ds Let_def)
qed

lemma dec_int_head:
  obtains c cs where "dec_int i = c # cs"
    and "c \<notin> set [CHR ''n'', CHR ''t'', CHR ''f'', CHR 0x22, CHR ''{'', CHR ''['', CHR '']'']"
proof (cases "i < 0")
  case True
  then have "dec_int i = CHR ''-'' # dec_digits (- i)" by (simp add: dec_int_def)
  then show ?thesis by (rule that) simp
next
  case False
  then have i: "0 \<le> i" by simp
  from dec_digits_head [OF i] obtain c cs d
    where cs: "dec_digits i = c # cs" and d: "hex_val c = Some d" "d < 10" by blast
  from d have "c \<notin> set [CHR ''n'', CHR ''t'', CHR ''f'', CHR 0x22, CHR ''{'', CHR ''['', CHR '']'']"
    by (auto simp: hex_val_marks)
  moreover from False cs have "dec_int i = c # cs" by (simp add: dec_int_def)
  ultimately show ?thesis by (rule that [rotated])
qed

lemma read_value_number:
  assumes "digits_prefix 10 rest = []"
  shows "read_value (Suc n) (dec_int i @ rest) = Some (JNum i, rest)"
proof -
  from dec_int_head [of i] obtain c cs where cs: "dec_int i = c # cs"
    and c: "c \<notin> set [CHR ''n'', CHR ''t'', CHR ''f'', CHR 0x22, CHR ''{'', CHR ''['', CHR '']'']"
    by blast
  have "read_value (Suc n) (dec_int i @ rest) = read_number (dec_int i @ rest)"
    using c by (simp add: cs)
  then show ?thesis by (simp add: read_number_dec_int [OF assms])
qed

lemma read_value_string: "read_value (Suc n) (quote s @ rest) = Some (JStr s, rest)"
  using read_string_quote [of s rest] by (simp add: quote_def)

lemma stringify_head: "\<exists>c cs. stringify d = c # cs \<and> c \<noteq> CHR '']''"
proof (cases d)
  case (JNum i)
  from dec_int_head [of i] obtain c cs where "dec_int i = c # cs"
    and "c \<notin> set [CHR ''n'', CHR ''t'', CHR ''f'', CHR 0x22, CHR ''{'', CHR ''['', CHR '']'']"
    by blast
  then show ?thesis using JNum by simp
next
  case (JBool b)
  then show ?thesis by (cases b) simp_all
qed (simp_all add: quote_def)

lemma length_quote: "2 \<le> length (quote s)"
  by (simp add: quote_def)

lemma read_members_text:
  assumes "\<And>kv. kv \<in> set kvs \<Longrightarrow> reads_back (snd kv)" and "kvs \<noteq> []"
      and "length (intercalate '','' (map member_text kvs)) \<le> n"
  shows "read_members n (intercalate '','' (map member_text kvs) @ ''}'' @ rest) = Some (kvs, rest)"
  using assms
proof (induction kvs arbitrary: n)
  case Nil
  then show ?case by simp
next
  case (Cons kv kvs)
  obtain k v where kv: "kv = (k, v)" by (cases kv)
  have rb: "reads_back v" using Cons.prems(1) [of kv] by (simp add: kv)
  show ?case
  proof (cases "kvs = []")
    case True
    have "length (intercalate '','' (map member_text (kv # kvs))) =
        length (quote k) + 1 + length (stringify v)"
      by (simp add: True kv member_text_def)
    with Cons.prems(3) length_quote [of k] obtain m
      where n: "n = Suc m" and m: "length (stringify v) \<le> m"
      by (cases n) simp_all
    have "read_value m (stringify v @ ''}'' @ rest) = Some (v, ''}'' @ rest)"
      using rb m by (simp add: reads_back_def hex_val_marks)
    then show ?thesis
      using read_string_quote [of k "'':'' @ stringify v @ ''}'' @ rest"]
      by (simp add: n True kv member_text_def quote_def)
  next
    case False
    then obtain kv' kvs' where tail: "kvs = kv' # kvs'" by (cases kvs) auto
    define tailtext where "tailtext = intercalate '','' (map member_text kvs)"
    have shape: "intercalate '','' (map member_text (kv # kvs)) =
        quote k @ '':'' @ stringify v @ '','' @ tailtext"
      by (simp add: tail kv member_text_def tailtext_def)
    with Cons.prems(3) length_quote [of k] obtain m
      where n: "n = Suc m" and m: "length (stringify v) \<le> m" and m': "length tailtext \<le> m"
      by (cases n) simp_all
    have v: "read_value m (stringify v @ '','' @ tailtext @ ''}'' @ rest) =
        Some (v, '','' @ tailtext @ ''}'' @ rest)"
      using rb m by (simp add: reads_back_def hex_val_marks)
    have rest: "read_members m (tailtext @ ''}'' @ rest) = Some (kvs, rest)"
      unfolding tailtext_def using Cons.IH [of m] Cons.prems(1) m' False by (simp add: tailtext_def)
    show ?thesis
      unfolding shape
      using read_string_quote [of k "'':'' @ stringify v @ '','' @ tailtext @ ''}'' @ rest"] v rest
      by (simp add: n quote_def kv)
  qed
qed

lemma read_elements_text:
  assumes "\<And>x. x \<in> set xs \<Longrightarrow> reads_back x" and "xs \<noteq> []"
      and "length (intercalate '','' (map stringify xs)) \<le> n"
  shows "read_elements (Suc n) (intercalate '','' (map stringify xs) @ '']'' @ rest) = Some (xs, rest)"
  using assms
proof (induction xs arbitrary: n)
  case Nil
  then show ?case by simp
next
  case (Cons x xs)
  have rb: "reads_back x" using Cons.prems(1) [of x] by simp
  show ?case
  proof (cases "xs = []")
    case True
    have "read_value n (stringify x @ '']'' @ rest) = Some (x, '']'' @ rest)"
      using rb Cons.prems(3) by (simp add: reads_back_def hex_val_marks True)
    then show ?thesis by (simp add: True)
  next
    case False
    then obtain x' xs' where tail: "xs = x' # xs'" by (cases xs) auto
    define tailtext where "tailtext = intercalate '','' (map stringify xs)"
    have shape: "intercalate '','' (map stringify (x # xs)) = stringify x @ '','' @ tailtext"
      by (simp add: tail tailtext_def)
    with Cons.prems(3) obtain m
      where n: "n = Suc m" and m: "length (stringify x) \<le> n" and m': "length tailtext \<le> m"
      by (cases n) simp_all
    have v: "read_value n (stringify x @ '','' @ tailtext @ '']'' @ rest) =
        Some (x, '','' @ tailtext @ '']'' @ rest)"
      using rb m by (simp add: reads_back_def hex_val_marks)
    have rest: "read_elements (Suc m) (tailtext @ '']'' @ rest) = Some (xs, rest)"
      unfolding tailtext_def using Cons.IH [of m] Cons.prems(1) m' False by (simp add: tailtext_def)
    show ?thesis
      unfolding shape using v rest by (simp add: n)
  qed
qed

lemma read_value_array:
  assumes "t = c # cs" and "c \<noteq> CHR '']''"
      and "read_elements m (t @ after) = Some (xs, rest)"
  shows "read_value (Suc m) (CHR ''['' # t @ after) = Some (JArr xs, rest)"
  using assms by simp

lemma read_value_object:
  assumes "t = CHR 0x22 # cs"
      and "read_members m (t @ after) = Some (kvs, rest)"
  shows "read_value (Suc m) (CHR ''{'' # t @ after) = Some (JObj kvs, rest)"
  using assms by simp

lemma reads_back_all: "reads_back d"
proof (induction d)
  case JNull
  show ?case unfolding reads_back_def
  proof (intro allI impI)
    fix n rest assume "length (stringify JNull) \<le> n"
    then obtain m where "n = Suc m" by (cases n) auto
    then show "read_value n (stringify JNull @ rest) = Some (JNull, rest)" by simp
  qed
next
  case (JBool b)
  show ?case unfolding reads_back_def
  proof (intro allI impI)
    fix n rest assume "length (stringify (JBool b)) \<le> n"
    then obtain m where "n = Suc m" by (cases n) (auto split: if_splits)
    then show "read_value n (stringify (JBool b) @ rest) = Some (JBool b, rest)" by simp
  qed
next
  case (JNum i)
  show ?case unfolding reads_back_def
  proof (intro allI impI)
    fix n rest assume len: "length (stringify (JNum i)) \<le> n" and r: "digits_prefix 10 rest = []"
    from dec_int_head [of i] obtain c cs where "dec_int i = c # cs" by blast
    with len obtain m where "n = Suc m" by (cases n) auto
    then show "read_value n (stringify (JNum i) @ rest) = Some (JNum i, rest)"
      by (simp only: stringify.simps read_value_number [OF r])
  qed
next
  case (JStr s)
  show ?case unfolding reads_back_def
  proof (intro allI impI)
    fix n rest assume "length (stringify (JStr s)) \<le> n"
    then obtain m where "n = Suc m" using length_quote [of s] by (cases n) auto
    then show "read_value n (stringify (JStr s) @ rest) = Some (JStr s, rest)"
      by (simp only: stringify.simps read_value_string)
  qed
next
  case (JArr xs)
  show ?case unfolding reads_back_def
  proof (intro allI impI)
    fix n rest assume len: "length (stringify (JArr xs)) \<le> n"
    then obtain m where n: "n = Suc m" by (cases n) auto
    show "read_value n (stringify (JArr xs) @ rest) = Some (JArr xs, rest)"
    proof (cases xs)
      case Nil
      then show ?thesis by (simp add: n)
    next
      case (Cons x xs')
      from len obtain k where m: "m = Suc k" and k: "length (intercalate '','' (map stringify xs)) \<le> k"
        by (cases m) (auto simp: n)
      from stringify_head [of x] obtain c cs where c: "stringify x = c # cs" "c \<noteq> CHR '']''"
        by blast
      have hd: "intercalate '','' (map stringify xs) = c # tl (intercalate '','' (map stringify xs))"
        using c by (cases xs') (simp_all add: Cons)
      have "read_elements (Suc k) (intercalate '','' (map stringify xs) @ '']'' @ rest) = Some (xs, rest)"
        using JArr.IH k by (intro read_elements_text) (simp_all add: Cons)
      from read_value_array [OF hd c(2) this] show ?thesis
        by (simp add: n m)
    qed
  qed
next
  case (JObj kvs)
  have shape: "stringify (JObj kvs) = ''{'' @ intercalate '','' (map member_text kvs) @ ''}''"
    by (simp add: member_text_def [abs_def])
  show ?case unfolding reads_back_def
  proof (intro allI impI)
    fix n rest assume len: "length (stringify (JObj kvs)) \<le> n"
    then obtain m where n: "n = Suc m" by (cases n) auto
    show "read_value n (stringify (JObj kvs) @ rest) = Some (JObj kvs, rest)"
    proof (cases kvs)
      case Nil
      then show ?thesis by (simp add: n)
    next
      case (Cons kv kvs')
      have k: "length (intercalate '','' (map member_text kvs)) \<le> m"
        using len unfolding shape by (simp add: n)
      have ih: "\<And>kv. kv \<in> set kvs \<Longrightarrow> reads_back (snd kv)"
        using JObj.IH by (auto simp: snds_def intro: sndsp.intros)
      have hd: "intercalate '','' (map member_text kvs) =
          CHR 0x22 # tl (intercalate '','' (map member_text kvs))"
        by (cases kvs') (simp_all add: Cons member_text_def quote_def)
      have "read_members m (intercalate '','' (map member_text kvs) @ ''}'' @ rest) = Some (kvs, rest)"
        using ih k by (intro read_members_text) (simp_all add: Cons)
      from read_value_object [OF hd this] show ?thesis
        unfolding shape by (simp add: n)
    qed
  qed
qed

lemma parse_json_stringify: "parse_json (stringify d) = Some d"
proof -
  have "read_value (length (stringify d) + 1) (stringify d @ []) = Some (d, [])"
    using reads_back_all [of d] unfolding reads_back_def
    by (simp del: read_value.simps append_Nil2)
  then show ?thesis
    unfolding parse_json_def by (simp del: read_value.simps)
qed

section \<open>The model on the example documents\<close>

lemmas search_eval = searchPath_def toLowerCase_def lookup_ci_def lower_char_literals
lemmas hex_eval = hex_decode_def hex_val_literals

lemma demo_fields:
  "keccak256 demo = digest"
  "scrypt demo pw salt N r p len =
     (if power_of_two N \<and> 0 < r \<and> 0 < p then Some (stretch pw salt len) else None)"
  "pbkdf2 demo pw salt c len prf = (if c = None then None else Some (stretch pw salt len))"
  "aes_ctr demo = shift_cipher"
  "computeAddress demo = address_of_key"
  "getAddress demo = upper_address"
  "entropyToMnemonic demo = phrase_of_entropy"
  "mnemonicToEntropy demo = entropy_of_phrase"
  "fromMnemonic_derivePath demo = node_of_phrase"
  "uuid_v4 demo bs = drop 2 (hexlify bs)"
  "JSON_parse demo = parse_json"
  "JSON_stringify demo = stringify"
  "randomBytes demo = seeded_bytes"
  by (simp_all add: demo_def)

lemma power_of_two_1024: "power_of_two 1024"
  by code_simp

lemma toLowerCase_scrypt: "toLowerCase ''scrypt'' = ''scrypt''"
  by (simp add: toLowerCase_def lower_char_literals)

lemma toLowerCase_mac: "toLowerCase ''28292a2b2c2d2e2f303132333435363738393a3b3c3d3e3f4041424344454647'' = ''28292a2b2c2d2e2f303132333435363738393a3b3c3d3e3f4041424344454647''"
  by (simp add: toLowerCase_def lower_char_literals)

lemma stretch_foo: "stretch [102, 111, 111] [0xab, 0xcd] 64 = key_foo"
  unfolding key_foo_def by code_simp

lemma stretch_bar: "stretch [98, 97, 114] [0xab, 0xcd] 64 = key_bar"
  unfolding key_bar_def by code_simp

lemma scrypt_document_kdf:
  "searchPath (scrypt_document addr cipher n dklen p r) ''crypto/kdf'' = Inr (Some (JStr ''scrypt''))"
  by (simp add: scrypt_document_def search_eval)

lemma scrypt_document_cipher:
  "searchPath (scrypt_document addr cipher n dklen p r) ''crypto/cipher'' = Inr (Some (JStr cipher))"
  by (simp add: scrypt_document_def search_eval)

lemma scrypt_document_iv:
  "searchPath (scrypt_document addr cipher n dklen p r) ''crypto/cipherparams/iv'' =
     Inr (Some (JStr ''01010101010101010101010101010101''))"
  by (simp add: scrypt_document_def search_eval)

lemma scrypt_document_ciphertext:
  "searchPath (scrypt_document addr cipher n dklen p r) ''crypto/ciphertext'' =
     Inr (Some (JStr ''48494a4b4c4d4e4f505152535455565758595a5b5c5d5e5f6061626364656667''))"
  by (simp add: scrypt_document_def search_eval)

lemma scrypt_document_mac:
  "searchPath (scrypt_document addr cipher n dklen p r) ''crypto/mac'' =
     Inr (Some (JStr ''28292a2b2c2d2e2f303132333435363738393a3b3c3d3e3f4041424344454647''))"
  by (simp add: scrypt_document_def search_eval)

lemma scrypt_document_version:
  "searchPath (scrypt_document addr cipher n dklen p r) ''x-ethers/version'' = Inr None"
  by (simp add: scrypt_document_def search_eval)

lemma scrypt_document_address:
  "data_address (scrypt_document addr cipher n dklen p r) = Inr (Some (JStr addr))"
  by (simp add: scrypt_document_def)

lemma scrypt_document_params:
  "scryptParams (scrypt_document addr cipher n dklen p r) =
     (if n = 0 \<or> r = 0 \<or> p = 0 then Inl UnsupportedKdfParams
      else if not_power_of_two_check n then Inl UnsupportedKdfNValue
      else if dklen \<noteq> 32 then Inl UnsupportedDkLen
      else Inr ([0xab, 0xcd], n, r, p))"
  by (simp add: scryptParams_def scrypt_document_def search_eval hex_eval js_not_def)

lemma ciphertext_bytes:
  "looseArrayify (Some (JStr ''48494a4b4c4d4e4f505152535455565758595a5b5c5d5e5f6061626364656667'')) =
     Inr [0x48, 0x49, 0x4a, 0x4b, 0x4c, 0x4d, 0x4e, 0x4f, 0x50, 0x51, 0x52, 0x53, 0x54, 0x55, 0x56, 0x57,
          0x58, 0x59, 0x5a, 0x5b, 0x5c, 0x5d, 0x5e, 0x5f, 0x60, 0x61, 0x62, 0x63, 0x64, 0x65, 0x66, 0x67]"
  by (simp add: hex_eval)

lemma scrypt_document_key:
  "n \<noteq> 0 \<Longrightarrow> r \<noteq> 0 \<Longrightarrow> p \<noteq> 0 \<Longrightarrow> \<not> not_power_of_two_check n \<Longrightarrow>
   deriveKey P (scrypt_document addr cipher n 32 p r) pwb =
     ([ScryptCall pwb [0xab, 0xcd] n r p 64], orThrow (scrypt P pwb [0xab, 0xcd] n r p 64))"
  by (simp add: deriveKey_def scrypt_document_params scrypt_document_kdf toLowerCase_scrypt)

lemma check_1024: "\<not> not_power_of_two_check 1024"
  by (simp add: not_power_of_two_check_def round_double_def)

text \<open>
  Above \<open>2 ^ 53\<close> the difference \<^verbatim>\<open>N - 1\<close> is rounded: for \<open>2 ^ 53 + 4\<close> it is
  \<open>N\<close> again, and the test sees the low bits of \<open>N\<close>.
\<close>

lemma round_double_examples:
  "round_double 9007199254740995 = 9007199254740996"
  "round_double 9007199254740993 = 9007199254740992"
  "round_double (- 9007199254740995) = - 9007199254740996"
  by (simp_all add: round_double_def bit_length.simps Let_def)

lemma check_rounded_difference: "not_power_of_two_check 9007199254740996"
  by (simp add: not_power_of_two_check_def round_double_def bit_length.simps Let_def)

lemma scrypt_keystore_key_foo:
  "deriveKey demo (scrypt_document addr cipher 1024 32 1 8) (getPassword (PasswordString ''foo'')) =
     ([ScryptCall [102, 111, 111] [0xab, 0xcd] 1024 8 1 64], Inr key_foo)"
  by (simp add: scrypt_document_key check_1024 demo_fields power_of_two_1024 stretch_foo)

lemma scrypt_keystore_key_bar:
  "deriveKey demo (scrypt_document addr cipher 1024 32 1 8) (getPassword (PasswordString ''bar'')) =
     ([ScryptCall [98, 97, 114] [0xab, 0xcd] 1024 8 1 64], Inr key_bar)"
  by (simp add: scrypt_document_key check_1024 demo_fields power_of_two_1024 stretch_bar)

lemma mac_foo:
  "drop 2 (hexlify (digest (slice_list 16 32 key_foo @
     [0x48, 0x49, 0x4a, 0x4b, 0x4c, 0x4d, 0x4e, 0x4f, 0x50, 0x51, 0x52, 0x53, 0x54, 0x55, 0x56, 0x57,
          0x58, 0x59, 0x5a, 0x5b, 0x5c, 0x5d, 0x5e, 0x5f, 0x60, 0x61, 0x62, 0x63, 0x64, 0x65, 0x66, 0x67]))) =
   ''28292a2b2c2d2e2f303132333435363738393a3b3c3d3e3f4041424344454647''"
  unfolding key_foo_def by code_simp

lemma mac_bar:
  "drop 2 (hexlify (digest (slice_list 16 32 key_bar @
     [0x48, 0x49, 0x4a, 0x4b, 0x4c, 0x4d, 0x4e, 0x4f, 0x50, 0x51, 0x52, 0x53, 0x54, 0x55, 0x56, 0x57,
          0x58, 0x59, 0x5a, 0x5b, 0x5c, 0x5d, 0x5e, 0x5f, 0x60, 0x61, 0x62, 0x63, 0x64, 0x65, 0x66, 0x67]))) \<noteq>
   ''28292a2b2c2d2e2f303132333435363738393a3b3c3d3e3f4041424344454647''"
  unfolding key_bar_def by code_simp

lemma pbkdf2_keystore_kdf:
  "searchPath pbkdf2_keystore ''crypto/kdf'' = Inr (Some (JStr ''pbkdf2''))"
  by (simp add: pbkdf2_keystore_def search_eval)

lemma pbkdf2_keystore_params:
  "pbkdf2Params pbkdf2_keystore = Inr ([0xab, 0xcd], Some 262144, 32, ''sha256'')"
  by (simp add: pbkdf2Params_def pbkdf2_keystore_def search_eval hex_eval)

lemma toLowerCase_pbkdf2: "toLowerCase ''pbkdf2'' = ''pbkdf2''"
  by (simp add: toLowerCase_def lower_char_literals)

lemma plain_address: "upper_address ''0x0102030405060708090A0B0C0D0E0F1011121314'' =
    Some ''0x0102030405060708090A0B0C0D0E0F1011121314''"
  by code_simp
lemma hd_address: "upper_address ''0x898A8B8C8D8E8F909192939495969798999A9B9C'' =
    Some ''0x898A8B8C8D8E8F909192939495969798999A9B9C''"
  by code_simp
lemma plain_key_bytes:
  "hex_pairs ''000102030405060708090a0b0c0d0e0f101112131415161718191a1b1c1d1e1f'' =
     Some [0x00, 0x01, 0x02, 0x03, 0x04, 0x05, 0x06, 0x07, 0x08, 0x09, 0x0a, 0x0b, 0x0c, 0x0d, 0x0e, 0x0f,
          0x10, 0x11, 0x12, 0x13, 0x14, 0x15, 0x16, 0x17, 0x18, 0x19, 0x1a, 0x1b, 0x1c, 0x1d, 0x1e, 0x1f]"
  by (simp add: hex_val_literals)
lemma plain_key_address:
  "address_of_key
     [0x00, 0x01, 0x02, 0x03, 0x04, 0x05, 0x06, 0x07, 0x08, 0x09, 0x0a, 0x0b, 0x0c, 0x0d, 0x0e, 0x0f,
      0x10, 0x11, 0x12, 0x13, 0x14, 0x15, 0x16, 0x17, 0x18, 0x19, 0x1a, 0x1b, 0x1c, 0x1d, 0x1e, 0x1f] =
     Some ''0x0102030405060708090A0B0C0D0E0F1011121314''"
  by code_simp
lemma plain_key_computeAddress:
  "computeAddressOfKey demo ''0x000102030405060708090a0b0c0d0e0f101112131415161718191a1b1c1d1e1f'' =
     Inr ''0x0102030405060708090A0B0C0D0E0F1011121314''"
  by (simp add: computeAddressOfKey_def plain_key_bytes demo_fields plain_key_address
        del: hex_pairs.simps(3))
lemma hd_node:
  "node_of_phrase ''000102030405060708090A0B0C0D0E0F'' defaultPath =
     Some \<lparr>node_privateKey = ''0x88898a8b8c8d8e8f909192939495969798999a9b9c9d9e9fa0a1a2a3a4a5a6a7'',
           node_mnemonic = ''000102030405060708090A0B0C0D0E0F'', node_path = defaultPath\<rparr>"
  by code_simp

lemma shift_cipher_Some:
  "length key \<in> {16, 24, 32} \<Longrightarrow> length counter = 16 \<Longrightarrow>
     shift_cipher key counter =
       Some \<lparr>ctr_encrypt = map (\<lambda>b. b + (byte_sum key + byte_sum counter)),
             ctr_decrypt = map (\<lambda>b. b - (byte_sum key + byte_sum counter))\<rparr>"
  by (simp add: shift_cipher_def)

lemma iv_bytes:
  "looseArrayify (Some (JStr ''01010101010101010101010101010101'')) =
     Inr [0x01, 0x01, 0x01, 0x01, 0x01, 0x01, 0x01, 0x01, 0x01, 0x01, 0x01, 0x01, 0x01, 0x01, 0x01, 0x01]"
  by (simp add: hex_eval)

lemma plain_key_decrypted:
  "map_option (\<lambda>c. ctr_decrypt c
       [0x48, 0x49, 0x4a, 0x4b, 0x4c, 0x4d, 0x4e, 0x4f, 0x50, 0x51, 0x52, 0x53, 0x54, 0x55, 0x56, 0x57,
          0x58, 0x59, 0x5a, 0x5b, 0x5c, 0x5d, 0x5e, 0x5f, 0x60, 0x61, 0x62, 0x63, 0x64, 0x65, 0x66, 0x67])
     (shift_cipher (slice_list 0 16 key_foo)
       [0x01, 0x01, 0x01, 0x01, 0x01, 0x01, 0x01, 0x01, 0x01, 0x01, 0x01, 0x01, 0x01, 0x01, 0x01, 0x01]) =
   Some [0x00, 0x01, 0x02, 0x03, 0x04, 0x05, 0x06, 0x07, 0x08, 0x09, 0x0a, 0x0b, 0x0c, 0x0d, 0x0e, 0x0f,
          0x10, 0x11, 0x12, 0x13, 0x14, 0x15, 0x16, 0x17, 0x18, 0x19, 0x1a, 0x1b, 0x1c, 0x1d, 0x1e, 0x1f]"
  unfolding key_foo_def by code_simp

lemma scrypt_document_recover:
  "recoverPrivateKey demo (scrypt_document addr ''aes-128-ctr'' n dklen p r) key_foo =
     Inr [0x00, 0x01, 0x02, 0x03, 0x04, 0x05, 0x06, 0x07, 0x08, 0x09, 0x0a, 0x0b, 0x0c, 0x0d, 0x0e, 0x0f,
          0x10, 0x11, 0x12, 0x13, 0x14, 0x15, 0x16, 0x17, 0x18, 0x19, 0x1a, 0x1b, 0x1c, 0x1d, 0x1e, 0x1f]"
  by (simp add: recoverPrivateKey_mac [OF scrypt_document_ciphertext ciphertext_bytes
          scrypt_document_mac]
        decryptCipher_aes [OF scrypt_document_cipher scrypt_document_iv iv_bytes]
        demo_fields mac_foo toLowerCase_mac plain_key_decrypted)

lemma toLowerCase_addresses:
  "toLowerCase ''0102030405060708090a0b0c0d0e0f1011121314'' =
     ''0102030405060708090a0b0c0d0e0f1011121314''"
  "toLowerCase ''898a8b8c8d8e8f909192939495969798999a9b9c'' =
     ''898a8b8c8d8e8f909192939495969798999a9b9c''"
  by (simp_all add: toLowerCase_def lower_char_literals)

lemma lower_addresses_canonical:
  "upper_address ''0x0102030405060708090a0b0c0d0e0f1011121314'' =
     Some ''0x0102030405060708090A0B0C0D0E0F1011121314''"
  "upper_address ''0x898a8b8c8d8e8f909192939495969798999a9b9c'' =
     Some ''0x898A8B8C8D8E8F909192939495969798999A9B9C''"
  by code_simp+

lemma plain_key_hexlify:
  "hexlify [0x00, 0x01, 0x02, 0x03, 0x04, 0x05, 0x06, 0x07, 0x08, 0x09, 0x0a, 0x0b, 0x0c, 0x0d, 0x0e, 0x0f,
          0x10, 0x11, 0x12, 0x13, 0x14, 0x15, 0x16, 0x17, 0x18, 0x19, 0x1a, 0x1b, 0x1c, 0x1d, 0x1e, 0x1f] =
     ''0x000102030405060708090a0b0c0d0e0f101112131415161718191a1b1c1d1e1f''"
  by code_simp

lemma scrypt_keystore_decrypts:
  "snd (decryptData demo scrypt_keystore (PasswordString ''foo'')) =
     Inr \<lparr>address = ''0x0102030405060708090A0B0C0D0E0F1011121314'',
           privateKey = ''0x000102030405060708090a0b0c0d0e0f101112131415161718191a1b1c1d1e1f'',
           mnemonic = None, path = None, isKeystoreAccount = True\<rparr>"
  unfolding scrypt_keystore_def
  by (simp add: decryptData_key [OF scrypt_keystore_key_foo] getAccount_def
        scrypt_document_recover demo_fields plain_key_address
        checkAddress_string [OF scrypt_document_address]
        toLowerCase_addresses lower_addresses_canonical scrypt_document_version
        plain_key_hexlify)

lemma scrypt_keystore_key_foo_bytes:
  "deriveKey demo (scrypt_document addr cipher 1024 32 1 8) [102, 111, 111] =
     ([ScryptCall [102, 111, 111] [0xab, 0xcd] 1024 8 1 64], Inr key_foo)"
  using scrypt_keystore_key_foo [of addr cipher] by simp








lemma hd_key_address:
  "address_of_key
     [0x88, 0x89, 0x8a, 0x8b, 0x8c, 0x8d, 0x8e, 0x8f, 0x90, 0x91, 0x92, 0x93, 0x94, 0x95, 0x96, 0x97,
          0x98, 0x99, 0x9a, 0x9b, 0x9c, 0x9d, 0x9e, 0x9f, 0xa0, 0xa1, 0xa2, 0xa3, 0xa4, 0xa5, 0xa6, 0xa7] =
     Some ''0x898A8B8C8D8E8F909192939495969798999A9B9C''"
  by code_simp

lemma hd_key_hexlify:
  "hexlify [0x88, 0x89, 0x8a, 0x8b, 0x8c, 0x8d, 0x8e, 0x8f, 0x90, 0x91, 0x92, 0x93, 0x94, 0x95, 0x96, 0x97,
          0x98, 0x99, 0x9a, 0x9b, 0x9c, 0x9d, 0x9e, 0x9f, 0xa0, 0xa1, 0xa2, 0xa3, 0xa4, 0xa5, 0xa6, 0xa7] =
     ''0x88898a8b8c8d8e8f909192939495969798999a9b9c9d9e9fa0a1a2a3a4a5a6a7''"
  by code_simp




lemma plain_account_valid: "validateAccount demo plain_account = Inr ()"
  by (simp add: validateAccount_def plain_account_def demo_fields plain_address
        plain_key_computeAddress)

lemma uuid_bytes:
  "hex_pairs ''000102030405060708090a0b0c0d0e0f'' =
     Some [0x00, 0x01, 0x02, 0x03, 0x04, 0x05, 0x06, 0x07, 0x08, 0x09, 0x0a, 0x0b, 0x0c, 0x0d, 0x0e, 0x0f]"
  "hex_pairs ''0102'' = Some [0x01, 0x02]"
  by (simp_all add: hex_val_literals)

text \<open>A string with an odd number of digits is no \<^verbatim>\<open>BytesLike\<close>.\<close>

lemma odd_digits_rejected: "arrayify (HexString ''0xabc'') = Inl InvalidHex"
  by (rule arrayify_odd_length) simp

lemma hd_key_bytes:
  "hex_pairs ''88898a8b8c8d8e8f909192939495969798999a9b9c9d9e9fa0a1a2a3a4a5a6a7'' =
     Some [0x88, 0x89, 0x8a, 0x8b, 0x8c, 0x8d, 0x8e, 0x8f, 0x90, 0x91, 0x92, 0x93, 0x94, 0x95, 0x96, 0x97,
          0x98, 0x99, 0x9a, 0x9b, 0x9c, 0x9d, 0x9e, 0x9f, 0xa0, 0xa1, 0xa2, 0xa3, 0xa4, 0xa5, 0xa6, 0xa7]"
  by (simp add: hex_val_literals)

lemma hd_entropy:
  "entropy_of_phrase ''000102030405060708090A0B0C0D0E0F'' =
     Some [0x00, 0x01, 0x02, 0x03, 0x04, 0x05, 0x06, 0x07, 0x08, 0x09, 0x0a, 0x0b, 0x0c, 0x0d, 0x0e, 0x0f]"
  by code_simp

lemma iv_replicate:
  "replicate 16 (1::byte) =
     [0x01, 0x01, 0x01, 0x01, 0x01, 0x01, 0x01, 0x01, 0x01, 0x01, 0x01, 0x01, 0x01, 0x01, 0x01, 0x01]"
  by code_simp

lemma hd_account_valid: "validateAccount demo hd_account = Inr ()"
  by (simp add: validateAccount_def hd_account_def demo_fields hd_address
        computeAddressOfKey_def hd_key_bytes hd_key_address hd_node del: hex_pairs.simps(3))

lemma hd_account_prepared:
  "prepare demo hd_account fixed_options rng =
     Inr \<lparr>p_privateKey = [0x88, 0x89, 0x8a, 0x8b, 0x8c, 0x8d, 0x8e, 0x8f, 0x90, 0x91, 0x92, 0x93, 0x94, 0x95, 0x96, 0x97,
          0x98, 0x99, 0x9a, 0x9b, 0x9c, 0x9d, 0x9e, 0x9f, 0xa0, 0xa1, 0xa2, 0xa3, 0xa4, 0xa5, 0xa6, 0xa7],
          p_entropy = Some [0x00, 0x01, 0x02, 0x03, 0x04, 0x05, 0x06, 0x07, 0x08, 0x09, 0x0a, 0x0b, 0x0c, 0x0d, 0x0e, 0x0f],
          p_path = Some defaultPath, p_client = ''ethers.js'', p_salt = [0xab, 0xcd],
          p_iv = [0x01, 0x01, 0x01, 0x01, 0x01, 0x01, 0x01, 0x01, 0x01, 0x01, 0x01, 0x01, 0x01, 0x01, 0x01, 0x01],
          p_uuidRandom = [0x00, 0x01, 0x02, 0x03, 0x04, 0x05, 0x06, 0x07, 0x08, 0x09, 0x0a, 0x0b, 0x0c, 0x0d, 0x0e, 0x0f],
          p_N = 1024, p_r = 8, p_p = 1, p_rng = rng\<rparr>"
  by (simp add: prepare_def hd_account_def fixed_options_def chooseEntropy_def chooseSalt_def
        chooseIv_def chooseUuid_def chooseScrypt_def demo_fields hd_key_bytes hd_entropy
        uuid_bytes hex_eval iv_replicate)


lemma encryptWithKey_demo:
  assumes "length (slice_list 0 16 key) \<in> {16, 24, 32}" and "length (p_iv pr) = 16"
      and "length (slice_list 32 64 key) \<in> {16, 24, 32}"
  shows "encryptWithKey demo account pr now key =
     (let ciphertext = map (\<lambda>b. b + (byte_sum (slice_list 0 16 key) + byte_sum (p_iv pr)))
                         (p_privateKey pr);
          data = web3Data demo account pr ciphertext (digest (slice_list 16 32 key @ ciphertext));
          mnemonicIv = fst (seeded_bytes 16 (p_rng pr))
      in case p_entropy pr of
           None \<Rightarrow> Inr (JObj data)
         | Some entropy \<Rightarrow>
             Inr (JObj (data @
               [(''x-ethers'', JObj
                  ([(''client'', JStr (p_client pr)),
                    (''gethFilename'',
                       JStr (''UTC--'' @ timestamp now @ ''--'' @ toLowerCase (drop 2 (address account)))),
                    (''mnemonicCounter'', JStr (drop 2 (hexlify mnemonicIv))),
                    (''mnemonicCiphertext'',
                       JStr (drop 2 (hexlify
                         (map (\<lambda>b. b + (byte_sum (slice_list 32 64 key) + byte_sum mnemonicIv))
                            entropy))))]
                   @ (case p_path pr of None \<Rightarrow> [] | Some pth \<Rightarrow> [(''path'', JStr pth)])
                   @ [(''version'', JStr ''0.1'')]))])))"
proof -
  have "length (fst (seeded_bytes 16 (p_rng pr))) = 16"
    by (simp add: seeded_bytes_def)
  with assms show ?thesis
    by (simp add: encryptWithKey_def xEthers_def Let_def demo_fields shift_cipher_Some
          split: option.splits)
qed

lemma key_foo_lengths:
  "length (slice_list 0 16 key_foo) = 16" "length (slice_list 32 64 key_foo) = 32"
  by (simp_all add: slice_list_def key_foo_def)

lemma hd_parts:
  "drop 2 (hexlify (map (\<lambda>b. b + (byte_sum (slice_list 0 16 key_foo) + byte_sum
       [0x01, 0x01, 0x01, 0x01, 0x01, 0x01, 0x01, 0x01, 0x01, 0x01, 0x01, 0x01, 0x01, 0x01, 0x01, 0x01]))
     [0x88, 0x89, 0x8a, 0x8b, 0x8c, 0x8d, 0x8e, 0x8f, 0x90, 0x91, 0x92, 0x93, 0x94, 0x95, 0x96, 0x97,
          0x98, 0x99, 0x9a, 0x9b, 0x9c, 0x9d, 0x9e, 0x9f, 0xa0, 0xa1, 0xa2, 0xa3, 0xa4, 0xa5, 0xa6, 0xa7])) =
   ''d0d1d2d3d4d5d6d7d8d9dadbdcdddedfe0e1e2e3e4e5e6e7e8e9eaebecedeeef''"
  "drop 2 (hexlify (digest (slice_list 16 32 key_foo @
     map (\<lambda>b. b + (byte_sum (slice_list 0 16 key_foo) + byte_sum
       [0x01, 0x01, 0x01, 0x01, 0x01, 0x01, 0x01, 0x01, 0x01, 0x01, 0x01, 0x01, 0x01, 0x01, 0x01, 0x01]))
     [0x88, 0x89, 0x8a, 0x8b, 0x8c, 0x8d, 0x8e, 0x8f, 0x90, 0x91, 0x92, 0x93, 0x94, 0x95, 0x96, 0x97,
          0x98, 0x99, 0x9a, 0x9b, 0x9c, 0x9d, 0x9e, 0x9f, 0xa0, 0xa1, 0xa2, 0xa3, 0xa4, 0xa5, 0xa6, 0xa7]))) =
   ''28292a2b2c2d2e2f303132333435363738393a3b3c3d3e3f4041424344454647''"
  "drop 2 (hexlify [0xab, 0xcd]) = ''abcd''"
  "drop 2 (hexlify [0x01, 0x01, 0x01, 0x01, 0x01, 0x01, 0x01, 0x01, 0x01, 0x01, 0x01, 0x01, 0x01, 0x01, 0x01, 0x01]) =
     ''01010101010101010101010101010101''"
  "drop 2 (hexlify [0x00, 0x01, 0x02, 0x03, 0x04, 0x05, 0x06, 0x07, 0x08, 0x09, 0x0a, 0x0b, 0x0c, 0x0d, 0x0e, 0x0f]) =
     ''000102030405060708090a0b0c0d0e0f''"
  "toLowerCase (drop 2 ''0x898A8B8C8D8E8F909192939495969798999A9B9C'') =
     ''898a8b8c8d8e8f909192939495969798999a9b9c''"
  by code_simp+

lemma hd_account_encrypted:
  "encryptData demo hd_account (PasswordString ''foo'') (Some fixed_options) rng now =
     ([ScryptCall [102, 111, 111] [0xab, 0xcd] 1024 8 1 64],
      Inr (hd_document
             (drop 2 (hexlify (fst (seeded_bytes 16 rng))))
             (drop 2 (hexlify (map (\<lambda>b. b + (byte_sum (slice_list 32 64 key_foo) +
                                               byte_sum (fst (seeded_bytes 16 rng))))
                [0x00, 0x01, 0x02, 0x03, 0x04, 0x05, 0x06, 0x07, 0x08, 0x09, 0x0a, 0x0b, 0x0c, 0x0d, 0x0e, 0x0f])))
             (timestamp now)))"
proof -
  have "encryptWithKey demo hd_account
     \<lparr>p_privateKey = [0x88, 0x89, 0x8a, 0x8b, 0x8c, 0x8d, 0x8e, 0x8f, 0x90, 0x91, 0x92, 0x93, 0x94, 0x95, 0x96, 0x97,
          0x98, 0x99, 0x9a, 0x9b, 0x9c, 0x9d, 0x9e, 0x9f, 0xa0, 0xa1, 0xa2, 0xa3, 0xa4, 0xa5, 0xa6, 0xa7],
          p_entropy = Some [0x00, 0x01, 0x02, 0x03, 0x04, 0x05, 0x06, 0x07, 0x08, 0x09, 0x0a, 0x0b, 0x0c, 0x0d, 0x0e, 0x0f],
          p_path = Some defaultPath, p_client = ''ethers.js'', p_salt = [0xab, 0xcd],
          p_iv = [0x01, 0x01, 0x01, 0x01, 0x01, 0x01, 0x01, 0x01, 0x01, 0x01, 0x01, 0x01, 0x01, 0x01, 0x01, 0x01],
          p_uuidRandom = [0x00, 0x01, 0x02, 0x03, 0x04, 0x05, 0x06, 0x07, 0x08, 0x09, 0x0a, 0x0b, 0x0c, 0x0d, 0x0e, 0x0f],
          p_N = 1024, p_r = 8, p_p = 1, p_rng = rng\<rparr> now key_foo =
      Inr (hd_document
             (drop 2 (hexlify (fst (seeded_bytes 16 rng))))
             (drop 2 (hexlify (map (\<lambda>b. b + (byte_sum (slice_list 32 64 key_foo) +
                                               byte_sum (fst (seeded_bytes 16 rng))))
                [0x00, 0x01, 0x02, 0x03, 0x04, 0x05, 0x06, 0x07, 0x08, 0x09, 0x0a, 0x0b, 0x0c, 0x0d, 0x0e, 0x0f])))
             (timestamp now))"
  proof -
    have c1: "length (slice_list 0 16 key_foo) \<in> {16, 24, 32}"
      and c3: "length (slice_list 32 64 key_foo) \<in> {16, 24, 32}"
      by (simp_all add: key_foo_lengths)
    show ?thesis
      by (subst encryptWithKey_demo [OF c1 _ c3])
         (simp, simp only: prepared.select_convs Let_def web3Data_def hd_document_def
            hd_parts demo_fields option.case append.simps hd_account_def
            ExternallyOwnedAccount.select_convs)
  qed
  then show ?thesis
    by (simp add: encryptData_prepared [OF hd_account_valid] hd_account_prepared demo_fields
          power_of_two_1024 stretch_foo)
qed

lemma hd_environment:
  "drop 2 (hexlify (fst (seeded_bytes 16 7))) = ''0708090a0b0c0d0e0f10111213141516''"
  "drop 2 (hexlify (map (\<lambda>b. b + (byte_sum (slice_list 32 64 key_foo) +
                                    byte_sum (fst (seeded_bytes 16 7))))
     [0x00, 0x01, 0x02, 0x03, 0x04, 0x05, 0x06, 0x07, 0x08, 0x09, 0x0a, 0x0b, 0x0c, 0x0d, 0x0e, 0x0f])) =
   ''58595a5b5c5d5e5f6061626364656667''"
  "drop 2 (hexlify (fst (seeded_bytes 16 8))) = ''08090a0b0c0d0e0f1011121314151617''"
  "drop 2 (hexlify (map (\<lambda>b. b + (byte_sum (slice_list 32 64 key_foo) +
                                    byte_sum (fst (seeded_bytes 16 8))))
     [0x00, 0x01, 0x02, 0x03, 0x04, 0x05, 0x06, 0x07, 0x08, 0x09, 0x0a, 0x0b, 0x0c, 0x0d, 0x0e, 0x0f])) =
   ''68696a6b6c6d6e6f7071727374757677''"
  by code_simp+

lemma timestamps:
  "timestamp some_time = ''2020-01-05T13-07-09.0Z''"
  "timestamp later_time = ''2020-01-05T13-07-10.0Z''"
  by (simp_all add: timestamp_def some_time_def later_time_def zpad_def dec_nat_def
        dec_digits.simps hex_digit_def)

lemma hd_account_encrypted_7:
  "encryptData demo hd_account (PasswordString ''foo'') (Some fixed_options) 7 some_time =
     ([ScryptCall [102, 111, 111] [0xab, 0xcd] 1024 8 1 64], Inr hd_keystore)"
  by (simp only: hd_account_encrypted hd_environment timestamps hd_keystore_def)

lemmas stringify_eval = hd_document_def quote_def dec_int_def dec_digits.simps hex_digit_def
  defaultPath_def

section \<open>Reading back what encrypt writes\<close>

subsection \<open>What decrypt reads in a document written by encrypt\<close>

lemma web3Data_lookups:
  assumes "ext = [] \<or> ext = [(''x-ethers'', JObj x)]"
  shows "searchPath (JObj (web3Data P account pr ct mac @ ext)) ''crypto/kdf'' = Inr (Some (JStr ''scrypt''))"
    and "searchPath (JObj (web3Data P account pr ct mac @ ext)) ''crypto/kdfparams/salt'' =
           Inr (Some (JStr (drop 2 (hexlify (p_salt pr)))))"
    and "searchPath (JObj (web3Data P account pr ct mac @ ext)) ''crypto/kdfparams/n'' = Inr (Some (JNum (p_N pr)))"
    and "searchPath (JObj (web3Data P account pr ct mac @ ext)) ''crypto/kdfparams/r'' = Inr (Some (JNum (p_r pr)))"
    and "searchPath (JObj (web3Data P account pr ct mac @ ext)) ''crypto/kdfparams/p'' = Inr (Some (JNum (p_p pr)))"
    and "searchPath (JObj (web3Data P account pr ct mac @ ext)) ''crypto/kdfparams/dklen'' = Inr (Some (JNum 32))"
    and "searchPath (JObj (web3Data P account pr ct mac @ ext)) ''crypto/ciphertext'' =
           Inr (Some (JStr (drop 2 (hexlify ct))))"
    and "searchPath (JObj (web3Data P account pr ct mac @ ext)) ''crypto/mac'' =
           Inr (Some (JStr (drop 2 (hexlify mac))))"
    and "searchPath (JObj (web3Data P account pr ct mac @ ext)) ''crypto/cipher'' =
           Inr (Some (JStr ''aes-128-ctr''))"
    and "searchPath (JObj (web3Data P account pr ct mac @ ext)) ''crypto/cipherparams/iv'' =
           Inr (Some (JStr (drop 2 (hexlify (p_iv pr)))))"
    and "data_address (JObj (web3Data P account pr ct mac @ ext)) =
           Inr (Some (JStr (toLowerCase (drop 2 (address account)))))"
  using assms
  by (auto simp: web3Data_def searchPath_def lookup_ci_def toLowerCase_def [of "_ # _"]
        toLowerCase_def [of "[]"] lower_char_literals)

lemma web3Data_no_section:
  "searchPath (JObj (web3Data P account pr ct mac)) ''x-ethers/version'' = Inr None"
  by (simp add: web3Data_def searchPath_def lookup_ci_def toLowerCase_def [of "_ # _"]
        toLowerCase_def [of "[]"] lower_char_literals)

lemma xEthers_lookups:
  assumes "x = [(''client'', c), (''gethFilename'', g), (''mnemonicCounter'', mc),
                (''mnemonicCiphertext'', mct), (''path'', pth), (''version'', JStr ''0.1'')]"
  shows "searchPath (JObj (web3Data P account pr ct mac @ [(''x-ethers'', JObj x)])) ''x-ethers/version'' =
           Inr (Some (JStr ''0.1''))"
    and "searchPath (JObj (web3Data P account pr ct mac @ [(''x-ethers'', JObj x)])) ''x-ethers/mnemonicCiphertext'' =
           Inr (Some mct)"
    and "searchPath (JObj (web3Data P account pr ct mac @ [(''x-ethers'', JObj x)])) ''x-ethers/mnemonicCounter'' =
           Inr (Some mc)"
    and "searchPath (JObj (web3Data P account pr ct mac @ [(''x-ethers'', JObj x)])) ''x-ethers/path'' =
           Inr (Some pth)"
  using assms
  by (auto simp: web3Data_def searchPath_def lookup_ci_def toLowerCase_def [of "_ # _"]
        toLowerCase_def [of "[]"] lower_char_literals)

subsection \<open>The check of N on a power of two\<close>

lemma round_double_small: "\<bar>x\<bar> \<le> 9007199254740992 \<Longrightarrow> round_double x = x"
  by (simp add: round_double_def)

lemma power_of_two_check: "\<not> not_power_of_two_check (2 ^ k)"
proof (cases "k < 32")
  case True
  then have "(2::int) ^ k \<le> 2 ^ 31"
    by (intro power_increasing) simp_all
  then have "round_double (2 ^ k - 1) = 2 ^ k - 1"
    by (intro round_double_small) simp
  moreover have "(2 ^ k :: 32 word) AND (2 ^ k - 1) = 0"
    by (rule bit_eqI) (auto simp: bit_simps simp flip: mask_eq_exp_minus_1)
  ultimately show ?thesis
    by (simp add: not_power_of_two_check_def)
next
  case False
  then have zero: "(word_of_int (2 ^ k) :: 32 word) = 0"
    by (simp add: exp_eq_zero_iff)
  show ?thesis
    unfolding not_power_of_two_check_def zero by simp
qed

subsection \<open>Inversion of a successful encrypt\<close>

lemma encrypt_Inr:
  assumes "encrypt P account pw options rng now = (calls, Inr json)"
  shows "\<exists>pr key data.
           validateAccount P account = Inr ()
         \<and> prepare P account (case options of None \<Rightarrow> no_options | Some opts \<Rightarrow> opts) rng = Inr pr
         \<and> scrypt P (getPassword pw) (p_salt pr) (p_N pr) (p_r pr) (p_p pr) 64 = Some key
         \<and> encryptWithKey P account pr now key = Inr data
         \<and> json = JSON_stringify P data"
  using assms
  by (auto simp: encrypt_def encryptData_def Let_def bindE_eq_Inr orThrow_eq_Inr
           split: sum.splits prod.splits)

lemma validateAccount_Inr:
  assumes "validateAccount P account = Inr ()"
  shows "\<exists>a. getAddress P (address account) = Some a
           \<and> computeAddressOfKey P (privateKey account) = Inr a
           \<and> (case mnemonic account of
                 None \<Rightarrow> path account = None
               | Some m \<Rightarrow>
                   \<exists>node. fromMnemonic_derivePath P m
                            (if truthy_string (path account) then the (path account) else defaultPath)
                          = Some node
                        \<and> node_privateKey node = privateKey account)"
  using assms
  by (auto simp: validateAccount_def bindE_eq_Inr orThrow_eq_Inr
           split: option.splits if_splits)

lemma prepare_Inr:
  assumes "prepare P account opts rng = Inr pr"
  shows "arrayify (HexString (privateKey account)) = Inr (p_privateKey pr)"
    and "chooseEntropy P account = Inr (p_entropy pr, p_path pr)"
    and "chooseScrypt opts = (p_N pr, p_r pr, p_p pr)"
proof -
  obtain N r p where "chooseScrypt opts = (N, r, p)"
    by (cases "chooseScrypt opts") auto
  with assms show "arrayify (HexString (privateKey account)) = Inr (p_privateKey pr)"
    and "chooseEntropy P account = Inr (p_entropy pr, p_path pr)"
    and "chooseScrypt opts = (p_N pr, p_r pr, p_p pr)"
    by (auto simp: prepare_def bindE_eq_Inr Let_def simp del: arrayify.simps)
qed

lemma chooseScrypt_nonzero:
  assumes "chooseScrypt opts = (N, r, p)"
  shows "N \<noteq> 0" and "r \<noteq> 0" and "p \<noteq> 0"
  using assms
  by (auto simp: chooseScrypt_def split: option.splits if_splits
           elim: truthy_int.elims)

lemma chooseEntropy_Inr:
  assumes "chooseEntropy P account = Inr (ent, pth)"
  shows "(case mnemonic account of
            None \<Rightarrow> ent = None \<and> pth = path account
          | Some m \<Rightarrow>
              if m = [] then ent = None \<and> pth = path account
              else ent = mnemonicToEntropy P m \<and> ent \<noteq> None
                 \<and> pth = Some (if truthy_string (path account) then the (path account) else defaultPath))"
  using assms
  by (cases "path account")
     (auto simp: chooseEntropy_def bindE_eq_Inr orThrow_eq_Inr split: option.splits if_splits)

lemma encryptWithKey_Inr:
  assumes "encryptWithKey P account pr now key = Inr data"
  shows "\<exists>c. aes_ctr P (slice_list 0 16 key) (p_iv pr) = Some c
           \<and> (case p_entropy pr of
                 None \<Rightarrow>
                   data = JObj (web3Data P account pr (ctr_encrypt c (p_privateKey pr))
                     (keccak256 P (slice_list 16 32 key @ ctr_encrypt c (p_privateKey pr))))
               | Some entropy \<Rightarrow>
                   \<exists>mc. aes_ctr P (slice_list 32 64 key) (fst (randomBytes P 16 (p_rng pr))) = Some mc
                     \<and> data = JObj (web3Data P account pr (ctr_encrypt c (p_privateKey pr))
                           (keccak256 P (slice_list 16 32 key @ ctr_encrypt c (p_privateKey pr)))
                         @ [(''x-ethers'', JObj
                              ([(''client'', JStr (p_client pr)),
                                (''gethFilename'',
                                   JStr (''UTC--'' @ timestamp now @ ''--'' @
                                         toLowerCase (drop 2 (address account)))),
                                (''mnemonicCounter'',
                                   JStr (drop 2 (hexlify (fst (randomBytes P 16 (p_rng pr)))))),
                                (''mnemonicCiphertext'',
                                   JStr (drop 2 (hexlify (ctr_encrypt mc entropy))))]
                               @ (case p_path pr of None \<Rightarrow> [] | Some pth \<Rightarrow> [(''path'', JStr pth)])
                               @ [(''version'', JStr ''0.1'')]))]))"
  using assms
  by (auto simp: encryptWithKey_def xEthers_def Let_def bindE_eq_Inr orThrow_eq_Inr
           split: option.splits)


subsection \<open>decrypt on a document written by encrypt\<close>

lemma written_deriveKey:
  assumes ext: "ext = [] \<or> ext = [(''x-ethers'', JObj x)]"
      and "p_N pr \<noteq> 0" and "p_r pr \<noteq> 0" and "p_p pr \<noteq> 0"
      and "\<not> not_power_of_two_check (p_N pr)"
  shows "deriveKey P (JObj (web3Data P account pr ct mac @ ext)) pwb =
           ([ScryptCall pwb (p_salt pr) (p_N pr) (p_r pr) (p_p pr) 64],
            orThrow (scrypt P pwb (p_salt pr) (p_N pr) (p_r pr) (p_p pr) 64))"
proof -
  have "scryptParams (JObj (web3Data P account pr ct mac @ ext)) =
          Inr (p_salt pr, p_N pr, p_r pr, p_p pr)"
    using assms(2-)
    by (simp add: scryptParams_def web3Data_lookups [OF ext] looseArrayify_hexlify js_not_def
          del: looseArrayify.simps)
  then show ?thesis
    by (simp add: deriveKey_def web3Data_lookups [OF ext] toLowerCase_scrypt)
qed

lemma written_recoverPrivateKey:
  assumes ext: "ext = [] \<or> ext = [(''x-ethers'', JObj x)]"
      and "aes_ctr P (slice_list 0 16 key) (p_iv pr) = Some c"
      and "ctr_decrypt c (ctr_encrypt c pk) = pk"
  shows "recoverPrivateKey P
           (JObj (web3Data P account pr (ctr_encrypt c pk)
                    (keccak256 P (slice_list 16 32 key @ ctr_encrypt c pk)) @ ext)) key = Inr pk"
proof -
  have "decryptCipher P
          (JObj (web3Data P account pr (ctr_encrypt c pk)
                   (keccak256 P (slice_list 16 32 key @ ctr_encrypt c pk)) @ ext))
          (slice_list 0 16 key) (ctr_encrypt c pk) = Inr (Some pk)"
    using assms(2,3)
    by (simp add: decryptCipher_def web3Data_lookups [OF ext] looseArrayify_hexlify
          del: looseArrayify.simps)
  then show ?thesis
    by (simp add: recoverPrivateKey_def web3Data_lookups [OF ext] looseArrayify_hexlify
          toLowerCase_hexlify computeMAC_def Let_def del: looseArrayify.simps)
qed

lemma hex_char_lower:
  assumes "hex_val c \<noteq> None"
  shows "lower_char (lower_char c) = lower_char c" and "lower_char c \<noteq> CHR ''x''"
proof -
  have "c \<in> set ''0123456789abcdefABCDEF''"
    using assms unfolding hex_val_def
    by (subst (asm) map_of_zip_is_None) simp_all
  then show "lower_char (lower_char c) = lower_char c" and "lower_char c \<noteq> CHR ''x''"
    by (auto simp: lower_char_literals)
qed

lemma hex_digits_lower:
  assumes "\<forall>c \<in> set digits. hex_val c \<noteq> None"
  shows "toLowerCase (toLowerCase digits) = toLowerCase digits"
    and "take 2 (toLowerCase digits) \<noteq> ''0x''"
proof -
  show "toLowerCase (toLowerCase digits) = toLowerCase digits"
    using assms by (simp add: toLowerCase_def hex_char_lower)
  show "take 2 (toLowerCase digits) \<noteq> ''0x''"
  proof (cases digits)
    case Nil
    then show ?thesis by (simp add: toLowerCase_def)
  next
    case (Cons a as)
    show ?thesis
    proof (cases as)
      case Nil
      with Cons show ?thesis by (simp add: toLowerCase_def)
    next
      case (Cons b bs)
      with \<open>digits = a # as\<close> assms have "lower_char b \<noteq> CHR ''x''"
        by (simp add: hex_char_lower)
      with Cons \<open>digits = a # as\<close> show ?thesis by (simp add: toLowerCase_def)
    qed
  qed
qed

lemma written_checkAddress:
  assumes ext: "ext = [] \<or> ext = [(''x-ethers'', JObj x)]"
      and "address account = ''0x'' @ digits"
      and hex: "\<forall>c \<in> set digits. hex_val c \<noteq> None"
      and "getAddress P (''0x'' @ toLowerCase digits) = Some a"
  shows "checkAddress P (JObj (web3Data P account pr ct mac @ ext)) a = Inr ()"
  using assms(2,4)
  by (simp add: checkAddress_def web3Data_lookups [OF ext] hex_digits_lower [OF hex] Let_def
        del: data_address.simps)

lemma written_getMnemonic:
  assumes x: "x = [(''client'', c), (''gethFilename'', g),
                   (''mnemonicCounter'', JStr (drop 2 (hexlify iv))),
                   (''mnemonicCiphertext'', JStr (drop 2 (hexlify (ctr_encrypt mc entropy)))),
                   (''path'', JStr pth), (''version'', JStr ''0.1'')]"
      and "aes_ctr P mk iv = Some mc"
      and "ctr_decrypt mc (ctr_encrypt mc entropy) = entropy"
      and "entropyToMnemonic P entropy = Some m"
      and "pth \<noteq> []"
      and "fromMnemonic_derivePath P m pth = Some node"
      and "node_privateKey node = privateKey acct"
  shows "getMnemonic P (JObj (web3Data P account pr ct mac @ [(''x-ethers'', JObj x)])) mk acct =
           Inr (acct\<lparr>mnemonic := Some (node_mnemonic node), path := Some (node_path node)\<rparr>)"
  using assms(2-)
  by (simp add: getMnemonic_def xEthers_lookups [OF x] looseArrayify_hexlify Let_def
        del: looseArrayify.simps)


lemma chooseScrypt_power:
  assumes "\<forall>so n. opt_scrypt opts = Some so \<longrightarrow> opt_N so = Some n \<longrightarrow> (\<exists>k. n = 2 ^ k)"
      and "chooseScrypt opts = (N, r, p)"
  shows "\<exists>k. N = 2 ^ k"
proof (cases "opt_scrypt opts")
  case None
  with assms(2) have "N = 2 ^ 17" by (simp add: chooseScrypt_def)
  then show ?thesis by blast
next
  case (Some so)
  show ?thesis
  proof (cases "truthy_int (opt_N so)")
    case True
    then obtain n where "opt_N so = Some n" by (cases "opt_N so") auto
    with assms Some True show ?thesis by (auto simp: chooseScrypt_def)
  next
    case False
    with assms(2) Some have "N = 2 ^ 17" by (simp add: chooseScrypt_def)
    then show ?thesis by blast
  qed
qed

lemma path_or_default_string: "pth \<noteq> [] \<Longrightarrow> path_or_default (Some (JStr pth)) = JStr pth"
  by simp

lemma stored_path:
  "(if truthy_string pa then the pa else defaultPath) =
     (case pa of None \<Rightarrow> defaultPath | Some p \<Rightarrow> if p = [] then defaultPath else p)"
  "(if truthy_string pa then the pa else defaultPath) \<noteq> []"
  by (cases pa; simp add: defaultPath_def)+

subsection \<open>The example instance and an account with a path\<close>

lemma demo_json: "JSON_parse demo (JSON_stringify demo d) = Some d"
  by (simp add: demo_fields parse_json_stringify)

lemma demo_aes: "aes_ctr demo k iv = Some c \<Longrightarrow> ctr_decrypt c (ctr_encrypt c x) = x"
  by (auto simp: demo_fields shift_cipher_def o_def split: if_splits)

lemma demo_entropy:
  "mnemonicToEntropy demo m = Some e \<Longrightarrow> entropyToMnemonic demo e = Some m"
  by (auto simp: demo_fields entropy_of_phrase_def split: option.splits if_splits)

lemma demo_node:
  "fromMnemonic_derivePath demo m p = Some n \<Longrightarrow> node_mnemonic n = m \<and> node_path n = p"
  by (auto simp: demo_fields node_of_phrase_def split: option.splits if_splits)

lemma hd_digits:
  "\<forall>c \<in> set ''898A8B8C8D8E8F909192939495969798999A9B9C''. hex_val c \<noteq> None"
  by (simp add: hex_val_literals)

lemma hd_lower:
  "toLowerCase ''898A8B8C8D8E8F909192939495969798999A9B9C'' = ''898a8b8c8d8e8f909192939495969798999a9b9c''"
  by (simp add: toLowerCase_def lower_char_literals)

lemma derived_path_nonempty: "derived_path \<noteq> []"
  by (simp add: derived_path_def)

lemma hd_path_node:
  "node_of_phrase ''000102030405060708090A0B0C0D0E0F'' derived_path =
     Some \<lparr>node_privateKey = ''0x88898a8b8c8d8e8f909192939495969798999a9b9c9d9e9fa0a1a2a3a4a5a6a7'',
           node_mnemonic = ''000102030405060708090A0B0C0D0E0F'', node_path = derived_path\<rparr>"
  by code_simp

lemma hd_path_account_valid: "validateAccount demo hd_path_account = Inr ()"
  by (simp add: validateAccount_def hd_path_account_def demo_fields hd_address
        computeAddressOfKey_def hd_key_bytes hd_key_address hd_path_node derived_path_nonempty
        del: hex_pairs.simps(3))

lemma hd_path_account_prepared:
  "prepare demo hd_path_account fixed_options rng =
     Inr \<lparr>p_privateKey = [0x88, 0x89, 0x8a, 0x8b, 0x8c, 0x8d, 0x8e, 0x8f, 0x90, 0x91, 0x92, 0x93, 0x94, 0x95, 0x96, 0x97,
          0x98, 0x99, 0x9a, 0x9b, 0x9c, 0x9d, 0x9e, 0x9f, 0xa0, 0xa1, 0xa2, 0xa3, 0xa4, 0xa5, 0xa6, 0xa7],
          p_entropy = Some [0x00, 0x01, 0x02, 0x03, 0x04, 0x05, 0x06, 0x07, 0x08, 0x09, 0x0a, 0x0b, 0x0c, 0x0d, 0x0e, 0x0f],
          p_path = Some derived_path, p_client = ''ethers.js'', p_salt = [0xab, 0xcd],
          p_iv = [0x01, 0x01, 0x01, 0x01, 0x01, 0x01, 0x01, 0x01, 0x01, 0x01, 0x01, 0x01, 0x01, 0x01, 0x01, 0x01],
          p_uuidRandom = [0x00, 0x01, 0x02, 0x03, 0x04, 0x05, 0x06, 0x07, 0x08, 0x09, 0x0a, 0x0b, 0x0c, 0x0d, 0x0e, 0x0f],
          p_N = 1024, p_r = 8, p_p = 1, p_rng = rng\<rparr>"
  by (simp add: prepare_def hd_path_account_def fixed_options_def chooseEntropy_def chooseSalt_def
        chooseIv_def chooseUuid_def chooseScrypt_def demo_fields hd_key_bytes hd_entropy
        uuid_bytes hex_eval iv_replicate derived_path_nonempty)

lemma hd_path_account_encrypted:
  "\<exists>data. encryptData demo hd_path_account (PasswordString ''foo'') (Some fixed_options) rng now =
     ([ScryptCall [102, 111, 111] [0xab, 0xcd] 1024 8 1 64], Inr data)"
proof -
  have c1: "length (slice_list 0 16 key_foo) \<in> {16, 24, 32}"
    and c3: "length (slice_list 32 64 key_foo) \<in> {16, 24, 32}"
    by (simp_all add: key_foo_lengths)
  show ?thesis
    by (simp add: encryptData_prepared [OF hd_path_account_valid] hd_path_account_prepared demo_fields
          power_of_two_1024 stretch_foo encryptWithKey_demo [OF c1 _ c3] Let_def)
qed

section \<open>The MAC check\<close>

text \<open>
  C4. When the key-derivation stage of \<^verbatim>\<open>decrypt\<close> has produced a key, the ciphertext
  reads as hexadecimal and \<^verbatim>\<open>crypto/mac\<close> is a string, the MAC is the lowercase
  hexadecimal form of Keccak-256 of bytes 16 to 32 of the key followed by the ciphertext,
  and \<^verbatim>\<open>decrypt\<close> fails with \<^verbatim>\<open>invalid password\<close> if and only if this differs from
  \<^verbatim>\<open>crypto/mac\<close> in lower case.
\<close>

theorem decrypt_invalid_password_iff_mac:
  assumes "deriveKey P data (getPassword pw) = (calls, Inr key)"
      and "searchPath data ''crypto/ciphertext'' = Inr v"
      and "looseArrayify v = Inr ciphertext"
      and "searchPath data ''crypto/mac'' = Inr (Some (JStr mac))"
  shows "snd (decryptData P data pw) = Inl InvalidPassword
         \<longleftrightarrow> drop 2 (hexlify (keccak256 P (slice_list 16 32 key @ ciphertext))) \<noteq> toLowerCase mac"
proof -
  have "snd (decryptData P data pw) = Inl InvalidPassword
        \<longleftrightarrow> recoverPrivateKey P data key = Inl InvalidPassword"
    using assms(1) by (simp add: decryptData_key getAccount_InvalidPassword)
  also have "\<dots> \<longleftrightarrow> drop 2 (hexlify (keccak256 P (slice_list 16 32 key @ ciphertext))) \<noteq> toLowerCase mac"
    unfolding recoverPrivateKey_mac [OF assms(2-4)]
    by (auto simp: bindE_eq_Inl split: option.splits dest: decryptCipher_error)
  finally show ?thesis .
qed

theorem decrypt_invalid_password_iff_mac_witness:
  "snd (decryptData demo scrypt_keystore (PasswordString ''bar'')) = Inl InvalidPassword
   \<and> snd (decryptData demo scrypt_keystore (PasswordString ''foo'')) \<noteq> Inl InvalidPassword"
  unfolding scrypt_keystore_def
  using decrypt_invalid_password_iff_mac [OF scrypt_keystore_key_bar scrypt_document_ciphertext ciphertext_bytes
          scrypt_document_mac]
        decrypt_invalid_password_iff_mac [OF scrypt_keystore_key_foo scrypt_document_ciphertext ciphertext_bytes
          scrypt_document_mac]
  by (simp add: demo_fields mac_foo mac_bar toLowerCase_mac)

text \<open>
  C9. The MAC is verified before the cipher name is looked at: for a document whose
  \<^verbatim>\<open>crypto/cipher\<close> is not \<^verbatim>\<open>aes-128-ctr\<close>, \<^verbatim>\<open>decrypt\<close> fails with
  \<^verbatim>\<open>invalid password\<close> when the key derived from the password does not reproduce the
  stored MAC, and with \<^verbatim>\<open>unsupported cipher\<close> only when it does.
\<close>

theorem decrypt_mac_before_cipher:
  assumes "deriveKey P data (getPassword pw) = (calls, Inr key)"
      and "searchPath data ''crypto/ciphertext'' = Inr v"
      and "looseArrayify v = Inr ciphertext"
      and "searchPath data ''crypto/mac'' = Inr (Some (JStr mac))"
      and "searchPath data ''crypto/cipher'' = Inr cipher"
      and "cipher \<noteq> Some (JStr ''aes-128-ctr'')"
  shows "snd (decryptData P data pw) =
           (if drop 2 (hexlify (keccak256 P (slice_list 16 32 key @ ciphertext))) \<noteq> toLowerCase mac
            then Inl InvalidPassword else Inl UnsupportedCipher)"
  using assms(5,6)
  by (simp add: decryptData_key [OF assms(1)] getAccount_def
        recoverPrivateKey_mac [OF assms(2-4)] decryptCipher_def)

theorem decrypt_mac_before_cipher_witness:
  "snd (decryptData demo other_cipher_keystore (PasswordString ''bar'')) = Inl InvalidPassword
   \<and> snd (decryptData demo other_cipher_keystore (PasswordString ''foo'')) = Inl UnsupportedCipher"
  unfolding other_cipher_keystore_def
  using decrypt_mac_before_cipher [OF scrypt_keystore_key_bar scrypt_document_ciphertext ciphertext_bytes
          scrypt_document_mac scrypt_document_cipher]
        decrypt_mac_before_cipher [OF scrypt_keystore_key_foo scrypt_document_ciphertext ciphertext_bytes
          scrypt_document_mac scrypt_document_cipher]
  by (simp add: demo_fields mac_foo mac_bar toLowerCase_mac)

section \<open>Validation of the key-derivation parameters\<close>

lemma check_wide_n: "\<not> not_power_of_two_check 12884901888"
  by (simp add: not_power_of_two_check_def round_double_def)

lemma wide_n_not_power: "(12884901888::int) \<noteq> 2 ^ k"
proof
  assume eq: "(12884901888::int) = 2 ^ k"
  have "k < 34 \<or> 34 \<le> k" by arith
  then show False
  proof
    assume "k < 34"
    then have "(2::int) ^ k \<le> 2 ^ 33" by (intro power_increasing) simp_all
    with eq show False by simp
  next
    assume "34 \<le> k"
    then have "(2::int) ^ 34 \<le> 2 ^ k" by (intro power_increasing) simp_all
    with eq show False by simp
  qed
qed

text \<open>
  C5. The claim: for a document whose \<^verbatim>\<open>crypto/kdf\<close> is scrypt, a zero or missing
  \<^verbatim>\<open>n\<close>, \<^verbatim>\<open>r\<close> or \<^verbatim>\<open>p\<close> gives \<^verbatim>\<open>UnsupportedKdfParams\<close>, otherwise an
  \<^verbatim>\<open>n\<close> that is not a power of two gives \<^verbatim>\<open>UnsupportedKdfNValue\<close>, otherwise a
  \<^verbatim>\<open>dklen\<close> other than 32 gives \<^verbatim>\<open>UnsupportedDkLen\<close>, and scrypt is not invoked
  in any of these cases. The source tests \<^verbatim>\<open>(N & (N - 1)) !== 0\<close>, and \<^verbatim>\<open>&\<close> works on
  the low 32 bits of its operands: for the document \<open>wide_n_keystore\<close>, whose \<^verbatim>\<open>n\<close> is
  \<open>12884901888 = 3 * 2 ^ 32\<close> and no power of two, the test passes and scrypt is invoked
  with this \<^verbatim>\<open>N\<close>, whatever the collaborators and the password.
\<close>

theorem scrypt_invoked_with_wide_n:
  "fst (decryptData P wide_n_keystore pw) =
     [ScryptCall (getPassword pw) [0xab, 0xcd] 12884901888 8 1 64]
   \<and> (\<forall>k. (12884901888::int) \<noteq> 2 ^ k)"
  by (simp add: decryptData_def wide_n_keystore_def scrypt_document_key check_wide_n
        wide_n_not_power split: prod.splits)

lemma pbkdf2Params_length:
  "pbkdf2Params data = Inr (salt, c, dkLen, prf) \<Longrightarrow> dkLen = 32"
  unfolding pbkdf2Params_def Let_def
  by (auto simp: bindE_def split: sum.splits if_splits)

lemma pbkdf2_length_is_dklen:
  "Pbkdf2Call pwb salt c len prf \<in> set (fst (decryptData P data pw)) \<Longrightarrow> len = 32"
  unfolding decryptData_def deriveKey_def
  by (auto split: sum.splits option.splits json.splits if_splits prod.splits
           dest: pbkdf2Params_length)

text \<open>
  C2. The claim: in the pbkdf2 branch of \<^verbatim>\<open>decrypt\<close>, pbkdf2 is invoked requesting
  64 bytes, so that bytes 32 to 64 of the derived key are there as the mnemonic key. The
  source passes \<^verbatim>\<open>dkLen\<close>, which it has just checked to be 32: for the document
  \<open>pbkdf2_keystore\<close> the one invocation of pbkdf2 asks for 32 bytes, whatever the
  collaborators and the password (and by \<open>pbkdf2_length_is_dklen\<close> no document makes it
  ask for any other length).
\<close>

theorem pbkdf2_invoked_with_dklen:
  "fst (decryptData P pbkdf2_keystore pw) =
     [Pbkdf2Call (getPassword pw) [0xab, 0xcd] (Some 262144) 32 ''sha256'']"
  by (simp add: decryptData_def deriveKey_def pbkdf2_keystore_kdf pbkdf2_keystore_params
        toLowerCase_pbkdf2 split: prod.splits)

section \<open>Validation of the account by encrypt\<close>

text \<open>
  C6. \<^verbatim>\<open>encrypt\<close> validates the account before any key derivation runs. When the
  canonical form of the address and the address of the private key are both defined: if
  they differ, the result is \<^verbatim>\<open>address/privateKey mismatch\<close>; if they agree and a
  mnemonic is present whose node along the given (or default) path has another private
  key, the result is \<^verbatim>\<open>mnemonic mismatch\<close>; if they agree and a path is given without
  a mnemonic, the result is \<^verbatim>\<open>cannot specify path without mnemonic\<close>. In each case
  the log of KDF invocations is empty.
\<close>

theorem encrypt_validates_account:
  assumes "getAddress P (address account) = Some a"
      and "computeAddressOfKey P (privateKey account) = Inr b"
  shows "(a \<noteq> b \<longrightarrow>
            encrypt P account pw options rng now = ([], Inl AddressPrivateKeyMismatch))
       \<and> (a = b \<and> mnemonic account = Some m
            \<and> fromMnemonic_derivePath P m
                 (if truthy_string (path account) then the (path account) else defaultPath)
                = Some node
            \<and> node_privateKey node \<noteq> privateKey account \<longrightarrow>
            encrypt P account pw options rng now = ([], Inl MnemonicMismatch))
       \<and> (a = b \<and> mnemonic account = None \<and> path account \<noteq> None \<longrightarrow>
            encrypt P account pw options rng now = ([], Inl PathWithoutMnemonic))"
  using assms
  by (auto simp: encrypt_def encryptData_def validateAccount_def)

theorem encrypt_validates_account_witness:
  "encrypt demo mismatched_account (PasswordString ''foo'') None 7 some_time =
     ([], Inl AddressPrivateKeyMismatch)
   \<and> encrypt demo wrong_mnemonic_account (PasswordString ''foo'') None 7 some_time =
     ([], Inl MnemonicMismatch)
   \<and> encrypt demo path_only_account (PasswordString ''foo'') None 7 some_time =
     ([], Inl PathWithoutMnemonic)"
proof -
  have a1: "getAddress demo (address mismatched_account) =
              Some ''0x898A8B8C8D8E8F909192939495969798999A9B9C''"
    by (simp add: mismatched_account_def plain_account_def demo_fields hd_address)
  have k1: "computeAddressOfKey demo (privateKey mismatched_account) =
              Inr ''0x0102030405060708090A0B0C0D0E0F1011121314''"
    by (simp add: mismatched_account_def plain_account_def plain_key_computeAddress)
  have a2: "getAddress demo (address wrong_mnemonic_account) =
              Some ''0x0102030405060708090A0B0C0D0E0F1011121314''"
    by (simp add: wrong_mnemonic_account_def plain_account_def demo_fields plain_address)
  have k2: "computeAddressOfKey demo (privateKey wrong_mnemonic_account) =
              Inr ''0x0102030405060708090A0B0C0D0E0F1011121314''"
    by (simp add: wrong_mnemonic_account_def plain_account_def plain_key_computeAddress)
  have a3: "getAddress demo (address path_only_account) =
              Some ''0x0102030405060708090A0B0C0D0E0F1011121314''"
    by (simp add: path_only_account_def plain_account_def demo_fields plain_address)
  have k3: "computeAddressOfKey demo (privateKey path_only_account) =
              Inr ''0x0102030405060708090A0B0C0D0E0F1011121314''"
    by (simp add: path_only_account_def plain_account_def plain_key_computeAddress)
  show ?thesis
    using encrypt_validates_account [OF a1 k1, where pw = "PasswordString ''foo''"
            and options = None and rng = 7 and now = some_time]
          encrypt_validates_account [OF a2 k2, where pw = "PasswordString ''foo''"
            and options = None and rng = 7 and now = some_time
            and m = "''000102030405060708090A0B0C0D0E0F''"
            and node = "\<lparr>node_privateKey =
                ''0x88898a8b8c8d8e8f909192939495969798999a9b9c9d9e9fa0a1a2a3a4a5a6a7'',
              node_mnemonic = ''000102030405060708090A0B0C0D0E0F'', node_path = defaultPath\<rparr>"]
          encrypt_validates_account [OF a3 k3, where pw = "PasswordString ''foo''"
            and options = None and rng = 7 and now = some_time]
    by (simp add: wrong_mnemonic_account_def path_only_account_def plain_account_def
          demo_fields hd_node)
qed

section \<open>The address check of decrypt\<close>

text \<open>
  C7. When \<^verbatim>\<open>decrypt\<close> has recovered the private key and the document has a non-empty
  string as its \<^verbatim>\<open>address\<close>, that string in lower case, with \<^verbatim>\<open>0x\<close> prepended when
  missing, is put in canonical form and compared with the address computed from the
  private key: \<^verbatim>\<open>decrypt\<close> fails with \<^verbatim>\<open>address mismatch\<close> exactly when the two differ.
  And every account \<^verbatim>\<open>decrypt\<close> returns has the address computed from its private key.
\<close>

theorem decrypt_address_coherent:
  "(deriveKey P data (getPassword pw) = (calls, Inr key)
      \<and> recoverPrivateKey P data key = Inr pk
      \<and> computeAddress P pk = Some addr
      \<and> data_address data = Inr (Some (JStr a)) \<and> a \<noteq> []
      \<and> getAddress P (if take 2 (toLowerCase a) \<noteq> ''0x'' then ''0x'' @ toLowerCase a
                         else toLowerCase a) = Some c
     \<longrightarrow> (snd (decryptData P data pw) = Inl AddressMismatch \<longleftrightarrow> c \<noteq> addr))
   \<and> (snd (decryptData P data pw) = Inr account
     \<longrightarrow> computeAddressOfKey P (privateKey account) = Inr (address account))"
proof (intro conjI impI)
  assume h: "deriveKey P data (getPassword pw) = (calls, Inr key)
      \<and> recoverPrivateKey P data key = Inr pk
      \<and> computeAddress P pk = Some addr
      \<and> data_address data = Inr (Some (JStr a)) \<and> a \<noteq> []
      \<and> getAddress P (if take 2 (toLowerCase a) \<noteq> ''0x'' then ''0x'' @ toLowerCase a
                         else toLowerCase a) = Some c"
  then have h4: "data_address data = Inr (Some (JStr a))" and h5: "a \<noteq> []"
      and h6: "getAddress P (if take 2 (toLowerCase a) \<noteq> ''0x'' then ''0x'' @ toLowerCase a
                         else toLowerCase a) = Some c"
    by blast+
  have chk: "checkAddress P data addr = (if c \<noteq> addr then Inl AddressMismatch else Inr ())"
    by (rule checkAddress_string [OF h4 h5 h6])
  from h have h1: "deriveKey P data (getPassword pw) = (calls, Inr key)"
      and h2: "recoverPrivateKey P data key = Inr pk" and h3: "computeAddress P pk = Some addr"
    by blast+
  have "snd (decryptData P data pw) = getAccount P data key"
    using h1 by (simp add: decryptData_key)
  also have "\<dots> = Inl AddressMismatch \<longleftrightarrow> c \<noteq> addr"
    unfolding getAccount_def Let_def
    by (auto simp: h2 h3 chk bindE_eq_Inl split: if_splits
             dest: searchPath_error getMnemonic_error)
  finally show "snd (decryptData P data pw) = Inl AddressMismatch \<longleftrightarrow> c \<noteq> addr" .
next
  assume "snd (decryptData P data pw) = Inr account"
  then obtain key where "getAccount P data key = Inr account"
    by (blast dest: decryptData_Inr)
  then obtain pk where "computeAddress P pk = Some (address account)"
      and "privateKey account = hexlify pk"
    by (blast dest: getAccount_Inr)
  then show "computeAddressOfKey P (privateKey account) = Inr (address account)"
    by (simp add: computeAddressOfKey_hexlify)
qed

theorem decrypt_address_coherent_witness:
  "snd (decryptData demo wrong_address_keystore (PasswordString ''foo'')) = Inl AddressMismatch
   \<and> computeAddressOfKey demo
        ''0x000102030405060708090a0b0c0d0e0f101112131415161718191a1b1c1d1e1f'' =
       Inr ''0x0102030405060708090A0B0C0D0E0F1011121314''"
  using decrypt_address_coherent [where P = demo and data = wrong_address_keystore
          and pw = "PasswordString ''foo''"
          and calls = "[ScryptCall [102, 111, 111] [0xab, 0xcd] 1024 8 1 64]"
          and key = key_foo
          and pk = "[0x00, 0x01, 0x02, 0x03, 0x04, 0x05, 0x06, 0x07, 0x08, 0x09, 0x0a, 0x0b, 0x0c, 0x0d, 0x0e, 0x0f,
                  0x10, 0x11, 0x12, 0x13, 0x14, 0x15, 0x16, 0x17, 0x18, 0x19, 0x1a, 0x1b, 0x1c, 0x1d, 0x1e, 0x1f]"
          and addr = "''0x0102030405060708090A0B0C0D0E0F1011121314''"
          and a = "''898a8b8c8d8e8f909192939495969798999a9b9c''"
          and c = "''0x898A8B8C8D8E8F909192939495969798999A9B9C''"]
        decrypt_address_coherent [where P = demo and data = scrypt_keystore
          and pw = "PasswordString ''foo''"
          and account = "\<lparr>address = ''0x0102030405060708090A0B0C0D0E0F1011121314'',
            privateKey = ''0x000102030405060708090a0b0c0d0e0f101112131415161718191a1b1c1d1e1f'',
            mnemonic = None, path = None, isKeystoreAccount = True\<rparr>"]
  by (simp add: scrypt_keystore_decrypts wrong_address_keystore_def scrypt_keystore_key_foo_bytes
        scrypt_document_recover demo_fields plain_key_address scrypt_document_address
        toLowerCase_addresses lower_addresses_canonical)

section \<open>The mnemonic section of decrypt\<close>



section \<open>The overrides of salt, IV and UUID\<close>

text \<open>
  C10. \<^verbatim>\<open>encrypt\<close> does not validate the length of \<^verbatim>\<open>options.salt\<close>: a supplied salt
  that \<^verbatim>\<open>arrayify\<close> reads as bytes (an array of bytes, or \<^verbatim>\<open>0x\<close> and pairs of
  hexadecimal digits), of any length, is the salt scrypt is called with, and choosing it
  is never an error; a supplied IV or UUID that is not 16 bytes long is rejected with
  \<^verbatim>\<open>invalid iv\<close> or \<^verbatim>\<open>invalid uuid\<close>. A string that \<^verbatim>\<open>arrayify\<close> does not read
  (\<open>arrayify_odd_length\<close>) is no \<^verbatim>\<open>BytesLike\<close> value and is outside the claim.
\<close>

theorem encrypt_salt_any_length:
  assumes "validateAccount P account = Inr ()"
      and "arrayify (HexString (privateKey account)) = Inr privKey"
      and "chooseEntropy P account = Inr (entropy, pth)"
      and "opt_salt options = Some s" and "truthy_bytes (Some s)" and "arrayify s = Inr salt"
  shows "chooseSalt P options rng = Inr (salt, rng)
       \<and> (chooseIv P options rng = Inr (iv, rng2) \<and> chooseUuid P options rng2 = Inr (u, rng3)
            \<longrightarrow> fst (encrypt P account pw (Some options) rng now) =
                  [ScryptCall (getPassword pw) salt (fst (chooseScrypt options))
                     (fst (snd (chooseScrypt options))) (snd (snd (chooseScrypt options))) 64])
       \<and> (opt_iv options = Some i \<and> truthy_bytes (Some i) \<and> arrayify i = Inr iv
            \<and> length iv \<noteq> 16
            \<longrightarrow> encrypt P account pw (Some options) rng now = ([], Inl InvalidIv))
       \<and> (chooseIv P options rng = Inr (iv, rng2)
            \<and> opt_uuid options = Some uuid \<and> uuid \<noteq> [] \<and> arrayify (HexString uuid) = Inr u
            \<and> length u \<noteq> 16
            \<longrightarrow> encrypt P account pw (Some options) rng now = ([], Inl InvalidUuid))"
proof -
  have salt: "chooseSalt P options rng = Inr (salt, rng)"
    using assms(4-6) by (simp add: chooseSalt_def)
  have prep: "prepare P account options rng =
      bindE (chooseIv P options rng) (\<lambda>(iv, rng2).
      bindE (chooseUuid P options rng2) (\<lambda>(uuidRandom, rng3).
        (case chooseScrypt options of
           (N, r, p) \<Rightarrow>
             Inr \<lparr>p_privateKey = privKey, p_entropy = entropy, p_path = pth,
                  p_client = (if truthy_string (opt_client options) then the (opt_client options)
                              else ''ethers.js''),
                  p_salt = salt, p_iv = iv, p_uuidRandom = uuidRandom,
                  p_N = N, p_r = r, p_p = p, p_rng = rng3\<rparr>)))"
    using assms(2,3) salt by (simp add: prepare_def Let_def)
  show ?thesis
    by (auto simp: salt fst_encrypt encryptData_prepared [OF assms(1)] prep chooseIv_def
          chooseUuid_def intro!: encrypt_error split: prod.splits)
qed

theorem encrypt_salt_any_length_witness:
  "fst (encrypt demo plain_account (PasswordString ''foo'') (Some long_salt_options) 7 some_time) =
     [ScryptCall [102, 111, 111] (replicate 40 7) 1024 8 1 64]
   \<and> fst (encrypt demo plain_account (PasswordString ''foo'') (Some empty_salt_options) 7 some_time) =
     [ScryptCall [102, 111, 111] [] 1024 8 1 64]
   \<and> encrypt demo plain_account (PasswordString ''foo'') (Some short_iv_options) 7 some_time =
     ([], Inl InvalidIv)
   \<and> encrypt demo plain_account (PasswordString ''foo'') (Some short_uuid_options) 7 some_time =
     ([], Inl InvalidUuid)"
proof -
  have key: "arrayify (HexString (privateKey plain_account)) =
      Inr [0x00, 0x01, 0x02, 0x03, 0x04, 0x05, 0x06, 0x07, 0x08, 0x09, 0x0a, 0x0b, 0x0c, 0x0d, 0x0e, 0x0f,
          0x10, 0x11, 0x12, 0x13, 0x14, 0x15, 0x16, 0x17, 0x18, 0x19, 0x1a, 0x1b, 0x1c, 0x1d, 0x1e, 0x1f]"
    by (simp add: plain_account_def plain_key_bytes del: hex_pairs.simps(3))
  have ent: "chooseEntropy demo plain_account = Inr (None, None)"
    by (simp add: chooseEntropy_def plain_account_def)
  note inst = encrypt_salt_any_length [OF plain_account_valid key ent,
      where pw = "PasswordString ''foo''" and rng = 7 and now = some_time]
  have 1: "fst (encrypt demo plain_account (PasswordString ''foo'') (Some long_salt_options) 7 some_time) =
     [ScryptCall [102, 111, 111] (replicate 40 7) 1024 8 1 64]"
    using inst [of long_salt_options "ByteArray (replicate 40 7)" "replicate 40 7"
        "replicate 16 1" 7 "[0x00, 0x01, 0x02, 0x03, 0x04, 0x05, 0x06, 0x07, 0x08, 0x09, 0x0a, 0x0b, 0x0c, 0x0d, 0x0e, 0x0f]" 7]
    by (simp add: long_salt_options_def fixed_options_def chooseIv_def chooseUuid_def
          chooseScrypt_def uuid_bytes del: hex_pairs.simps(3))
  have 2: "fst (encrypt demo plain_account (PasswordString ''foo'') (Some empty_salt_options) 7 some_time) =
     [ScryptCall [102, 111, 111] [] 1024 8 1 64]"
    using inst [of empty_salt_options "HexString ''0x''" "[]"
        "replicate 16 1" 7 "[0x00, 0x01, 0x02, 0x03, 0x04, 0x05, 0x06, 0x07, 0x08, 0x09, 0x0a, 0x0b, 0x0c, 0x0d, 0x0e, 0x0f]" 7]
    by (simp add: empty_salt_options_def fixed_options_def chooseIv_def chooseUuid_def
          chooseScrypt_def uuid_bytes del: hex_pairs.simps(3))
  have 3: "encrypt demo plain_account (PasswordString ''foo'') (Some short_iv_options) 7 some_time =
     ([], Inl InvalidIv)"
    using inst [of short_iv_options "HexString ''0xabcd''" "[0xab, 0xcd]" _ _ _ _
        "ByteArray (replicate 15 1)"]
    by (simp add: short_iv_options_def fixed_options_def hex_eval)
  have 4: "encrypt demo plain_account (PasswordString ''foo'') (Some short_uuid_options) 7 some_time =
     ([], Inl InvalidUuid)"
    using inst [of short_uuid_options "HexString ''0xabcd''" "[0xab, 0xcd]" "replicate 16 1" 7
        "[0x01, 0x02]" _ _ "''0x0102''"]
    by (simp add: short_uuid_options_def fixed_options_def hex_eval chooseIv_def)
  from 1 2 3 4 show ?thesis by blast
qed

section \<open>Determinism of encrypt\<close>

text \<open>
  C3, as amended. With the overrides of salt, IV and UUID supplied, the output of
  \<^verbatim>\<open>encrypt\<close> for an account without mnemonic does not depend on the random source or
  on the clock; for an account with a mnemonic it depends on them only through the 16
  random bytes of the mnemonic counter and the time stamp written to \<^verbatim>\<open>gethFilename\<close>.
\<close>

theorem encrypt_deterministic_given_overrides:
  assumes "truthy_bytes (opt_salt options)" and "truthy_bytes (opt_iv options)"
      and "truthy_string (opt_uuid options)"
      and "\<not> truthy_string (mnemonic account)
           \<or> (fst (randomBytes P 16 rng1) = fst (randomBytes P 16 rng2)
              \<and> timestamp now1 = timestamp now2)"
  shows "encrypt P account pw (Some options) rng1 now1 = encrypt P account pw (Some options) rng2 now2"
proof (cases "validateAccount P account")
  case (Inl e)
  then show ?thesis by (simp add: encrypt_def encryptData_def)
next
  case (Inr u)
  then have valid: "validateAccount P account = Inr ()" by simp
  show ?thesis
  proof (cases "prepare P account options rng1")
    case (Inl e)
    then show ?thesis
      by (simp add: encrypt_def encryptData_prepared [OF valid]
            prepare_overrides [OF assms(1-3), of P account rng2 rng1])
  next
    case (Inr pr)
    have rng: "p_rng pr = rng1" by (rule prepare_rng [OF assms(1-3) Inr])
    have "p_entropy pr = None
           \<or> (fst (randomBytes P 16 (p_rng pr)) = fst (randomBytes P 16 rng2)
              \<and> timestamp now1 = timestamp now2)"
      using assms(4) prepare_entropy [OF _ Inr] rng by auto
    then have "encryptWithKey P account (pr\<lparr>p_rng := rng2\<rparr>) now2 = encryptWithKey P account pr now1"
      by (intro ext encryptWithKey_env)
    then show ?thesis
      by (simp add: encrypt_def encryptData_prepared [OF valid] Inr
            prepare_overrides [OF assms(1-3), of P account rng2 rng1])
  qed
qed

theorem encrypt_deterministic_given_overrides_witness:
  "encrypt demo plain_account (PasswordString ''foo'') (Some fixed_options) 7 some_time =
   encrypt demo plain_account (PasswordString ''foo'') (Some fixed_options) 8 later_time"
  using encrypt_deterministic_given_overrides [of fixed_options plain_account demo 7 8
          some_time later_time "PasswordString ''foo''"]
  by (simp add: fixed_options_def plain_account_def)

text \<open>
  C3 as stated fails for an account that carries a mnemonic: with the same account,
  password and options (salt, IV and UUID supplied), \<^verbatim>\<open>encrypt\<close> writes different JSON
  text when the random source differs (the mnemonic counter is drawn from it and cannot
  be overridden), and when only the clock differs (the time stamp of \<^verbatim>\<open>gethFilename\<close>).
\<close>

theorem encrypt_depends_on_environment:
  "encrypt demo hd_account (PasswordString ''foo'') (Some fixed_options) 7 some_time \<noteq>
   encrypt demo hd_account (PasswordString ''foo'') (Some fixed_options) 8 some_time
   \<and> encrypt demo hd_account (PasswordString ''foo'') (Some fixed_options) 7 some_time \<noteq>
     encrypt demo hd_account (PasswordString ''foo'') (Some fixed_options) 7 later_time"
proof -
  have 1: "stringify (hd_document ''0708090a0b0c0d0e0f10111213141516''
              ''58595a5b5c5d5e5f6061626364656667'' ''2020-01-05T13-07-09.0Z'') \<noteq>
           stringify (hd_document ''08090a0b0c0d0e0f1011121314151617''
              ''68696a6b6c6d6e6f7071727374757677'' ''2020-01-05T13-07-09.0Z'')"
    by (simp add: stringify_eval)
  have 2: "stringify (hd_document ''0708090a0b0c0d0e0f10111213141516''
              ''58595a5b5c5d5e5f6061626364656667'' ''2020-01-05T13-07-09.0Z'') \<noteq>
           stringify (hd_document ''0708090a0b0c0d0e0f10111213141516''
              ''58595a5b5c5d5e5f6061626364656667'' ''2020-01-05T13-07-10.0Z'')"
    by (simp add: stringify_eval)
  have 3: "encryptData demo hd_account (PasswordString ''foo'') (Some fixed_options) 8 some_time =
     ([ScryptCall [102, 111, 111] [0xab, 0xcd] 1024 8 1 64],
      Inr (hd_document ''08090a0b0c0d0e0f1011121314151617''
              ''68696a6b6c6d6e6f7071727374757677'' ''2020-01-05T13-07-09.0Z''))"
    by (simp only: hd_account_encrypted hd_environment timestamps)
  have 4: "encryptData demo hd_account (PasswordString ''foo'') (Some fixed_options) 7 later_time =
     ([ScryptCall [102, 111, 111] [0xab, 0xcd] 1024 8 1 64],
      Inr (hd_document ''0708090a0b0c0d0e0f10111213141516''
              ''58595a5b5c5d5e5f6061626364656667'' ''2020-01-05T13-07-10.0Z''))"
    by (simp only: hd_account_encrypted hd_environment timestamps)
  show ?thesis
    using 1 2
    by (simp add: encrypt_def hd_account_encrypted_7 3 4 demo_fields hd_keystore_def)
qed

section \<open>The round trip\<close>

text \<open>
  C1. Let \<^verbatim>\<open>encrypt\<close> return a document for an account, a password and options (any
  options, or none). The account is well formed: its address is the address of its
  private key, written as \<^verbatim>\<open>0x\<close> and hexadecimal digits whose lowercase form has the
  address as its canonical form; its private key is written as \<open>hexlify\<close> writes it; a
  mnemonic, if present, is not the empty string and is the phrase of its entropy, and
  the node derived from it carries the phrase and the path it was derived with. An N
  given in the options is a power of two. \<^verbatim>\<open>JSON.parse\<close> reads back what
  \<^verbatim>\<open>JSON.stringify\<close> writes, and AES-CTR decryption inverts encryption. Then
  \<^verbatim>\<open>decrypt\<close> of the document with the same password makes the same scrypt call and
  returns an account with the same address, the same private key and the same mnemonic;
  its path is absent without a mnemonic, and with one it is the path of the account, the
  default path if the account has none. That the mnemonic derives to the private key
  along that path is what \<^verbatim>\<open>encrypt\<close> has checked before it wrote the document.
\<close>

theorem decrypt_encrypt_round_trip:
  fixes account :: ExternallyOwnedAccount
  assumes enc: "encrypt P account pw options rng now = (calls, Inr json)"
      and json: "\<forall>d. JSON_parse P (JSON_stringify P d) = Some d"
      and aes: "\<forall>key iv c x. aes_ctr P key iv = Some c \<longrightarrow> ctr_decrypt c (ctr_encrypt c x) = x"
      and addr: "address account = ''0x'' @ digits"
      and hex: "\<forall>c \<in> set digits. hex_val c \<noteq> None"
      and matching: "computeAddress P pk = Some (address account)"
      and lower: "getAddress P (''0x'' @ toLowerCase digits) = Some (address account)"
      and key: "privateKey account = hexlify pk"
      and phrase: "mnemonic account \<noteq> Some []"
      and entropy: "\<forall>m e. mnemonic account = Some m \<longrightarrow> mnemonicToEntropy P m = Some e
                      \<longrightarrow> entropyToMnemonic P e = Some m"
      and node: "\<forall>m p n. mnemonic account = Some m \<longrightarrow> fromMnemonic_derivePath P m p = Some n
                      \<longrightarrow> node_mnemonic n = m \<and> node_path n = p"
      and N: "\<forall>opts so n. options = Some opts \<longrightarrow> opt_scrypt opts = Some so \<longrightarrow> opt_N so = Some n
                      \<longrightarrow> (\<exists>k. n = 2 ^ k)"
  shows "\<exists>r. decrypt P json pw = (calls, Inr r)
           \<and> address r = address account
           \<and> privateKey r = privateKey account
           \<and> mnemonic r = mnemonic account
           \<and> path r = (case mnemonic account of
                         None \<Rightarrow> None
                       | Some m \<Rightarrow>
                           Some (case path account of
                                   None \<Rightarrow> defaultPath
                                 | Some p \<Rightarrow> if p = [] then defaultPath else p))"
proof -
  define opts where "opts = (case options of None \<Rightarrow> no_options | Some opts \<Rightarrow> opts)"
  from encrypt_Inr [OF enc] obtain pr k data
    where valid: "validateAccount P account = Inr ()"
      and prep: "prepare P account opts rng = Inr pr"
      and scr: "scrypt P (getPassword pw) (p_salt pr) (p_N pr) (p_r pr) (p_p pr) 64 = Some k"
      and ewk: "encryptWithKey P account pr now k = Inr data"
      and written: "json = JSON_stringify P data"
    unfolding opts_def by blast
  have calls: "calls = [ScryptCall (getPassword pw) (p_salt pr) (p_N pr) (p_r pr) (p_p pr) 64]"
    using enc valid prep
    by (auto simp: encrypt_def encryptData_def Let_def opts_def split: sum.splits prod.splits)
  from validateAccount_Inr [OF valid]
  have derived: "case mnemonic account of
                 None \<Rightarrow> path account = None
               | Some m \<Rightarrow>
                   \<exists>node. fromMnemonic_derivePath P m
                            (if truthy_string (path account) then the (path account) else defaultPath)
                          = Some node
                        \<and> node_privateKey node = privateKey account"
    by blast
  note address = matching
  from prepare_Inr [OF prep]
  have pkb: "p_privateKey pr = pk"
    and ent: "chooseEntropy P account = Inr (p_entropy pr, p_path pr)"
    and params: "chooseScrypt opts = (p_N pr, p_r pr, p_p pr)"
    by (simp_all add: key arrayify_hexlify del: arrayify.simps)
  have "\<forall>so n. opt_scrypt opts = Some so \<longrightarrow> opt_N so = Some n \<longrightarrow> (\<exists>k. n = 2 ^ k)"
    using N by (cases options) (auto simp: opts_def no_options_def)
  from chooseScrypt_power [OF this params] have check: "\<not> not_power_of_two_check (p_N pr)"
    by (auto simp: power_of_two_check)
  note nz = chooseScrypt_nonzero [OF params]
  from encryptWithKey_Inr [OF ewk] obtain c
    where c: "aes_ctr P (slice_list 0 16 k) (p_iv pr) = Some c"
      and shape: "case p_entropy pr of
                 None \<Rightarrow>
                   data = JObj (web3Data P account pr (ctr_encrypt c (p_privateKey pr))
                     (keccak256 P (slice_list 16 32 k @ ctr_encrypt c (p_privateKey pr))))
               | Some entropy \<Rightarrow>
                   \<exists>mc. aes_ctr P (slice_list 32 64 k) (fst (randomBytes P 16 (p_rng pr))) = Some mc
                     \<and> data = JObj (web3Data P account pr (ctr_encrypt c (p_privateKey pr))
                           (keccak256 P (slice_list 16 32 k @ ctr_encrypt c (p_privateKey pr)))
                         @ [(''x-ethers'', JObj
                              ([(''client'', JStr (p_client pr)),
                                (''gethFilename'',
                                   JStr (''UTC--'' @ timestamp now @ ''--'' @
                                         toLowerCase (drop 2 (address account)))),
                                (''mnemonicCounter'',
                                   JStr (drop 2 (hexlify (fst (randomBytes P 16 (p_rng pr)))))),
                                (''mnemonicCiphertext'',
                                   JStr (drop 2 (hexlify (ctr_encrypt mc entropy))))]
                               @ (case p_path pr of None \<Rightarrow> [] | Some pth \<Rightarrow> [(''path'', JStr pth)])
                               @ [(''version'', JStr ''0.1'')]))])"
    by blast
  from aes c have inv: "ctr_decrypt c (ctr_encrypt c pk) = pk"
    by blast
  define ct where "ct = ctr_encrypt c pk"
  define mac where "mac = keccak256 P (slice_list 16 32 k @ ct)"
  have parsed: "decrypt P json pw = decryptData P data pw"
    using json by (simp add: decrypt_def written)
  show ?thesis
  proof (cases "p_entropy pr")
    case None
    with chooseEntropy_Inr [OF ent] phrase have nom: "mnemonic account = None"
      by (cases "mnemonic account") (auto split: if_splits)
    from shape None have data: "data = JObj (web3Data P account pr ct mac @ [])"
      by (simp add: pkb ct_def mac_def)
    have ext: "[] = [] \<or> [] = [(''x-ethers'', JObj [])]"
      by simp
    have dk: "deriveKey P data (getPassword pw) = (calls, Inr k)"
      using written_deriveKey [OF ext nz check, of P account ct mac "getPassword pw"] scr
      by (simp add: data calls)
    have rec: "recoverPrivateKey P data k = Inr pk"
      unfolding data ct_def mac_def by (rule written_recoverPrivateKey [OF ext c inv])
    have chk: "checkAddress P data (address account) = Inr ()"
      unfolding data by (rule written_checkAddress [OF ext addr hex lower])
    have ver: "searchPath data ''x-ethers/version'' = Inr None"
      unfolding data by (simp add: web3Data_no_section)
    have "getAccount P data k =
            Inr \<lparr>address = address account, privateKey = hexlify pk, mnemonic = None, path = None,
                 isKeystoreAccount = True\<rparr>"
      by (simp add: getAccount_def rec address chk ver Let_def)
    with dk parsed nom show ?thesis
      by (simp add: decryptData_def key)
  next
    case (Some e)
    with chooseEntropy_Inr [OF ent] obtain m
      where m: "mnemonic account = Some m" and "m \<noteq> []"
        and me: "mnemonicToEntropy P m = Some e"
        and pp: "p_path pr = Some (if truthy_string (path account) then the (path account) else defaultPath)"
      by (cases "mnemonic account") (auto split: if_splits)
    define pth where "pth = (if truthy_string (path account) then the (path account) else defaultPath)"
    from derived m obtain nd
      where nd: "fromMnemonic_derivePath P m pth = Some nd"
        and ndk: "node_privateKey nd = privateKey account"
      by (auto simp: pth_def)
    from node m nd have ndm: "node_mnemonic nd = m" and ndp: "node_path nd = pth"
      by blast+
    from entropy m me have em: "entropyToMnemonic P e = Some m"
      by blast
    from shape Some obtain mc
      where mc: "aes_ctr P (slice_list 32 64 k) (fst (randomBytes P 16 (p_rng pr))) = Some mc"
        and data0: "data = JObj (web3Data P account pr ct mac
                         @ [(''x-ethers'', JObj
                              [(''client'', JStr (p_client pr)),
                                (''gethFilename'',
                                   JStr (''UTC--'' @ timestamp now @ ''--'' @
                                         toLowerCase (drop 2 (address account)))),
                                (''mnemonicCounter'',
                                   JStr (drop 2 (hexlify (fst (randomBytes P 16 (p_rng pr)))))),
                                (''mnemonicCiphertext'',
                                   JStr (drop 2 (hexlify (ctr_encrypt mc e)))),
                                (''path'', JStr pth), (''version'', JStr ''0.1'')])])"
      by (auto simp: pkb ct_def mac_def pp pth_def)
    define x where "x = [(''client'', JStr (p_client pr)),
                                (''gethFilename'',
                                   JStr (''UTC--'' @ timestamp now @ ''--'' @
                                         toLowerCase (drop 2 (address account)))),
                                (''mnemonicCounter'',
                                   JStr (drop 2 (hexlify (fst (randomBytes P 16 (p_rng pr)))))),
                                (''mnemonicCiphertext'',
                                   JStr (drop 2 (hexlify (ctr_encrypt mc e)))),
                                (''path'', JStr pth), (''version'', JStr ''0.1'')]"
    have data: "data = JObj (web3Data P account pr ct mac @ [(''x-ethers'', JObj x)])"
      unfolding data0 x_def ..
    have ext: "[(''x-ethers'', JObj x)] = [] \<or> [(''x-ethers'', JObj x)] = [(''x-ethers'', JObj x)]"
      by simp
    have dk: "deriveKey P data (getPassword pw) = (calls, Inr k)"
      using written_deriveKey [OF ext nz check, of P account ct mac "getPassword pw"] scr
      by (simp add: data calls)
    have rec: "recoverPrivateKey P data k = Inr pk"
      unfolding data ct_def mac_def by (rule written_recoverPrivateKey [OF ext c inv])
    have chk: "checkAddress P data (address account) = Inr ()"
      unfolding data by (rule written_checkAddress [OF ext addr hex lower])
    have ver: "searchPath data ''x-ethers/version'' = Inr (Some (JStr ''0.1''))"
      unfolding data by (rule xEthers_lookups(1) [OF x_def])
    from aes mc have minv: "ctr_decrypt mc (ctr_encrypt mc e) = e"
      by blast
    have nonempty: "pth \<noteq> []"
      unfolding pth_def by (rule stored_path(2))
    define acct where "acct = \<lparr>address = address account, privateKey = hexlify pk, mnemonic = None,
                                path = None, isKeystoreAccount = True\<rparr>"
    have "node_privateKey nd = privateKey acct"
      by (simp add: ndk key acct_def)
    from written_getMnemonic [OF x_def mc minv em nonempty nd this]
    have "getMnemonic P data (slice_list 32 64 k) acct =
            Inr (acct\<lparr>mnemonic := Some m, path := Some pth\<rparr>)"
      by (simp add: data ndm ndp)
    then have "getAccount P data k = Inr (acct\<lparr>mnemonic := Some m, path := Some pth\<rparr>)"
      by (simp add: getAccount_def rec address chk ver Let_def acct_def)
    with dk parsed m show ?thesis
      by (simp add: decryptData_def key acct_def pth_def stored_path(1))
  qed
qed

text \<open>
  The round trip on the example instance, for an account with a mnemonic and a path of
  its own.
\<close>

theorem decrypt_encrypt_round_trip_witness:
  "\<exists>calls json r.
      encrypt demo hd_path_account (PasswordString ''foo'') (Some fixed_options) 7 some_time =
        (calls, Inr json)
    \<and> decrypt demo json (PasswordString ''foo'') = (calls, Inr r)
    \<and> address r = ''0x898A8B8C8D8E8F909192939495969798999A9B9C''
    \<and> privateKey r = ''0x88898a8b8c8d8e8f909192939495969798999a9b9c9d9e9fa0a1a2a3a4a5a6a7''
    \<and> mnemonic r = Some ''000102030405060708090A0B0C0D0E0F''
    \<and> path r = Some derived_path"
proof -
  obtain data where
    "encryptData demo hd_path_account (PasswordString ''foo'') (Some fixed_options) 7 some_time =
       ([ScryptCall [102, 111, 111] [0xab, 0xcd] 1024 8 1 64], Inr data)"
    using hd_path_account_encrypted by blast
  then have enc: "encrypt demo hd_path_account (PasswordString ''foo'') (Some fixed_options) 7 some_time =
       ([ScryptCall [102, 111, 111] [0xab, 0xcd] 1024 8 1 64], Inr (JSON_stringify demo data))"
    by (simp add: encrypt_def)
  have N: "\<forall>opts so n. Some fixed_options = Some opts \<longrightarrow> opt_scrypt opts = Some so \<longrightarrow> opt_N so = Some n
                      \<longrightarrow> (\<exists>k. n = 2 ^ k)"
  proof -
    have "(1024 :: int) = 2 ^ 10" by simp
    then show ?thesis by (auto simp: fixed_options_def simp del: power_numeral)
  qed
  from decrypt_encrypt_round_trip [where P = demo and account = hd_path_account
      and digits = "''898A8B8C8D8E8F909192939495969798999A9B9C''"
      and pk = "[0x88, 0x89, 0x8a, 0x8b, 0x8c, 0x8d, 0x8e, 0x8f, 0x90, 0x91, 0x92, 0x93, 0x94, 0x95, 0x96, 0x97,
          0x98, 0x99, 0x9a, 0x9b, 0x9c, 0x9d, 0x9e, 0x9f, 0xa0, 0xa1, 0xa2, 0xa3, 0xa4, 0xa5, 0xa6, 0xa7]",
      OF enc _ _ _ hd_digits _ _ _ _ _ _ N]
  have "\<exists>r. decrypt demo (JSON_stringify demo data) (PasswordString ''foo'') =
             ([ScryptCall [102, 111, 111] [0xab, 0xcd] 1024 8 1 64], Inr r)
           \<and> address r = address hd_path_account
           \<and> privateKey r = privateKey hd_path_account
           \<and> mnemonic r = mnemonic hd_path_account
           \<and> path r = (case mnemonic hd_path_account of
                         None \<Rightarrow> None
                       | Some m \<Rightarrow>
                           Some (case path hd_path_account of
                                   None \<Rightarrow> defaultPath
                                 | Some p \<Rightarrow> if p = [] then defaultPath else p))"
    by (simp_all add: demo_json demo_aes demo_entropy demo_node hd_path_account_def hd_lower
          lower_addresses_canonical hd_key_address hd_key_hexlify demo_fields(5,6))
  with enc show ?thesis
    by (auto simp: hd_path_account_def derived_path_nonempty)
qed

end
